theory Spec2Isabelle
  imports Main
begin

section \<open>The LAMMPS top-level class (lammps.cpp)\<close>

text \<open>
  A shallow embedding of \<^verbatim>\<open>LAMMPS::LAMMPS\<close>, \<^verbatim>\<open>LAMMPS::create\<close>,
  \<^verbatim>\<open>LAMMPS::post_create\<close>, \<^verbatim>\<open>LAMMPS::init\<close> and \<^verbatim>\<open>LAMMPS::destroy\<close>
  as one process of the pool runs them. What the process does that another
  observer can see (files it tries to open, lines it prints, objects it
  allocates, initialises and deletes) is appended to a trace; a call of one of
  the terminating methods of \<^verbatim>\<open>Error\<close> ends the run with the state reached,
  and so does a \<^verbatim>\<open>sprintf\<close> that writes past the end of its buffer.
\<close>

subsection \<open>Streams, objects and events\<close>

text \<open>A non-null \<^verbatim>\<open>FILE *\<close>; the null pointer is \<open>None\<close>.\<close>

datatype stream = Stdout | Stdin | File string

text \<open>The pointer members of the class that the code allocates or deletes
  (\<open>output\<close> is a keyword of Isabelle, so each carries the suffix \<open>_p\<close>).
  The first three are the fundamental classes of lines 67 to 69.\<close>

datatype member =
  memory_p | error_p | universe_p
  | comm_p | neighbor_p | domain_p | atom_p | group_p | force_p | modify_p | output_p
  | update_p | timer_p | cuda_p | citeme_p | input_p

text \<open>The classes it instantiates.\<close>

datatype cls =
  Memory | Error | Universe'
  | Comm | CommCuda | Neighbor | NeighborCuda | Domain' | DomainCuda | DomainOMP
  | Atom | Group | Force | Modify | ModifyCuda | Output | Update | Timer
  | Cuda | CiteMe | Input

text \<open>The variable an \<^verbatim>\<open>fopen\<close> result is assigned to.\<close>

datatype target = Uscreen | Ulogfile | Screen | Logfile | Infile

text \<open>The identification lines of the constructor, with the values they format.\<close>

datatype line =
  Version_line
  | Running_on_partitions nat
  | Processor_partition nat

datatype event =
  Fopen target string bool
  | Fprintf stream line
  | Universe_warn string
  | Message string
  | Comm_split nat
  | New member cls
  | Delete member
  | Init member
  | Accelerator
  | Create_avec string "string option"
  | Input_one string
  | Help_message "stream option"

text \<open>
  The methods of \<^verbatim>\<open>Error\<close> that do not return. The class is declared in
  error.h and its bodies are not part of the sources at hand; the model keeps
  the name of the method called, and the message.
\<close>

datatype error_call = Universe_all | Universe_one | All | One

text \<open>
  How a run can end without returning: in one of these methods, in
  \<^verbatim>\<open>error->done\<close>, or in a \<^verbatim>\<open>sprintf\<close> that writes past the end of its
  buffer. The behaviour of the program is undefined from such a write on, and
  the model follows the run no further.
\<close>

datatype exit = Fatal error_call string | Done | Overrun

subsection \<open>The universe and the class\<close>

record Universe =
  me :: nat
  nprocs :: nat
  existflag :: nat
  procs_per_world :: "int list"
  iworld :: nat
  uscreen :: "stream option"
  ulogfile :: "stream option"

text \<open>
  The members of \<^verbatim>\<open>LAMMPS\<close>, followed by the local variables of its
  constructor. \<open>world_me\<close> is the rank \<^verbatim>\<open>MPI_Comm_rank(world,&me)\<close> gives this
  process; \<open>ptrs\<close> holds the object pointers.
\<close>

record lammps =
  universe :: Universe
  screen :: "stream option"
  logfile :: "stream option"
  infile :: "stream option"
  world_me :: nat
  suffix :: "string option"
  suffix_enable :: nat
  ptrs :: "member \<Rightarrow> cls option"
  trace :: "event list"
  inflag :: nat
  screenflag :: nat
  logflag :: nat
  partscreenflag :: nat
  partlogflag :: nat
  cudaflag :: int
  citeflag :: nat
  helpflag :: nat

text \<open>
  What the process finds around it: its rank in the communicator it was given
  and the size of that communicator, which files \<^verbatim>\<open>fopen\<close> can open, whether
  the USER-CUDA package is installed (\<^verbatim>\<open>cuda->cuda_exists\<close>), the sizes that
  lmptype.h and the MPI library give the integer types, and the macros the
  file was compiled with. \<open>world_sizes\<close> and \<open>reorder_rank\<close> stand for the
  string formats of universe.cpp, which is not part of the sources at hand:
  the sizes of the worlds one partition directive declares, and the rank of
  this process after a reordering request.
\<close>

record env =
  comm_rank :: nat
  comm_size :: nat
  fopen_ok :: "string \<Rightarrow> bool"
  cuda_exists :: bool
  world_sizes :: "string \<Rightarrow> int list"
  reorder_rank :: "string \<Rightarrow> string \<Rightarrow> nat \<Rightarrow> nat"
  sizeof_int :: nat
  sizeof_smallint :: nat
  sizeof_tagint :: nat
  sizeof_bigint :: nat
  mpi_tagint_size :: nat
  mpi_bigint_size :: nat
  LAMMPS_SMALLBIG :: bool
  LAMMPS_BIGBIG :: bool
  LAMMPS_SMALLSMALL :: bool
  LMP_USER_OMP :: bool

type_synonym result = "(exit \<times> lammps) + lammps"

subsection \<open>Error\<close>

text \<open>
  Modelled from the spec: the bodies of \<^verbatim>\<open>Error::universe_all\<close>,
  \<^verbatim>\<open>universe_one\<close>, \<^verbatim>\<open>all\<close>, \<^verbatim>\<open>one\<close> and \<^verbatim>\<open>done\<close> are missing. The
  spec has them terminate the calling process (pool-wide before the worlds
  exist, world-collective, or process-local), so each ends the run here;
  \<^verbatim>\<open>universe_warn\<close> and \<^verbatim>\<open>message\<close> report and return.
\<close>

definition error :: "error_call \<Rightarrow> string \<Rightarrow> lammps \<Rightarrow> result" where
  "error call str st = Inl (Fatal call str, st)"

definition error_done :: "lammps \<Rightarrow> result" where
  "error_done st = Inl (Done, st)"

definition emit :: "event \<Rightarrow> lammps \<Rightarrow> lammps" where
  "emit ev st = st\<lparr>trace := trace st @ [ev]\<rparr>"

definition universe_warn :: "string \<Rightarrow> lammps \<Rightarrow> lammps" where
  "universe_warn str st = emit (Universe_warn str) st"

definition message :: "string \<Rightarrow> lammps \<Rightarrow> lammps" where
  "message str st = emit (Message str) st"

text \<open>The scope the spec gives each terminating method.\<close>

datatype scope = Process | World | Pool

fun scope_of :: "error_call \<Rightarrow> scope" where
  "scope_of Universe_all = Pool"
| "scope_of Universe_one = Process"
| "scope_of All = World"
| "scope_of One = Process"

text \<open>How a run ended (\<open>None\<close>: the function returned) and the state it reached.\<close>

definition outcome :: "result \<Rightarrow> exit option" where
  "outcome r = (case r of Inl (x, st) \<Rightarrow> Some x | Inr st \<Rightarrow> None)"

definition final :: "result \<Rightarrow> lammps" where
  "final r = (case r of Inl (x, st) \<Rightarrow> st | Inr st \<Rightarrow> st)"

text \<open>Running the statements of a function body one after the other.\<close>

fun seq :: "(lammps \<Rightarrow> result) list \<Rightarrow> lammps \<Rightarrow> result" where
  "seq [] st = Inr st"
| "seq (f # fs) st = (case f st of Inl e \<Rightarrow> Inl e | Inr st' \<Rightarrow> seq fs st')"

subsection \<open>Universe\<close>

text \<open>
  Modelled from the spec: \<^verbatim>\<open>Universe::Universe\<close>, \<^verbatim>\<open>add_world\<close> and
  \<^verbatim>\<open>consistent\<close> are missing. The spec has the worlds as contiguous
  intervals of pool ranks, in the order of the directives, a missing
  directive as one world of the whole pool, and the partition consistent
  when the sizes sum to the pool size. \<open>world_of\<close> is the index of the
  interval a rank falls in.
\<close>

fun world_of :: "int list \<Rightarrow> int \<Rightarrow> nat" where
  "world_of [] r = 0"
| "world_of (n # ns) r = (if r < n then 0 else Suc (world_of ns (r - n)))"

definition Universe_new :: "env \<Rightarrow> Universe" where
  "Universe_new e =
     \<lparr>me = comm_rank e, nprocs = comm_size e, existflag = 0, procs_per_world = [],
      iworld = 0, uscreen = None, ulogfile = None\<rparr>"

definition add_world :: "env \<Rightarrow> string option \<Rightarrow> Universe \<Rightarrow> Universe" where
  "add_world e str u =
     (let sizes = procs_per_world u @
            (case str of None \<Rightarrow> [int (nprocs u)] | Some s \<Rightarrow> world_sizes e s)
      in u\<lparr>procs_per_world := sizes, iworld := world_of sizes (int (me u))\<rparr>)"

definition consistent :: "Universe \<Rightarrow> bool" where
  "consistent u = (sum_list (procs_per_world u) = int (nprocs u))"

definition nworlds :: "Universe \<Rightarrow> nat" where
  "nworlds u = length (procs_per_world u)"

text \<open>
  Modelled from the spec: \<^verbatim>\<open>Universe::reorder\<close> is missing; the spec gives it
  no failure of its own, so it only renumbers the process.
\<close>

definition reorder :: "env \<Rightarrow> string \<Rightarrow> string \<Rightarrow> Universe \<Rightarrow> Universe" where
  "reorder e style a u = u\<lparr>me := reorder_rank e style a (me u)\<rparr>"

subsection \<open>The command-line switches (lines 75 to 180)\<close>

text \<open>\<^verbatim>\<open>arg[iarg][0] != '-'\<close>; the first byte of an empty string is its terminator.\<close>

definition not_dash :: "string \<Rightarrow> bool" where
  "not_dash s = (case s of [] \<Rightarrow> True | c # cs \<Rightarrow> c \<noteq> CHR ''-'')"

text \<open>The inner loop of \<^verbatim>\<open>-partition\<close>: one world directive per word.\<close>

function add_worlds :: "env \<Rightarrow> string list \<Rightarrow> nat \<Rightarrow> Universe \<Rightarrow> nat \<times> Universe" where
  "add_worlds e arg iarg u =
     (if iarg < length arg \<and> not_dash (arg ! iarg)
      then add_worlds e arg (iarg + 1) (add_world e (Some (arg ! iarg)) u)
      else (iarg, u))"
  by pat_completeness auto
termination
  by (relation "measure (\<lambda>(e, arg, iarg, u). length arg - iarg)") auto

text \<open>The inner loop of \<^verbatim>\<open>-var\<close>: the further values are skipped.\<close>

function skip_values :: "string list \<Rightarrow> nat \<Rightarrow> nat" where
  "skip_values arg iarg =
     (if iarg < length arg \<and> not_dash (arg ! iarg)
      then skip_values arg (iarg + 1)
      else iarg)"
  by pat_completeness auto
termination
  by (relation "measure (\<lambda>(arg, iarg). length arg - iarg)") auto

text \<open>
  One pass through the body of the outer loop, for \<open>iarg < narg\<close>: the next
  value of \<open>iarg\<close> and the state, or the error raised.
\<close>

definition switch ::
  "env \<Rightarrow> string list \<Rightarrow> nat \<Rightarrow> lammps \<Rightarrow> (exit \<times> lammps) + (nat \<times> lammps)" where
  "switch e arg iarg st =
     (let narg = length arg;
          a = arg ! iarg;
          invalid = (\<lambda>s. Inl (Fatal Universe_all ''Invalid command-line argument'', s))
      in
      if a = ''-partition'' \<or> a = ''-p'' then
        (let st1 = st\<lparr>universe := (universe st)\<lparr>existflag := 1\<rparr>\<rparr> in
         if iarg + 2 > narg then invalid st1
         else Inr (fst (add_worlds e arg (iarg + 1) (universe st1)),
                   st1\<lparr>universe := snd (add_worlds e arg (iarg + 1) (universe st1))\<rparr>))
      else if a = ''-in'' \<or> a = ''-i'' then
        (if iarg + 2 > narg then invalid st
         else Inr (iarg + 2, st\<lparr>inflag := iarg + 1\<rparr>))
      else if a = ''-screen'' \<or> a = ''-sc'' then
        (if iarg + 2 > narg then invalid st
         else Inr (iarg + 2, st\<lparr>screenflag := iarg + 1\<rparr>))
      else if a = ''-log'' \<or> a = ''-l'' then
        (if iarg + 2 > narg then invalid st
         else Inr (iarg + 2, st\<lparr>logflag := iarg + 1\<rparr>))
      else if a = ''-var'' \<or> a = ''-v'' then
        (if iarg + 3 > narg then invalid st
         else Inr (skip_values arg (iarg + 3), st))
      else if a = ''-echo'' \<or> a = ''-e'' then
        (if iarg + 2 > narg then invalid st
         else Inr (iarg + 2, st))
      else if a = ''-pscreen'' \<or> a = ''-ps'' then
        (if iarg + 2 > narg then invalid st
         else Inr (iarg + 2, st\<lparr>partscreenflag := iarg + 1\<rparr>))
      else if a = ''-plog'' \<or> a = ''-pl'' then
        (if iarg + 2 > narg then invalid st
         else Inr (iarg + 2, st\<lparr>partlogflag := iarg + 1\<rparr>))
      else if a = ''-cuda'' \<or> a = ''-c'' then
        (if iarg + 2 > narg then invalid st
         else if arg ! (iarg + 1) = ''on'' then Inr (iarg + 2, st\<lparr>cudaflag := 1\<rparr>)
         else if arg ! (iarg + 1) = ''off'' then Inr (iarg + 2, st\<lparr>cudaflag := 0\<rparr>)
         else invalid st)
      else if a = ''-suffix'' \<or> a = ''-sf'' then
        (if iarg + 2 > narg then invalid st
         else Inr (iarg + 2, st\<lparr>suffix := Some (arg ! (iarg + 1)), suffix_enable := 1\<rparr>))
      else if a = ''-reorder'' \<or> a = ''-r'' then
        (if iarg + 3 > narg then invalid st
         else if existflag (universe st) \<noteq> 0
         then Inl (Fatal Universe_all ''Cannot use -reorder after -partition'', st)
         else Inr (iarg + 3,
                   st\<lparr>universe := reorder e (arg ! (iarg + 1)) (arg ! (iarg + 2)) (universe st)\<rparr>))
      else if a = ''-nocite'' \<or> a = ''-nc'' then
        Inr (iarg + 1, st\<lparr>citeflag := 0\<rparr>)
      else if a = ''-help'' \<or> a = ''-h'' then
        (if iarg + 1 > narg then invalid st
         else Inr (iarg + 1, st\<lparr>helpflag := 1, citeflag := 0\<rparr>))
      else invalid st)"

lemma add_worlds_advances: "iarg \<le> fst (add_worlds e arg iarg u)"
proof (induction e arg iarg u rule: add_worlds.induct)
  case (1 e arg iarg u)
  show ?case
  proof (cases "iarg < length arg \<and> not_dash (arg ! iarg)")
    case True
    with "1.IH" have "iarg + 1 \<le> fst (add_worlds e arg iarg u)" by simp
    then show ?thesis by simp
  next
    case False
    then show ?thesis by simp
  qed
qed

lemma skip_values_advances: "iarg \<le> skip_values arg iarg"
proof (induction arg iarg rule: skip_values.induct)
  case (1 arg iarg)
  show ?case
  proof (cases "iarg < length arg \<and> not_dash (arg ! iarg)")
    case True
    with "1.IH" have "iarg + 1 \<le> skip_values arg iarg" by simp
    then show ?thesis by simp
  next
    case False
    then show ?thesis by simp
  qed
qed

declare add_worlds.simps [simp del] skip_values.simps [simp del]

lemma switch_advances:
  assumes "switch e arg iarg st = Inr (i, st')"
  shows "iarg < i"
proof -
  have a: "iarg < fst (add_worlds e arg (Suc iarg) u)" for u
    using add_worlds_advances [of "Suc iarg" e arg u] by simp
  have b: "iarg < skip_values arg (iarg + 3)"
    using skip_values_advances [of "iarg + 3" arg] by simp
  from assms show ?thesis
    unfolding switch_def Let_def
    by (auto split: if_splits simp: a b)
qed

function parse_switches :: "env \<Rightarrow> string list \<Rightarrow> nat \<Rightarrow> lammps \<Rightarrow> result" where
  "parse_switches e arg iarg st =
     (if iarg < length arg then
        (case switch e arg iarg st of
           Inl x \<Rightarrow> Inl x
         | Inr (i, st') \<Rightarrow> parse_switches e arg i st')
      else Inr st)"
  by pat_completeness auto
termination
proof (relation "measure (\<lambda>(e, arg, iarg, st). length arg - iarg)")
  show "wf (measure (\<lambda>(e, arg, iarg, st). length arg - iarg))" by simp
next
  fix e :: env and arg :: "string list" and iarg :: nat and st :: lammps
    and x2 :: "nat \<times> lammps" and x :: nat and y :: lammps
  assume "iarg < length arg" and "switch e arg iarg st = Inr x2" and "(x, y) = x2"
  then have "iarg < x" using switch_advances [of e arg iarg st x y] by simp
  with \<open>iarg < length arg\<close>
  show "((e, arg, x, y), e, arg, iarg, st) \<in> measure (\<lambda>(e, arg, iarg, st). length arg - iarg)"
    by simp
qed

declare parse_switches.simps [simp del]

subsection \<open>The partition checks (lines 182 to 204)\<close>

definition check_universe :: "env \<Rightarrow> lammps \<Rightarrow> result" where
  "check_universe e st0 =
     (let st = (if existflag (universe st0) = 0
                then st0\<lparr>universe := add_world e None (universe st0)\<rparr> else st0)
      in
      if \<not> consistent (universe st)
      then error Universe_all ''Processor partitions are inconsistent'' st
      else if existflag (universe st) \<noteq> 0 \<and> inflag st = 0
      then error Universe_all ''Must use -in switch with multiple partitions'' st
      else if existflag (universe st) = 0 \<and> partscreenflag st \<noteq> 0
      then error Universe_all ''Can only use -pscreen with multiple partitions'' st
      else if existflag (universe st) = 0 \<and> partlogflag st \<noteq> 0
      then error Universe_all ''Can only use -plog with multiple partitions'' st
      else Inr st)"

subsection \<open>The universe screen and logfile (lines 206 to 237)\<close>

definition fopen :: "env \<Rightarrow> string \<Rightarrow> stream option" where
  "fopen e name = (if fopen_ok e name then Some (File name) else None)"

definition set_uscreen :: "stream option \<Rightarrow> lammps \<Rightarrow> lammps" where
  "set_uscreen f st = st\<lparr>universe := (universe st)\<lparr>uscreen := f\<rparr>\<rparr>"

definition set_ulogfile :: "stream option \<Rightarrow> lammps \<Rightarrow> lammps" where
  "set_ulogfile f st = st\<lparr>universe := (universe st)\<lparr>ulogfile := f\<rparr>\<rparr>"

definition open_uscreen :: "env \<Rightarrow> string list \<Rightarrow> lammps \<Rightarrow> result" where
  "open_uscreen e arg st =
     (if screenflag st = 0 then Inr (set_uscreen (Some Stdout) st)
      else if arg ! screenflag st = ''none'' then Inr (set_uscreen None st)
      else
        (let name = arg ! screenflag st;
             st1 = emit (Fopen Uscreen name (fopen_ok e name)) (set_uscreen (fopen e name) st)
         in if uscreen (universe st1) = None
            then error Universe_one ''Cannot open universe screen file'' st1
            else Inr st1))"

definition open_ulogfile :: "env \<Rightarrow> string list \<Rightarrow> lammps \<Rightarrow> result" where
  "open_ulogfile e arg st =
     (if logflag st = 0 then
        (if helpflag st = 0 then
           (let st1 = emit (Fopen Ulogfile ''log.lammps'' (fopen_ok e ''log.lammps''))
                        (set_ulogfile (fopen e ''log.lammps'') st)
            in if ulogfile (universe st1) = None
               then Inr (universe_warn ''Cannot open log.lammps for writing'' st1)
               else Inr st1)
         else Inr st)
      else if arg ! logflag st = ''none'' then Inr (set_ulogfile None st)
      else
        (let name = arg ! logflag st;
             st1 = emit (Fopen Ulogfile name (fopen_ok e name)) (set_ulogfile (fopen e name) st)
         in if ulogfile (universe st1) = None
            then error Universe_one ''Cannot open universe log file'' st1
            else Inr st1))"

definition universe_rank0 :: "env \<Rightarrow> string list \<Rightarrow> lammps \<Rightarrow> result" where
  "universe_rank0 e arg st =
     (if me (universe st) = 0 then seq [open_uscreen e arg, open_ulogfile e arg] st
      else Inr st)"

definition universe_others :: "lammps \<Rightarrow> result" where
  "universe_others st =
     (if me (universe st) > 0 then
        Inr (set_ulogfile None
               (if screenflag st = 0 then set_uscreen (Some Stdout) st
                else set_uscreen None st))
      else Inr st)"

definition universe_streams :: "env \<Rightarrow> string list \<Rightarrow> lammps \<Rightarrow> result" where
  "universe_streams e arg = seq [universe_rank0 e arg, universe_others]"

subsection \<open>The world screen, logfile and infile (lines 239 to 357)\<close>

text \<open>\<^verbatim>\<open>%d\<close> of a value that is not negative.\<close>

function dec :: "nat \<Rightarrow> string" where
  "dec n = (if n < 10 then [''0123456789'' ! n]
            else dec (n div 10) @ [''0123456789'' ! (n mod 10)])"
  by pat_completeness auto
termination
  by (relation "measure (\<lambda>n. n)") auto

declare dec.simps [simp del]

definition fprintf :: "stream option \<Rightarrow> line list \<Rightarrow> lammps \<Rightarrow> lammps" where
  "fprintf f ls st =
     (case f of None \<Rightarrow> st
      | Some fp \<Rightarrow> st\<lparr>trace := trace st @ map (Fprintf fp) ls\<rparr>)"

text \<open>
  \<^verbatim>\<open>char str[n]; sprintf(str,...)\<close>: the bytes of the formatted string and
  its terminator are written to the buffer with no check of their number. When
  they fit, the statements that follow use the string; when they do not, the
  write runs past the end of the buffer and the run ends as \<open>Overrun\<close>. The
  buffer has 128 bytes for a name taken from the command line, and 32 bytes
  for the default names screen.N and log.lammps.N (the \<^verbatim>\<open>%d\<close> of an
  \<^verbatim>\<open>int\<close> has at most 11 bytes, so in the program these always fit; the
  world index of the model has no bound, and the test is kept for it).
\<close>

definition sprintf :: "nat \<Rightarrow> string \<Rightarrow> (string \<Rightarrow> lammps \<Rightarrow> result) \<Rightarrow> lammps \<Rightarrow> result" where
  "sprintf n str k st = (if length str + 1 \<le> n then k str st else Inl (Overrun, st))"

text \<open>No \<^verbatim>\<open>-partition\<close> switch: the world is the universe (lines 244 to 263).\<close>

definition one_world_infile :: "env \<Rightarrow> string list \<Rightarrow> lammps \<Rightarrow> result" where
  "one_world_infile e arg st =
     (if me (universe st) = 0 then
        (let st1 = (if inflag st = 0 then st\<lparr>infile := Some Stdin\<rparr>
                    else emit (Fopen Infile (arg ! inflag st) (fopen_ok e (arg ! inflag st)))
                           (st\<lparr>infile := fopen e (arg ! inflag st)\<rparr>))
         in if infile st1 = None
            then sprintf 128 (''Cannot open input script '' @ arg ! inflag st) (error One) st1
            else Inr st1)
      else Inr st)"

definition one_world_banner :: "lammps \<Rightarrow> result" where
  "one_world_banner st =
     (if me (universe st) = 0
      then Inr (fprintf (logfile st) [Version_line] (fprintf (screen st) [Version_line] st))
      else Inr st)"

definition one_world_inherit :: "lammps \<Rightarrow> result" where
  "one_world_inherit st =
     Inr (st\<lparr>screen := uscreen (universe st), logfile := ulogfile (universe st),
             world_me := me (universe st), infile := None\<rparr>)"

definition one_world :: "env \<Rightarrow> string list \<Rightarrow> lammps \<Rightarrow> result" where
  "one_world e arg = seq [one_world_inherit, one_world_infile e arg, one_world_banner]"

text \<open>
  \<^verbatim>\<open>MPI_Comm_split(universe->uworld,universe->iworld,0,&world)\<close> followed by
  \<^verbatim>\<open>MPI_Comm_rank(world,&me)\<close>: all keys are equal, so the processes of one
  colour keep the order of their pool ranks, and the new rank of a process is
  the number of lower pool ranks with its colour. The colour of another
  process is the world its own rank falls in.
\<close>

definition comm_split_rank :: "Universe \<Rightarrow> nat" where
  "comm_split_rank u =
     length (filter (\<lambda>r. world_of (procs_per_world u) (int r) = iworld u) [0..<me u])"

text \<open>\<^verbatim>\<open>"%s.%d"\<close> of a name and \<^verbatim>\<open>universe->iworld\<close>, before it is written to a buffer.\<close>

definition world_file :: "string \<Rightarrow> lammps \<Rightarrow> string" where
  "world_file base st = base @ ''.'' @ dec (iworld (universe st))"

definition open_screen :: "env \<Rightarrow> string \<Rightarrow> lammps \<Rightarrow> result" where
  "open_screen e name st =
     (let st1 = emit (Fopen Screen name (fopen_ok e name)) (st\<lparr>screen := fopen e name\<rparr>)
      in if screen st1 = None then error One ''Cannot open screen file'' st1 else Inr st1)"

definition open_logfile :: "env \<Rightarrow> string \<Rightarrow> lammps \<Rightarrow> result" where
  "open_logfile e name st =
     (let st1 = emit (Fopen Logfile name (fopen_ok e name)) (st\<lparr>logfile := fopen e name\<rparr>)
      in if logfile st1 = None then error One ''Cannot open logfile'' st1 else Inr st1)"

definition world_screen :: "env \<Rightarrow> string list \<Rightarrow> lammps \<Rightarrow> result" where
  "world_screen e arg st =
     (if world_me st = 0 then
        (if partscreenflag st = 0 then
           (if screenflag st = 0 then sprintf 32 (world_file ''screen'' st) (open_screen e) st
            else if arg ! screenflag st = ''none'' then Inr (st\<lparr>screen := None\<rparr>)
            else sprintf 128 (world_file (arg ! screenflag st) st) (open_screen e) st)
         else if arg ! partscreenflag st = ''none'' then Inr (st\<lparr>screen := None\<rparr>)
         else sprintf 128 (world_file (arg ! partscreenflag st) st) (open_screen e) st)
      else Inr (st\<lparr>screen := None\<rparr>))"

definition world_logfile :: "env \<Rightarrow> string list \<Rightarrow> lammps \<Rightarrow> result" where
  "world_logfile e arg st =
     (if world_me st = 0 then
        (if partlogflag st = 0 then
           (if logflag st = 0
            then sprintf 32 (world_file ''log.lammps'' st) (open_logfile e) st
            else if arg ! logflag st = ''none'' then Inr (st\<lparr>logfile := None\<rparr>)
            else sprintf 128 (world_file (arg ! logflag st) st) (open_logfile e) st)
         else if arg ! partlogflag st = ''none'' then Inr (st\<lparr>logfile := None\<rparr>)
         else sprintf 128 (world_file (arg ! partlogflag st) st) (open_logfile e) st)
      else Inr (st\<lparr>logfile := None\<rparr>))"

definition world_infile :: "env \<Rightarrow> string list \<Rightarrow> lammps \<Rightarrow> result" where
  "world_infile e arg st =
     (if world_me st = 0 then
        (let st1 = emit (Fopen Infile (arg ! inflag st) (fopen_ok e (arg ! inflag st)))
                     (st\<lparr>infile := fopen e (arg ! inflag st)\<rparr>)
         in if infile st1 = None
            then sprintf 128 (''Cannot open input script '' @ arg ! inflag st) (error One) st1
            else Inr st1)
      else Inr (st\<lparr>infile := None\<rparr>))"

definition worlds_banner :: "lammps \<Rightarrow> result" where
  "worlds_banner st =
     (let u = universe st;
          st1 = (if me u = 0
                 then fprintf (ulogfile u) [Version_line, Running_on_partitions (nworlds u)]
                        (fprintf (uscreen u) [Version_line, Running_on_partitions (nworlds u)] st)
                 else st)
      in if world_me st1 = 0
         then Inr (fprintf (logfile st1) [Version_line, Processor_partition (iworld u)]
                     (fprintf (screen st1) [Version_line, Processor_partition (iworld u)] st1))
         else Inr st1)"

definition comm_split :: "lammps \<Rightarrow> result" where
  "comm_split st =
     Inr (emit (Comm_split (iworld (universe st)))
            (st\<lparr>world_me := comm_split_rank (universe st)\<rparr>))"

definition many_worlds :: "env \<Rightarrow> string list \<Rightarrow> lammps \<Rightarrow> result" where
  "many_worlds e arg =
     seq [comm_split, world_screen e arg, world_logfile e arg, world_infile e arg,
          worlds_banner]"

definition world_streams :: "env \<Rightarrow> string list \<Rightarrow> lammps \<Rightarrow> result" where
  "world_streams e arg st =
     (if existflag (universe st) = 0 then one_world e arg st else many_worlds e arg st)"

text \<open>The error method called when the file of a stream cannot be opened.\<close>

definition open_error :: "target \<Rightarrow> error_call" where
  "open_error tgt =
     (case tgt of Uscreen \<Rightarrow> Universe_one | Ulogfile \<Rightarrow> Universe_one | Screen \<Rightarrow> One
      | Logfile \<Rightarrow> One | Infile \<Rightarrow> One)"

subsection \<open>The datatype settings (lines 359 to 389)\<close>

definition check_datatypes :: "env \<Rightarrow> lammps \<Rightarrow> result" where
  "check_datatypes e st =
     (if sizeof_smallint e \<noteq> sizeof_int e
      then error All ''Smallint setting in lmptype.h is invalid'' st
      else if sizeof_tagint e < sizeof_smallint e
      then error All ''Tagint setting in lmptype.h is invalid'' st
      else if sizeof_bigint e < sizeof_tagint e
      then error All ''Bigint setting in lmptype.h is invalid'' st
      else if mpi_tagint_size e \<noteq> sizeof_tagint e
      then error All ''MPI_LMP_TAGINT and tagint in lmptype.h are not compatible'' st
      else if mpi_bigint_size e \<noteq> sizeof_bigint e
      then error All ''MPI_LMP_BIGINT and bigint in lmptype.h are not compatible'' st
      else if LAMMPS_SMALLBIG e \<and>
              (sizeof_smallint e \<noteq> 4 \<or> sizeof_tagint e \<noteq> 4 \<or> sizeof_bigint e \<noteq> 8)
      then error All ''Small, tag, big integers are not sized correctly'' st
      else if LAMMPS_BIGBIG e \<and>
              (sizeof_smallint e \<noteq> 4 \<or> sizeof_tagint e \<noteq> 8 \<or> sizeof_bigint e \<noteq> 8)
      then error All ''Small, tag, big integers are not sized correctly'' st
      else if LAMMPS_SMALLSMALL e \<and>
              (sizeof_smallint e \<noteq> 4 \<or> sizeof_tagint e \<noteq> 4 \<or> sizeof_bigint e \<noteq> 4)
      then error All ''Small, tag, big integers are not sized correctly'' st
      else Inr st)"

text \<open>One of the tests of lines 361 to 389 fails.\<close>

definition datatype_mismatch :: "env \<Rightarrow> bool" where
  "datatype_mismatch e =
     (sizeof_smallint e \<noteq> sizeof_int e
      \<or> sizeof_tagint e < sizeof_smallint e
      \<or> sizeof_bigint e < sizeof_tagint e
      \<or> mpi_tagint_size e \<noteq> sizeof_tagint e
      \<or> mpi_bigint_size e \<noteq> sizeof_bigint e
      \<or> LAMMPS_SMALLBIG e \<and>
         (sizeof_smallint e \<noteq> 4 \<or> sizeof_tagint e \<noteq> 4 \<or> sizeof_bigint e \<noteq> 8)
      \<or> LAMMPS_BIGBIG e \<and>
         (sizeof_smallint e \<noteq> 4 \<or> sizeof_tagint e \<noteq> 8 \<or> sizeof_bigint e \<noteq> 8)
      \<or> LAMMPS_SMALLSMALL e \<and>
         (sizeof_smallint e \<noteq> 4 \<or> sizeof_tagint e \<noteq> 4 \<or> sizeof_bigint e \<noteq> 4))"

subsection \<open>The CUDA class (lines 391 to 410)\<close>

definition new_obj :: "member \<Rightarrow> cls \<Rightarrow> lammps \<Rightarrow> lammps" where
  "new_obj m c st = emit (New m c) (st\<lparr>ptrs := (ptrs st)(m := Some c)\<rparr>)"

definition delete_obj :: "member \<Rightarrow> lammps \<Rightarrow> lammps" where
  "delete_obj m st = emit (Delete m) st"

definition set_null :: "member \<Rightarrow> lammps \<Rightarrow> lammps" where
  "set_null m st = st\<lparr>ptrs := (ptrs st)(m := None)\<rparr>"

definition select_cuda :: "env \<Rightarrow> lammps \<Rightarrow> result" where
  "select_cuda e st =
     (if cudaflag st = 0 then Inr (set_null cuda_p st)
      else if cudaflag st = 1 then
        (let st1 = new_obj cuda_p Cuda st
         in if \<not> cuda_exists e
            then error All ''Cannot use -cuda on without USER-CUDA installed'' st1
            else Inr st1)
      else
        (let st1 = new_obj cuda_p Cuda st
         in if \<not> cuda_exists e then Inr (set_null cuda_p (delete_obj cuda_p st1))
            else Inr st1))"

definition cuda_message :: "lammps \<Rightarrow> result" where
  "cuda_message st =
     (if ptrs st cuda_p \<noteq> None \<and> world_me st = 0
      then Inr (message ''USER-CUDA mode is enabled'' st)
      else Inr st)"

subsection \<open>create, post_create, init and destroy\<close>

definition create :: "env \<Rightarrow> lammps \<Rightarrow> lammps" where
  "create e st =
     (let st1 = (if ptrs st cuda_p \<noteq> None then new_obj comm_p CommCuda st
                 else new_obj comm_p Comm st);
          st2 = (if ptrs st1 cuda_p \<noteq> None then new_obj neighbor_p NeighborCuda st1
                 else new_obj neighbor_p Neighbor st1);
          st3 = (if ptrs st2 cuda_p \<noteq> None then new_obj domain_p DomainCuda st2
                 else if LMP_USER_OMP e then new_obj domain_p DomainOMP st2
                 else new_obj domain_p Domain' st2);
          st4 = new_obj atom_p Atom st3;
          st5 = emit (Create_avec ''atomic'' (suffix st4)) st4;
          st6 = new_obj group_p Group st5;
          st7 = new_obj force_p Force st6;
          st8 = (if ptrs st7 cuda_p \<noteq> None then new_obj modify_p ModifyCuda st7
                 else new_obj modify_p Modify st7);
          st9 = new_obj output_p Output st8;
          st10 = new_obj update_p Update st9
      in new_obj timer_p Timer st10)"

definition post_create :: "lammps \<Rightarrow> lammps" where
  "post_create st =
     (if suffix st \<noteq> None \<and> suffix_enable st \<noteq> 0 then
        (let st1 = (if suffix st = Some ''gpu''
                    then emit (Input_one ''package gpu force/neigh 0 0 1'') st else st)
         in if suffix st1 = Some ''omp'' then emit (Input_one ''package omp *'') st1 else st1)
      else st)"

definition init :: "lammps \<Rightarrow> lammps" where
  "init st =
     (let st0 = (if ptrs st cuda_p \<noteq> None then emit Accelerator st else st);
          st1 = emit (Init update_p) st0;
          st2 = emit (Init force_p) st1;
          st3 = emit (Init domain_p) st2;
          st4 = emit (Init atom_p) st3;
          st5 = emit (Init modify_p) st4;
          st6 = emit (Init neighbor_p) st5;
          st7 = emit (Init comm_p) st6
      in emit (Init output_p) st7)"

definition destroy :: "lammps \<Rightarrow> lammps" where
  "destroy st =
     (let st1 = delete_obj update_p st;
          st2 = delete_obj neighbor_p st1;
          st3 = delete_obj comm_p st2;
          st4 = delete_obj force_p st3;
          st5 = delete_obj group_p st4;
          st6 = delete_obj output_p st5;
          st7 = delete_obj modify_p st6;
          st8 = delete_obj domain_p st7;
          st9 = delete_obj atom_p st8;
          st10 = delete_obj timer_p st9
      in set_null modify_p st10)"

subsection \<open>The constructor\<close>

text \<open>Lines 412 to 424: the citation class, the input class, the top-level classes.\<close>

definition allocate :: "env \<Rightarrow> lammps \<Rightarrow> result" where
  "allocate e st =
     (let st1 = (if citeflag st \<noteq> 0 then new_obj citeme_p CiteMe st else set_null citeme_p st);
          st2 = new_obj input_p Input st1
      in Inr (post_create (create e st2)))"

text \<open>Lines 426 to 431.\<close>

definition help_and_quit :: "lammps \<Rightarrow> result" where
  "help_and_quit st =
     (if helpflag st \<noteq> 0 then
        error_done (if me (universe st) = 0 then emit (Help_message (screen st)) st else st)
      else Inr st)"

text \<open>
  Lines 67 to 87: the three fundamental objects are allocated (\<^verbatim>\<open>Memory\<close>,
  \<^verbatim>\<open>Error\<close>, \<^verbatim>\<open>Universe\<close>, in this order), and the members and locals
  are set as the constructor first sets them. The other pointers and the rank
  it has not set yet are taken as null and 0; each is written before it is
  read.
\<close>

definition fundamental :: "event list" where
  "fundamental = [New memory_p Memory, New error_p Error, New universe_p Universe']"

definition start :: "env \<Rightarrow> lammps" where
  "start e =
     \<lparr>universe = Universe_new e, screen = None, logfile = None, infile = None,
      world_me = 0, suffix = None, suffix_enable = 0,
      ptrs = (\<lambda>m. None)(memory_p := Some Memory, error_p := Some Error,
                         universe_p := Some Universe'),
      trace = fundamental,
      inflag = 0, screenflag = 0, logflag = 0, partscreenflag = 0, partlogflag = 0,
      cudaflag = - 1, citeflag = 1, helpflag = 0\<rparr>"

definition LAMMPS :: "env \<Rightarrow> string list \<Rightarrow> result" where
  "LAMMPS e arg =
     seq [parse_switches e arg 1, check_universe e, universe_streams e arg,
          world_streams e arg, check_datatypes e, select_cuda e, cuda_message,
          allocate e, help_and_quit]
       (start e)"

text \<open>Lines 65 to 357 of the constructor: the switches, the checks and the streams.\<close>

definition startup_streams :: "env \<Rightarrow> string list \<Rightarrow> result" where
  "startup_streams e arg =
     seq [parse_switches e arg 1, check_universe e, universe_streams e arg,
          world_streams e arg]
       (start e)"

subsection \<open>Reading a trace\<close>

text \<open>The members constructed, in the order of their \<^verbatim>\<open>new\<close>.\<close>

definition constructed :: "event list \<Rightarrow> member list" where
  "constructed t = concat (map (\<lambda>ev. case ev of New m c \<Rightarrow> [m] | _ \<Rightarrow> []) t)"

subsection \<open>Example environments\<close>

text \<open>
  The process of rank \<open>r\<close> in a pool of \<open>n\<close>, on a build with the default
  integer sizes, where a partition directive is one decimal size and a
  reordering request changes nothing; \<open>ok\<close> tells which files can be opened
  and \<open>cu\<close> whether USER-CUDA is installed.
\<close>

definition example_env :: "nat \<Rightarrow> nat \<Rightarrow> (string \<Rightarrow> bool) \<Rightarrow> bool \<Rightarrow> env" where
  "example_env r n ok cu =
     \<lparr>comm_rank = r, comm_size = n, fopen_ok = ok, cuda_exists = cu,
      world_sizes = (\<lambda>s. [int (foldl (\<lambda>k c. 10 * k + (of_char c - 48)) 0 s)]),
      reorder_rank = (\<lambda>style a k. k),
      sizeof_int = 4, sizeof_smallint = 4, sizeof_tagint = 4, sizeof_bigint = 8,
      mpi_tagint_size = 4, mpi_bigint_size = 8,
      LAMMPS_SMALLBIG = True, LAMMPS_BIGBIG = False, LAMMPS_SMALLSMALL = False,
      LMP_USER_OMP = False\<rparr>"

subsection \<open>The command line as the spec has it\<close>

text \<open>
  Following the spec (sections 4.1 and 6), not the code: a command line is
  the name of the program followed by directives, each a flag, in its long or
  its short form, with its values (\<^verbatim>\<open>-var\<close> takes a name and one or more
  values, \<^verbatim>\<open>-reorder\<close> a style and a file). These definitions say what a
  sequence of directives declares; the properties compare what the
  constructor does on the words of the directives with them.
\<close>

datatype directive =
  D_partition "string list"
  | D_in string
  | D_screen string
  | D_log string
  | D_var string string "string list"
  | D_echo string
  | D_pscreen string
  | D_plog string
  | D_cuda string
  | D_suffix string
  | D_reorder string string
  | D_nocite
  | D_help

text \<open>The words of a directive; \<open>short\<close> chooses the short form of the flag.\<close>

fun words :: "bool \<Rightarrow> directive \<Rightarrow> string list" where
  "words short (D_partition sizes) = (if short then ''-p'' else ''-partition'') # sizes"
| "words short (D_in file) = [if short then ''-i'' else ''-in'', file]"
| "words short (D_screen file) = [if short then ''-sc'' else ''-screen'', file]"
| "words short (D_log file) = [if short then ''-l'' else ''-log'', file]"
| "words short (D_var name v vs) = (if short then ''-v'' else ''-var'') # name # v # vs"
| "words short (D_echo mode) = [if short then ''-e'' else ''-echo'', mode]"
| "words short (D_pscreen base) = [if short then ''-ps'' else ''-pscreen'', base]"
| "words short (D_plog base) = [if short then ''-pl'' else ''-plog'', base]"
| "words short (D_cuda mode) = [if short then ''-c'' else ''-cuda'', mode]"
| "words short (D_suffix name) = [if short then ''-sf'' else ''-suffix'', name]"
| "words short (D_reorder style a) = [if short then ''-r'' else ''-reorder'', style, a]"
| "words short D_nocite = [if short then ''-nc'' else ''-nocite'']"
| "words short D_help = [if short then ''-h'' else ''-help'']"

text \<open>The words of a sequence of directives, and the command line with them.\<close>

definition line_of :: "(bool \<times> directive) list \<Rightarrow> string list" where
  "line_of ds = concat (map (\<lambda>(short, d). words short d) ds)"

definition command_line :: "string \<Rightarrow> (bool \<times> directive) list \<Rightarrow> string list" where
  "command_line prog ds = prog # line_of ds"

text \<open>A size, and a further value of \<^verbatim>\<open>-var\<close>, is a word that does not begin with \<^verbatim>\<open>-\<close>.\<close>

fun well_formed :: "directive \<Rightarrow> bool" where
  "well_formed (D_partition sizes) = list_all not_dash sizes"
| "well_formed (D_var name v vs) = list_all not_dash vs"
| "well_formed d = True"

text \<open>
  The sizes of the worlds that a directive declares, and those that a sequence
  of directives declares: the sizes of its partition directives in their
  order, and the one world of the whole pool when it has none.
\<close>

fun declared :: "env \<Rightarrow> directive \<Rightarrow> int list" where
  "declared e (D_partition sizes) = concat (map (world_sizes e) sizes)"
| "declared e d = []"

fun is_partition :: "directive \<Rightarrow> bool" where
  "is_partition (D_partition sizes) = True"
| "is_partition d = False"

definition declared_worlds :: "env \<Rightarrow> (bool \<times> directive) list \<Rightarrow> int list" where
  "declared_worlds e ds =
     (if list_ex (\<lambda>(short, d). is_partition d) ds
      then concat (map (\<lambda>(short, d). declared e d) ds)
      else [int (comm_size e)])"

text \<open>The directive that names the input script.\<close>

fun is_in :: "directive \<Rightarrow> bool" where
  "is_in (D_in file) = True"
| "is_in d = False"

text \<open>The directives that the conditions of the spec name.\<close>

fun is_pscreen :: "directive \<Rightarrow> bool" where
  "is_pscreen (D_pscreen base) = True"
| "is_pscreen d = False"

fun is_plog :: "directive \<Rightarrow> bool" where
  "is_plog (D_plog base) = True"
| "is_plog d = False"

fun is_reorder :: "directive \<Rightarrow> bool" where
  "is_reorder (D_reorder style a) = True"
| "is_reorder d = False"

text \<open>
  A sequence of directives that the spec accepts (sections 4.1 and 6): a
  partition directive has sizes, the accelerator directive is on or off, no
  reordering directive comes after a partition directive, the sizes declared
  sum to the size of the pool, a partitioned run names its input script, and
  the per-world stream overrides are given only in a partitioned run.
\<close>

fun acceptable :: "directive \<Rightarrow> bool" where
  "acceptable (D_partition sizes) = (sizes \<noteq> [])"
| "acceptable (D_cuda mode) = (mode = ''on'' \<or> mode = ''off'')"
| "acceptable d = True"

fun reorder_first :: "(bool \<times> directive) list \<Rightarrow> bool" where
  "reorder_first [] = True"
| "reorder_first ((short, d) # ds) =
     ((is_partition d \<longrightarrow> \<not> list_ex (\<lambda>(short, d). is_reorder d) ds) \<and> reorder_first ds)"

definition accepted :: "env \<Rightarrow> (bool \<times> directive) list \<Rightarrow> bool" where
  "accepted e ds =
     (list_all (\<lambda>(short, d). well_formed d \<and> acceptable d) ds
      \<and> reorder_first ds
      \<and> sum_list (declared_worlds e ds) = int (comm_size e)
      \<and> (if list_ex (\<lambda>(short, d). is_partition d) ds
         then list_ex (\<lambda>(short, d). is_in d) ds
         else \<not> list_ex (\<lambda>(short, d). is_pscreen d \<or> is_plog d) ds))"

subsection \<open>Assertions on states\<close>

text \<open>
  \<open>triple P f Q E\<close>: from a state with \<open>P\<close>, the statements \<open>f\<close> either return
  in a state with \<open>Q\<close> or end the run with an exit and a state related by \<open>E\<close>.
\<close>

definition triple ::
  "(lammps \<Rightarrow> bool) \<Rightarrow> (lammps \<Rightarrow> result) \<Rightarrow> (lammps \<Rightarrow> bool) \<Rightarrow> (exit \<Rightarrow> lammps \<Rightarrow> bool)
     \<Rightarrow> bool" where
  "triple P f Q E = (\<forall>st. P st \<longrightarrow> (case f st of Inl (x, s) \<Rightarrow> E x s | Inr s \<Rightarrow> Q s))"

text \<open>Nothing has been opened, printed or allocated since line 69.\<close>

definition fresh :: "env \<Rightarrow> lammps \<Rightarrow> bool" where
  "fresh e st =
     (trace st = fundamental \<and> ptrs st = ptrs (start e) \<and> screen st = None
      \<and> logfile st = None
      \<and> infile st = None \<and> world_me st = 0 \<and> uscreen (universe st) = None
      \<and> ulogfile (universe st) = None \<and> nprocs (universe st) = comm_size e)"

text \<open>What the loop over the switches keeps true of the locals.\<close>

definition flags_ok :: "lammps \<Rightarrow> bool" where
  "flags_ok st =
     ((helpflag st \<noteq> 0 \<longrightarrow> citeflag st = 0)
      \<and> (cudaflag st = - 1 \<or> cudaflag st = 0 \<or> cudaflag st = 1))"

definition parsed :: "lammps \<Rightarrow> bool" where
  "parsed st =
     (flags_ok st \<and> (existflag (universe st) = 0 \<longrightarrow> procs_per_world (universe st) = []))"

text \<open>What holds once the checks of lines 182 to 204 have passed.\<close>

definition checked :: "env \<Rightarrow> lammps \<Rightarrow> bool" where
  "checked e st =
     (flags_ok st
      \<and> nprocs (universe st) = comm_size e
      \<and> sum_list (procs_per_world (universe st)) = int (comm_size e)
      \<and> (existflag (universe st) \<noteq> 0 \<longrightarrow> inflag st \<noteq> 0)
      \<and> (existflag (universe st) = 0 \<longrightarrow>
            partscreenflag st = 0 \<and> partlogflag st = 0
            \<and> procs_per_world (universe st) = [int (comm_size e)]))"

text \<open>The locals and the partition are those of another state.\<close>

definition same_config :: "lammps \<Rightarrow> lammps \<Rightarrow> bool" where
  "same_config st s =
     (inflag s = inflag st \<and> screenflag s = screenflag st \<and> logflag s = logflag st
      \<and> partscreenflag s = partscreenflag st \<and> partlogflag s = partlogflag st
      \<and> cudaflag s = cudaflag st \<and> citeflag s = citeflag st \<and> helpflag s = helpflag st
      \<and> suffix s = suffix st \<and> suffix_enable s = suffix_enable st
      \<and> me (universe s) = me (universe st) \<and> nprocs (universe s) = nprocs (universe st)
      \<and> existflag (universe s) = existflag (universe st)
      \<and> procs_per_world (universe s) = procs_per_world (universe st)
      \<and> iworld (universe s) = iworld (universe st))"

text \<open>A statement that leaves the locals and the partition alone.\<close>

definition frame :: "(lammps \<Rightarrow> result) \<Rightarrow> bool" where
  "frame f = (\<forall>st. same_config st (final (f st)))"

text \<open>
  The events of lines 67 to 357: the allocation of a fundamental object, and
  what the statements that set the streams up do.
\<close>

definition stream_event :: "event \<Rightarrow> bool" where
  "stream_event ev =
     (case ev of Fopen t n ok \<Rightarrow> True | Fprintf f l \<Rightarrow> True | Universe_warn m \<Rightarrow> True
      | Comm_split c \<Rightarrow> True | New m c \<Rightarrow> m = memory_p \<or> m = error_p \<or> m = universe_p
      | _ \<Rightarrow> False)"

text \<open>No object has been allocated since line 69.\<close>

definition quiet :: "lammps \<Rightarrow> bool" where
  "quiet st =
     (ptrs st = (\<lambda>m. None)(memory_p := Some Memory, error_p := Some Error,
                            universe_p := Some Universe')
      \<and> list_all stream_event (trace st)
      \<and> constructed (trace st) = [memory_p, error_p, universe_p])"

text \<open>
  How the constructor can end before line 359: in a method of \<^verbatim>\<open>Error\<close>
  other than \<^verbatim>\<open>all\<close>, or past the end of a buffer.
\<close>

definition stream_exit :: "exit \<Rightarrow> bool" where
  "stream_exit x = (x = Overrun \<or> (\<exists>c m. x = Fatal c m \<and> c \<noteq> All))"

text \<open>The events of \<^verbatim>\<open>create\<close>, of \<^verbatim>\<open>post_create\<close> and of lines 391 to 431.\<close>

definition create_events :: "env \<Rightarrow> bool \<Rightarrow> string option \<Rightarrow> event list" where
  "create_events e accel sf =
     [New comm_p (if accel then CommCuda else Comm),
      New neighbor_p (if accel then NeighborCuda else Neighbor),
      New domain_p (if accel then DomainCuda
                    else if LMP_USER_OMP e then DomainOMP else Domain'),
      New atom_p Atom, Create_avec ''atomic'' sf, New group_p Group, New force_p Force,
      New modify_p (if accel then ModifyCuda else Modify),
      New output_p Output, New update_p Update, New timer_p Timer]"

definition post_create_events :: "lammps \<Rightarrow> event list" where
  "post_create_events st =
     (if suffix st \<noteq> None \<and> suffix_enable st \<noteq> 0 then
        (if suffix st = Some ''gpu'' then [Input_one ''package gpu force/neigh 0 0 1''] else [])
        @ (if suffix st = Some ''omp'' then [Input_one ''package omp *''] else [])
      else [])"

definition cuda_active :: "env \<Rightarrow> lammps \<Rightarrow> bool" where
  "cuda_active e st = (cudaflag st \<noteq> 0 \<and> cuda_exists e)"

definition finish_events :: "env \<Rightarrow> lammps \<Rightarrow> event list" where
  "finish_events e st =
     (if cudaflag st = 0 then []
      else if cuda_exists e then [New cuda_p Cuda] else [New cuda_p Cuda, Delete cuda_p])
     @ (if cuda_active e st \<and> world_me st = 0 then [Message ''USER-CUDA mode is enabled'']
        else [])
     @ (if citeflag st \<noteq> 0 then [New citeme_p CiteMe] else [])
     @ [New input_p Input]
     @ create_events e (cuda_active e st) (suffix st)
     @ post_create_events st
     @ (if helpflag st \<noteq> 0 \<and> me (universe st) = 0 then [Help_message (screen st)] else [])"

text \<open>The rank in the world is the one the constructor computes.\<close>

definition world_rank_set :: "lammps \<Rightarrow> bool" where
  "world_rank_set st =
     (world_me st = (if existflag (universe st) = 0 then me (universe st)
                     else comm_split_rank (universe st)))"



text \<open>Who has opened the files of the universe and of the worlds, and what the others hold.\<close>

definition pool_opens :: "lammps \<Rightarrow> bool" where
  "pool_opens st =
     (\<forall>n ok. Fopen Uscreen n ok \<in> set (trace st) \<or> Fopen Ulogfile n ok \<in> set (trace st) \<longrightarrow>
        me (universe st) = 0)"

definition world_opens :: "lammps \<Rightarrow> bool" where
  "world_opens st =
     (\<forall>n ok. Fopen Screen n ok \<in> set (trace st) \<or> Fopen Logfile n ok \<in> set (trace st) \<longrightarrow>
        world_me st = 0 \<and> existflag (universe st) \<noteq> 0)"

definition no_world_opens :: "lammps \<Rightarrow> bool" where
  "no_world_opens st =
     (\<forall>n ok. Fopen Screen n ok \<notin> set (trace st) \<and> Fopen Logfile n ok \<notin> set (trace st))"

definition others_universe :: "lammps \<Rightarrow> bool" where
  "others_universe st =
     (me (universe st) \<noteq> 0 \<longrightarrow>
        ulogfile (universe st) = None
        \<and> uscreen (universe st) = (if screenflag st = 0 then Some Stdout else None))"

definition others_world :: "lammps \<Rightarrow> bool" where
  "others_world st =
     ((existflag (universe st) \<noteq> 0 \<and> world_me st \<noteq> 0 \<longrightarrow>
         screen st = None \<and> logfile st = None)
      \<and> (existflag (universe st) = 0 \<longrightarrow>
           screen st = uscreen (universe st) \<and> logfile st = ulogfile (universe st)))"

text \<open>A failed \<^verbatim>\<open>fopen\<close> in the trace is that of the default log.lammps.\<close>

definition default_failure :: "env \<Rightarrow> lammps \<Rightarrow> target \<Rightarrow> string \<Rightarrow> bool" where
  "default_failure e st tgt n =
     (tgt = Ulogfile \<and> n = ''log.lammps'' \<and> logflag st = 0 \<and> \<not> fopen_ok e n
      \<and> Universe_warn ''Cannot open log.lammps for writing'' \<in> set (trace st)
      \<and> ulogfile (universe st) = None
      \<and> last (trace st) \<noteq> Fopen tgt n False)"

definition only_default :: "env \<Rightarrow> lammps \<Rightarrow> bool" where
  "only_default e st =
     (\<forall>tgt n. Fopen tgt n False \<in> set (trace st) \<longrightarrow> default_failure e st tgt n)"

text \<open>
  How the constructor ends after a failed \<^verbatim>\<open>fopen\<close> that is not the one of
  log.lammps: in the error method of the stream, unless the file is the input
  script and the message with its name does not fit the buffer.
\<close>

definition open_exit :: "target \<Rightarrow> string \<Rightarrow> exit \<Rightarrow> bool" where
  "open_exit tgt n x =
     (if tgt = Infile \<and> 128 < length (''Cannot open input script '' @ n) + 1
      then x = Overrun
      else \<exists>m. x = Fatal (open_error tgt) m)"

definition failed_open :: "env \<Rightarrow> exit \<Rightarrow> lammps \<Rightarrow> bool" where
  "failed_open e x st =
     ((\<forall>tgt n. Fopen tgt n False \<in> set (trace st) \<longrightarrow>
         default_failure e st tgt n
         \<or> (tgt = Ulogfile \<longrightarrow> logflag st \<noteq> 0) \<and> open_exit tgt n x
           \<and> last (trace st) = Fopen tgt n False)
      \<and> (x = Fatal Universe_one ''Cannot open universe log file'' \<longrightarrow> logflag st \<noteq> 0))"

section \<open>Properties\<close>

subsection \<open>The orders of create, init and destroy\<close>

lemma constructed_append: "constructed (t @ t') = constructed t @ constructed t'"
  by (simp add: constructed_def)

lemma constructed_simps:
  "constructed [] = []"
  "constructed (ev # t) = (case ev of New m c \<Rightarrow> [m] | _ \<Rightarrow> []) @ constructed t"
  by (simp_all add: constructed_def)

lemma constructed_create:
  "constructed (trace (create e st)) =
     constructed (trace st) @
       [comm_p, neighbor_p, domain_p, atom_p, group_p, force_p, modify_p, output_p,
        update_p, timer_p]"
  by (simp add: create_def new_obj_def emit_def Let_def constructed_append)
     (simp add: constructed_def)

text \<open>
  C3. \<^verbatim>\<open>destroy\<close> deletes, in one pass and each once, update, neighbor, comm,
  force, group, output, modify, domain, atom and timer, in this order (the
  time-integration driver, the neighbor-search engine, the communication
  layer, the force-field registry, the group registry, the output-writer
  registry, the modifier registry, the spatial-domain manager, the
  particle-data store, the timing instrumentation), and leaves the modify
  pointer null. \<^verbatim>\<open>create\<close> constructs comm, neighbor, domain, atom, group,
  force, modify, output, update and timer, and the order of destruction is
  not the reverse of that.
\<close>

theorem destroy_order:
  "(let deleted = [update_p, neighbor_p, comm_p, force_p, group_p, output_p, modify_p,
                   domain_p, atom_p, timer_p];
        created = [comm_p, neighbor_p, domain_p, atom_p, group_p, force_p, modify_p,
                   output_p, update_p, timer_p]
    in trace (destroy st) = trace st @ map Delete deleted
       \<and> ptrs (destroy st) modify_p = None
       \<and> constructed (trace (create e st)) = constructed (trace st) @ created
       \<and> distinct deleted
       \<and> set deleted = set created
       \<and> deleted \<noteq> rev created)"
proof -
  have "trace (destroy st) =
          trace st @ map Delete [update_p, neighbor_p, comm_p, force_p, group_p, output_p,
                                 modify_p, domain_p, atom_p, timer_p]"
    by (simp add: destroy_def delete_obj_def emit_def set_null_def Let_def)
  moreover have "ptrs (destroy st) modify_p = None"
    by (simp add: destroy_def delete_obj_def emit_def set_null_def Let_def)
  ultimately show ?thesis
    by (simp add: Let_def constructed_create) auto
qed

text \<open>
  C4. \<^verbatim>\<open>init\<close> initialises update, force, domain, atom, modify, neighbor, comm
  and output, in this order (the time-integration driver, the force-field
  registry, the spatial-domain manager, the particle-data store, the modifier
  registry, the neighbor-search engine, the communication layer, the
  output-writer registry), after the one call of the accelerator when there
  is a CUDA object. The order is not the order in which \<^verbatim>\<open>create\<close>
  constructs these eight.
\<close>

theorem init_order:
  "(let initialised = [update_p, force_p, domain_p, atom_p, modify_p, neighbor_p, comm_p,
                       output_p]
    in trace (init st) =
         trace st @ (if ptrs st cuda_p \<noteq> None then [Accelerator] else []) @
           map Init initialised
       \<and> initialised \<noteq>
           filter (\<lambda>m. m \<in> set initialised) (constructed (trace (create e (st\<lparr>trace := []\<rparr>))))
       \<and> initialised \<noteq> constructed (trace (create e (st\<lparr>trace := []\<rparr>))))"
proof -
  have c: "constructed (trace (create e (st\<lparr>trace := []\<rparr>))) =
             [comm_p, neighbor_p, domain_p, atom_p, group_p, force_p, modify_p, output_p,
              update_p, timer_p]"
    by (simp add: constructed_create) (simp add: constructed_def)
  have "trace (init st) =
          trace st @ (if ptrs st cuda_p \<noteq> None then [Accelerator] else []) @
            map Init [update_p, force_p, domain_p, atom_p, modify_p, neighbor_p, comm_p,
                      output_p]"
    by (simp add: init_def emit_def Let_def)
  then show ?thesis
    by (simp add: Let_def c)
qed

subsection \<open>Rules for sequences of statements\<close>

lemma tripleI:
  "(\<And>st. P st \<Longrightarrow> (case f st of Inl (x, s) \<Rightarrow> E x s | Inr s \<Rightarrow> Q s)) \<Longrightarrow> triple P f Q E"
  by (simp add: triple_def)

lemma tripleD:
  "triple P f Q E \<Longrightarrow> P st \<Longrightarrow> (case f st of Inl (x, s) \<Rightarrow> E x s | Inr s \<Rightarrow> Q s)"
  by (simp add: triple_def)

lemma triple_seq_Nil: "triple P (seq []) P E"
  by (simp add: triple_def)

lemma triple_seq_Cons:
  assumes "triple P f Q E" and "triple Q (seq fs) R E"
  shows "triple P (seq (f # fs)) R E"
proof (rule tripleI)
  fix st assume "P st"
  with assms(1) have a: "case f st of Inl (x, s) \<Rightarrow> E x s | Inr s \<Rightarrow> Q s"
    by (rule tripleD)
  show "case seq (f # fs) st of Inl (x, s) \<Rightarrow> E x s | Inr s \<Rightarrow> R s"
  proof (cases "f st")
    case (Inl b)
    with a show ?thesis by simp
  next
    case (Inr s)
    with a have "Q s" by simp
    with assms(2) have "case seq fs s of Inl (x, s') \<Rightarrow> E x s' | Inr s' \<Rightarrow> R s'"
      by (rule tripleD)
    with Inr show ?thesis by simp
  qed
qed

lemma triple_weaken:
  assumes "triple P' f Q' E'"
    and "\<And>s. P s \<Longrightarrow> P' s" and "\<And>s. Q' s \<Longrightarrow> Q s" and "\<And>x s. E' x s \<Longrightarrow> E x s"
  shows "triple P f Q E"
proof (rule tripleI)
  fix st assume "P st"
  then have "P' st" by (rule assms(2))
  with assms(1) have "case f st of Inl (x, s) \<Rightarrow> E' x s | Inr s \<Rightarrow> Q' s"
    by (rule tripleD)
  then show "case f st of Inl (x, s) \<Rightarrow> E x s | Inr s \<Rightarrow> Q s"
    by (auto split: sum.splits intro: assms(3) assms(4))
qed

lemma triple_conj:
  assumes "triple P f Q E" and "triple P' f Q' E'"
  shows "triple (\<lambda>s. P s \<and> P' s) f (\<lambda>s. Q s \<and> Q' s) (\<lambda>x s. E x s \<and> E' x s)"
  using assms by (auto simp: triple_def split: sum.splits)

lemma triple_if:
  assumes "triple (\<lambda>s. P s \<and> b s) f Q E" and "triple (\<lambda>s. P s \<and> \<not> b s) g Q E"
  shows "triple P (\<lambda>s. if b s then f s else g s) Q E"
  using assms by (auto simp: triple_def)

lemma triple_inv_seq:
  assumes "\<And>f. f \<in> set fs \<Longrightarrow> triple I f I E"
  shows "triple I (seq fs) I E"
  using assms
proof (induction fs)
  case Nil
  show ?case by (rule triple_seq_Nil)
next
  case (Cons f fs)
  show ?case
  proof (rule triple_seq_Cons)
    show "triple I f I E" by (rule Cons.prems) simp
    show "triple I (seq fs) I E" by (rule Cons.IH) (simp add: Cons.prems)
  qed
qed

lemma triple_result:
  assumes "triple P f Q E" and "P st"
  shows "case outcome (f st) of None \<Rightarrow> Q (final (f st)) | Some x \<Rightarrow> E x (final (f st))"
  using tripleD [OF assms] by (auto simp: outcome_def final_def split: sum.splits)

subsection \<open>The loop over the switches and the partition checks\<close>

lemma add_worlds_step:
  "iarg < length arg \<Longrightarrow> not_dash (arg ! iarg) \<Longrightarrow>
   add_worlds e arg iarg u = add_worlds e arg (Suc iarg) (add_world e (Some (arg ! iarg)) u)"
  by (subst add_worlds.simps) simp

lemma add_worlds_stop:
  "\<not> (iarg < length arg \<and> not_dash (arg ! iarg)) \<Longrightarrow> add_worlds e arg iarg u = (iarg, u)"
  by (subst add_worlds.simps) auto

lemma add_worlds_keeps:
  "uscreen (snd (add_worlds e arg i u)) = uscreen u
   \<and> ulogfile (snd (add_worlds e arg i u)) = ulogfile u
   \<and> nprocs (snd (add_worlds e arg i u)) = nprocs u
   \<and> me (snd (add_worlds e arg i u)) = me u
   \<and> existflag (snd (add_worlds e arg i u)) = existflag u"
proof (induction e arg i u rule: add_worlds.induct)
  case (1 e arg iarg u)
  show ?case
  proof (cases "iarg < length arg \<and> not_dash (arg ! iarg)")
    case True
    with "1.IH" show ?thesis
      by (simp add: add_worlds_step add_world_def Let_def)
  next
    case False
    then show ?thesis
      by (simp only: add_worlds_stop snd_conv simp_thms)
  qed
qed

lemma switch_keeps:
  assumes "fresh e st" and "parsed st"
  shows "case switch e arg i st of
           Inl (x, s) \<Rightarrow> fresh e s \<and> parsed s \<and> (\<exists>m. x = Fatal Universe_all m)
         | Inr (j, s) \<Rightarrow> fresh e s \<and> parsed s"
  using assms
  unfolding switch_def Let_def fresh_def parsed_def flags_ok_def
  by (simp add: add_worlds_keeps reorder_def)

lemma parse_switches_keeps:
  assumes "fresh e st" and "parsed st"
  shows "case parse_switches e arg i st of
           Inl (x, s) \<Rightarrow> fresh e s \<and> parsed s \<and> (\<exists>m. x = Fatal Universe_all m)
         | Inr s \<Rightarrow> fresh e s \<and> parsed s"
  using assms
proof (induction e arg i st rule: parse_switches.induct)
  case (1 e arg iarg st)
  show ?case
  proof (cases "iarg < length arg")
    case False
    with "1.prems" show ?thesis by (simp add: parse_switches.simps)
  next
    case True
    note sw = switch_keeps [OF "1.prems", of arg iarg]
    show ?thesis
    proof (cases "switch e arg iarg st")
      case (Inl b)
      with sw True show ?thesis by (simp add: parse_switches.simps)
    next
      case (Inr b)
      obtain j s where b: "b = (j, s)" by (cases b)
      with sw Inr have "fresh e s" and "parsed s" by simp_all
      with "1.IH" [OF True Inr b [symmetric]]
      have "case parse_switches e arg j s of
              Inl (x, s) \<Rightarrow> fresh e s \<and> parsed s \<and> (\<exists>m. x = Fatal Universe_all m)
            | Inr s \<Rightarrow> fresh e s \<and> parsed s" .
      with True Inr b show ?thesis by (subst parse_switches.simps) simp
    qed
  qed
qed

lemma start_fresh: "fresh e (start e)" "parsed (start e)"
  by (simp_all add: fresh_def parsed_def flags_ok_def start_def Universe_new_def)

lemma parse_switches_triple:
  "triple (\<lambda>s. fresh e s \<and> parsed s) (parse_switches e arg i) (\<lambda>s. fresh e s \<and> parsed s)
     (\<lambda>x s. fresh e s \<and> flags_ok s \<and> (\<exists>m. x = Fatal Universe_all m))"
proof (rule tripleI)
  fix st assume "fresh e st \<and> parsed st"
  then have "case parse_switches e arg i st of
               Inl (x, s) \<Rightarrow> fresh e s \<and> parsed s \<and> (\<exists>m. x = Fatal Universe_all m)
             | Inr s \<Rightarrow> fresh e s \<and> parsed s"
    by (simp add: parse_switches_keeps)
  then show "case parse_switches e arg i st of
               Inl (x, s) \<Rightarrow> fresh e s \<and> flags_ok s \<and> (\<exists>m. x = Fatal Universe_all m)
             | Inr s \<Rightarrow> fresh e s \<and> parsed s"
    by (auto simp: parsed_def split: sum.splits)
qed

lemma check_universe_triple:
  "triple (\<lambda>s. fresh e s \<and> parsed s) (check_universe e) (\<lambda>s. fresh e s \<and> checked e s)
     (\<lambda>x s. fresh e s \<and> flags_ok s \<and> (\<exists>m. x = Fatal Universe_all m))"
  unfolding triple_def check_universe_def Let_def fresh_def parsed_def checked_def flags_ok_def
    error_def consistent_def add_world_def
  by auto

subsection \<open>The statements after the partition checks\<close>

lemma triple_skip: "triple I Inr I E"
  by (simp add: triple_def)

lemma triple_inv_if:
  "triple I f I E \<Longrightarrow> triple I g I E \<Longrightarrow> triple I (\<lambda>s. if b s then f s else g s) I E"
  by (auto simp: triple_def)

lemma universe_rank0_if:
  "universe_rank0 e arg =
     (\<lambda>s. if me (universe s) = 0 then seq [open_uscreen e arg, open_ulogfile e arg] s
          else Inr s)"
  by (rule ext) (simp add: universe_rank0_def)

lemma world_streams_if:
  "world_streams e arg =
     (\<lambda>s. if existflag (universe s) = 0 then one_world e arg s else many_worlds e arg s)"
  by (rule ext) (simp add: world_streams_def)

lemma universe_streams_inv:
  assumes "triple I (open_uscreen e arg) I E" and "triple I (open_ulogfile e arg) I E"
    and "triple I universe_others I E"
  shows "triple I (universe_streams e arg) I E"
proof -
  have "triple I (seq [open_uscreen e arg, open_ulogfile e arg]) I E"
    by (rule triple_inv_seq) (auto intro: assms)
  then have "triple I (universe_rank0 e arg) I E"
    unfolding universe_rank0_if by (rule triple_inv_if) (rule triple_skip)
  then show ?thesis
    unfolding universe_streams_def by (intro triple_inv_seq) (auto intro: assms)
qed

lemma world_streams_inv:
  assumes "triple I one_world_inherit I E" and "triple I (one_world_infile e arg) I E"
    and "triple I one_world_banner I E" and "triple I comm_split I E"
    and "triple I (world_screen e arg) I E" and "triple I (world_logfile e arg) I E"
    and "triple I (world_infile e arg) I E" and "triple I worlds_banner I E"
  shows "triple I (world_streams e arg) I E"
proof -
  have "triple I (one_world e arg) I E"
    unfolding one_world_def by (intro triple_inv_seq) (auto intro: assms)
  moreover have "triple I (many_worlds e arg) I E"
    unfolding many_worlds_def by (intro triple_inv_seq) (auto intro: assms)
  ultimately show ?thesis
    unfolding world_streams_if by (rule triple_inv_if)
qed

subsection \<open>create and post_create\<close>

lemma ptrs_new_obj: "ptrs (new_obj m c st) = (ptrs st)(m := Some c)"
  by (simp add: new_obj_def emit_def)

lemma create_eq:
  "create e st =
     new_obj timer_p Timer
      (new_obj update_p Update
        (new_obj output_p Output
          (new_obj modify_p (if ptrs st cuda_p \<noteq> None then ModifyCuda else Modify)
            (new_obj force_p Force
              (new_obj group_p Group
                (emit (Create_avec ''atomic'' (suffix st))
                  (new_obj atom_p Atom
                    (new_obj domain_p
                       (if ptrs st cuda_p \<noteq> None then DomainCuda
                        else if LMP_USER_OMP e then DomainOMP else Domain')
                      (new_obj neighbor_p
                         (if ptrs st cuda_p \<noteq> None then NeighborCuda else Neighbor)
                        (new_obj comm_p (if ptrs st cuda_p \<noteq> None then CommCuda else Comm)
                           st))))))))))"
proof (cases "ptrs st cuda_p")
  case None
  then show ?thesis
    unfolding create_def Let_def by (simp add: ptrs_new_obj) (simp add: new_obj_def emit_def)
next
  case (Some a)
  then show ?thesis
    unfolding create_def Let_def by (simp add: ptrs_new_obj) (simp add: new_obj_def emit_def)
qed

lemma create_fields:
  "trace (create e st) =
     trace st @
       [New comm_p (if ptrs st cuda_p \<noteq> None then CommCuda else Comm),
        New neighbor_p (if ptrs st cuda_p \<noteq> None then NeighborCuda else Neighbor),
        New domain_p (if ptrs st cuda_p \<noteq> None then DomainCuda
                      else if LMP_USER_OMP e then DomainOMP else Domain'),
        New atom_p Atom, Create_avec ''atomic'' (suffix st), New group_p Group,
        New force_p Force,
        New modify_p (if ptrs st cuda_p \<noteq> None then ModifyCuda else Modify),
        New output_p Output, New update_p Update, New timer_p Timer]"
  "ptrs (create e st) cuda_p = ptrs st cuda_p"
  "ptrs (create e st) citeme_p = ptrs st citeme_p"
  "same_config st (create e st)"
  "universe (create e st) = universe st"
  "screen (create e st) = screen st"
  "logfile (create e st) = logfile st"
  "infile (create e st) = infile st"
  "world_me (create e st) = world_me st"
  by (simp_all add: create_eq new_obj_def emit_def same_config_def)

lemma post_create_fields:
  "\<exists>t. trace (post_create st) = trace st @ t \<and> set t \<subseteq> range Input_one"
  "ptrs (post_create st) = ptrs st"
  "same_config st (post_create st)"
  "universe (post_create st) = universe st"
  "screen (post_create st) = screen st"
  "logfile (post_create st) = logfile st"
  "infile (post_create st) = infile st"
  "world_me (post_create st) = world_me st"
  by (auto simp add: post_create_def emit_def same_config_def Let_def)

subsection \<open>The locals and the partition are not written after the checks\<close>

lemma frame_universe:
  "frame (open_uscreen e arg)" "frame (open_ulogfile e arg)" "frame universe_others"
  by (simp_all add: frame_def same_config_def final_def open_uscreen_def open_ulogfile_def
        universe_others_def error_def emit_def universe_warn_def set_uscreen_def
        set_ulogfile_def Let_def)

lemma frame_one_world:
  "frame one_world_inherit" "frame (one_world_infile e arg)" "frame one_world_banner"
  by (simp_all add: frame_def same_config_def final_def one_world_inherit_def
        one_world_infile_def sprintf_def one_world_banner_def error_def emit_def fprintf_def Let_def
        split: option.splits)

lemma frame_many_worlds:
  "frame comm_split" "frame (world_screen e arg)" "frame (world_logfile e arg)"
  "frame (world_infile e arg)" "frame worlds_banner"
  by (simp_all add: frame_def same_config_def final_def comm_split_def world_screen_def sprintf_def
        world_logfile_def sprintf_def world_infile_def sprintf_def worlds_banner_def open_screen_def open_logfile_def
        error_def emit_def fprintf_def Let_def split: option.splits)

lemma same_config_trans: "same_config a b \<Longrightarrow> same_config b c \<Longrightarrow> same_config a c"
  by (simp add: same_config_def)

lemma frame_triple:
  assumes "frame f"
  shows "triple (same_config st0) f (same_config st0) (\<lambda>x. same_config st0)"
proof (rule tripleI)
  fix st assume a: "same_config st0 st"
  from assms have "same_config st (final (f st))" by (simp add: frame_def)
  with a have "same_config st0 (final (f st))" by (rule same_config_trans)
  then show "case f st of Inl (x, s) \<Rightarrow> same_config st0 s | Inr s \<Rightarrow> same_config st0 s"
    by (auto simp: final_def split: sum.splits)
qed

lemma triple_config:
  assumes "frame f" and "\<And>st s. same_config st s \<Longrightarrow> I st \<Longrightarrow> I s"
  shows "triple I f I (\<lambda>x. I)"
proof (rule tripleI)
  fix st assume a: "I st"
  from assms(1) have "same_config st (final (f st))" by (simp add: frame_def)
  then have "I (final (f st))" using a by (rule assms(2))
  then show "case f st of Inl (x, s) \<Rightarrow> I s | Inr s \<Rightarrow> I s"
    by (auto simp: final_def split: sum.splits)
qed

lemma frame_check_datatypes: "frame (check_datatypes e)"
  by (simp add: frame_def same_config_def final_def check_datatypes_def error_def)

lemma frame_select_cuda: "frame (select_cuda e)"
  by (simp add: frame_def same_config_def final_def select_cuda_def new_obj_def delete_obj_def
        set_null_def error_def emit_def Let_def)

lemma frame_cuda_message: "frame cuda_message"
  by (simp add: frame_def same_config_def final_def cuda_message_def message_def emit_def)

lemma frame_help_and_quit: "frame help_and_quit"
  by (simp add: frame_def same_config_def final_def help_and_quit_def error_done_def emit_def)

lemma frame_allocate: "frame (allocate e)"
  unfolding frame_def
proof
  fix st
  let ?st2 = "new_obj input_p Input
                (if citeflag st \<noteq> 0 then new_obj citeme_p CiteMe st else set_null citeme_p st)"
  have "same_config st ?st2"
    by (simp add: same_config_def new_obj_def set_null_def emit_def)
  moreover have "same_config ?st2 (create e ?st2)"
    by (rule create_fields)
  moreover have "same_config (create e ?st2) (post_create (create e ?st2))"
    by (rule post_create_fields)
  ultimately have "same_config st (post_create (create e ?st2))"
    by (blast intro: same_config_trans)
  then show "same_config st (final (allocate e st))"
    by (simp add: allocate_def final_def Let_def)
qed

lemmas frame_tail =
  frame_check_datatypes frame_select_cuda frame_cuda_message frame_allocate
  frame_help_and_quit

text \<open>An assertion kept by each statement is kept by all of them in sequence.\<close>

lemma rest_inv:
  assumes "triple I (open_uscreen e arg) I E" and "triple I (open_ulogfile e arg) I E"
    and "triple I universe_others I E"
    and "triple I one_world_inherit I E" and "triple I (one_world_infile e arg) I E"
    and "triple I one_world_banner I E" and "triple I comm_split I E"
    and "triple I (world_screen e arg) I E" and "triple I (world_logfile e arg) I E"
    and "triple I (world_infile e arg) I E" and "triple I worlds_banner I E"
    and "triple I (check_datatypes e) I E" and "triple I (select_cuda e) I E"
    and "triple I cuda_message I E" and "triple I (allocate e) I E"
    and "triple I help_and_quit I E"
  shows "triple I (seq [universe_streams e arg, world_streams e arg, check_datatypes e,
                        select_cuda e, cuda_message, allocate e, help_and_quit]) I E"
proof -
  have "triple I (universe_streams e arg) I E"
    by (rule universe_streams_inv) (rule assms)+
  moreover have "triple I (world_streams e arg) I E"
    by (rule world_streams_inv) (rule assms)+
  ultimately show ?thesis
    by (intro triple_inv_seq) (auto intro: assms)
qed

lemma rest_config:
  assumes "\<And>st s. same_config st s \<Longrightarrow> I st \<Longrightarrow> I s"
  shows "triple I (seq [universe_streams e arg, world_streams e arg, check_datatypes e,
                        select_cuda e, cuda_message, allocate e, help_and_quit]) I (\<lambda>x. I)"
  by (rule rest_inv)
     (rule triple_config [OF _ assms], (rule frame_universe frame_one_world
        frame_many_worlds frame_tail), assumption, assumption)+

text \<open>The whole constructor, from what holds after the checks.\<close>

lemma LAMMPS_triple:
  assumes "triple (\<lambda>s. fresh e s \<and> checked e s)
             (seq [universe_streams e arg, world_streams e arg, check_datatypes e,
                   select_cuda e, cuda_message, allocate e, help_and_quit]) Q E"
    and "\<And>m s. fresh e s \<Longrightarrow> flags_ok s \<Longrightarrow> E (Fatal Universe_all m) s"
  shows "case outcome (LAMMPS e arg) of
           None \<Rightarrow> Q (final (LAMMPS e arg))
         | Some x \<Rightarrow> E x (final (LAMMPS e arg))"
proof -
  have early: "fresh e s \<and> flags_ok s \<and> (\<exists>m. x = Fatal Universe_all m) \<Longrightarrow> E x s" for x s
    using assms(2) by auto
  have "triple (\<lambda>s. fresh e s \<and> parsed s) (parse_switches e arg 1)
          (\<lambda>s. fresh e s \<and> parsed s) E"
    by (rule triple_weaken [OF parse_switches_triple]) (simp_all add: early)
  moreover have "triple (\<lambda>s. fresh e s \<and> parsed s) (check_universe e)
          (\<lambda>s. fresh e s \<and> checked e s) E"
    by (rule triple_weaken [OF check_universe_triple]) (simp_all add: early)
  ultimately have "triple (\<lambda>s. fresh e s \<and> parsed s)
      (seq [parse_switches e arg 1, check_universe e, universe_streams e arg,
            world_streams e arg, check_datatypes e, select_cuda e, cuda_message,
            allocate e, help_and_quit]) Q E"
    using assms(1) by (blast intro: triple_seq_Cons)
  then show ?thesis
    unfolding LAMMPS_def by (rule triple_result) (simp add: start_fresh)
qed

subsection \<open>The partition\<close>

lemma checked_config: "same_config st s \<Longrightarrow> checked e st \<Longrightarrow> checked e s"
  by (simp add: same_config_def checked_def flags_ok_def)

lemma LAMMPS_checked:
  "case outcome (LAMMPS e arg) of
     None \<Rightarrow> checked e (final (LAMMPS e arg))
   | Some x \<Rightarrow>
       checked e (final (LAMMPS e arg))
       \<or> fresh e (final (LAMMPS e arg)) \<and> (\<exists>m. x = Fatal Universe_all m)"
proof (rule LAMMPS_triple)
  show "triple (\<lambda>s. fresh e s \<and> checked e s)
          (seq [universe_streams e arg, world_streams e arg, check_datatypes e,
                select_cuda e, cuda_message, allocate e, help_and_quit])
          (checked e) (\<lambda>x s. checked e s \<or> fresh e s \<and> (\<exists>m. x = Fatal Universe_all m))"
    by (rule triple_weaken [OF rest_config [of "checked e"]])
       (auto intro: checked_config)
qed simp

text \<open>
  The layout of the worlds on the example of the spec: with the sizes 2, 2, 3
  and 1 on a pool of 8, the processes of rank 0 in their world are those of
  pool ranks 0, 2, 4 and 7.
\<close>

lemma world_layout_example:
  "filter (\<lambda>r. comm_split_rank
                 \<lparr>me = r, nprocs = 8, existflag = 1, procs_per_world = [2, 2, 3, 1],
                  iworld = world_of [2, 2, 3, 1] (int r), uscreen = None, ulogfile = None\<rparr>
               = 0) [0..<8]
   = [0, 2, 4, 7]"
  by code_simp

lemma add_worlds_words:
  assumes "list_all not_dash ws" and "post = [] \<or> \<not> not_dash (hd post)"
  shows "fst (add_worlds e (pre @ ws @ post) (length pre) u) = length pre + length ws
         \<and> procs_per_world (snd (add_worlds e (pre @ ws @ post) (length pre) u))
             = procs_per_world u @ concat (map (world_sizes e) ws)"
  using assms
proof (induction ws arbitrary: pre u)
  case Nil
  have "\<not> (length pre < length (pre @ post) \<and> not_dash ((pre @ post) ! length pre))"
    using Nil.prems(2) by (cases post) auto
  then show ?case
    by (simp add: add_worlds_stop)
next
  case (Cons w ws)
  from Cons.prems have w: "not_dash w" and ws: "list_all not_dash ws" by simp_all
  have s: "add_worlds e (pre @ (w # ws) @ post) (length pre) u =
             add_worlds e ((pre @ [w]) @ ws @ post) (length (pre @ [w]))
               (add_world e (Some w) u)"
    using w by (subst add_worlds_step) simp_all
  show ?case
    unfolding s using Cons.IH [OF ws Cons.prems(2), of "pre @ [w]" "add_world e (Some w) u"]
    by (simp add: add_world_def Let_def)
qed

lemma skip_values_words:
  assumes "list_all not_dash ws" and "post = [] \<or> \<not> not_dash (hd post)"
  shows "skip_values (pre @ ws @ post) (length pre) = length pre + length ws"
  using assms
proof (induction ws arbitrary: pre)
  case Nil
  have "\<not> (length pre < length (pre @ post) \<and> not_dash ((pre @ post) ! length pre))"
    using Nil.prems(2) by (cases post) auto
  then show ?case
    by (subst skip_values.simps) auto
next
  case (Cons w ws)
  from Cons.prems have w: "not_dash w" and ws: "list_all not_dash ws" by simp_all
  have s: "skip_values (pre @ (w # ws) @ post) (length pre) =
             skip_values ((pre @ [w]) @ ws @ post) (length (pre @ [w]))"
    using w by (subst skip_values.simps) simp
  show ?case
    unfolding s using Cons.IH [OF ws Cons.prems(2), of "pre @ [w]"] by simp
qed


lemma words_head: "words sh d \<noteq> [] \<and> \<not> not_dash (hd (words sh d))"
  by (cases d) (simp_all add: not_dash_def)

lemma switch_words:
  assumes "well_formed d" and "post = [] \<or> \<not> not_dash (hd post)"
  shows "case switch e (pre @ words sh d @ post) (length pre) st of
           Inl x \<Rightarrow> True
         | Inr (j, s) \<Rightarrow>
             j = length pre + length (words sh d)
             \<and> procs_per_world (universe s) = procs_per_world (universe st) @ declared e d
             \<and> (existflag (universe s) \<noteq> 0) = (existflag (universe st) \<noteq> 0 \<or> is_partition d)
             \<and> (inflag s \<noteq> 0) = (inflag st \<noteq> 0 \<or> is_in d)"
proof (cases d)
  case (D_partition ws)
  with assms have ws: "list_all not_dash ws" by simp
  note a = add_worlds_words [OF ws assms(2), of e "pre @ [''-p'']", simplified]
    add_worlds_words [OF ws assms(2), of e "pre @ [''-partition'']", simplified]
  show ?thesis
    unfolding D_partition
    by (cases sh) (simp_all add: switch_def Let_def nth_append a add_worlds_keeps)
next
  case (D_var name v vs)
  with assms have vs: "list_all not_dash vs" by simp
  have a: "skip_values (pre @ f # name # v # vs @ post) (length pre + 3)
             = length pre + 3 + length vs" for f
    using skip_values_words [OF vs assms(2), of "pre @ [f, name, v]"]
    by (simp add: numeral_3_eq_3)
  show ?thesis
    unfolding D_var
    by (cases sh) (simp_all add: switch_def Let_def nth_append a)
qed (cases sh; simp add: switch_def Let_def nth_append reorder_def)+


lemma line_of_head: "line_of ds = [] \<or> \<not> not_dash (hd (line_of ds))"
proof (cases ds)
  case Nil
  then show ?thesis by (simp add: line_of_def)
next
  case (Cons p ps)
  obtain sh d where "p = (sh, d)" by (cases p)
  with Cons words_head [of sh d] show ?thesis
    by (simp add: line_of_def hd_append)
qed

lemma parse_words:
  assumes "list_all (\<lambda>(sh, d). well_formed d) ds"
  shows "case parse_switches e (pre @ line_of ds) (length pre) st of
           Inl x \<Rightarrow> True
         | Inr s \<Rightarrow>
             procs_per_world (universe s)
               = procs_per_world (universe st) @ concat (map (\<lambda>(sh, d). declared e d) ds)
             \<and> (existflag (universe s) \<noteq> 0)
                 = (existflag (universe st) \<noteq> 0 \<or> list_ex (\<lambda>(sh, d). is_partition d) ds)
             \<and> (inflag s \<noteq> 0) = (inflag st \<noteq> 0 \<or> list_ex (\<lambda>(sh, d). is_in d) ds)"
  using assms
proof (induction ds arbitrary: pre st)
  case Nil
  show ?case by (simp add: line_of_def parse_switches.simps)
next
  case (Cons p ds)
  obtain sh d where p: "p = (sh, d)" by (cases p)
  from Cons.prems p have wf: "well_formed d"
    and wfs: "list_all (\<lambda>(sh, d). well_formed d) ds"
    by simp_all
  have l: "line_of (p # ds) = words sh d @ line_of ds"
    by (simp add: line_of_def p)
  have lt: "length pre < length (pre @ words sh d @ line_of ds)"
    using words_head [of sh d] by simp
  note sw = switch_words [OF wf line_of_head [of ds], where e = e and pre = pre and sh = sh
      and st = st]
  show ?case
  proof (cases "switch e (pre @ words sh d @ line_of ds) (length pre) st")
    case (Inl x)
    then show ?thesis
      unfolding l using lt by (subst parse_switches.simps) simp
  next
    case (Inr b)
    obtain j s where b: "b = (j, s)" by (cases b)
    from sw Inr b have j: "j = length (pre @ words sh d)"
      and f: "procs_per_world (universe s) = procs_per_world (universe st) @ declared e d"
        "(existflag (universe s) \<noteq> 0) = (existflag (universe st) \<noteq> 0 \<or> is_partition d)"
        "(inflag s \<noteq> 0) = (inflag st \<noteq> 0 \<or> is_in d)"
      by simp_all
    have eq: "parse_switches e (pre @ line_of (p # ds)) (length pre) st =
            parse_switches e ((pre @ words sh d) @ line_of ds) (length (pre @ words sh d)) s"
      unfolding l using lt Inr b j by (subst parse_switches.simps) simp
    from Cons.IH [OF wfs, where pre = "pre @ words sh d" and st = s] f show ?thesis
      unfolding eq by (auto simp: p split: sum.splits)
  qed
qed

lemma declared_none:
  "\<not> list_ex (\<lambda>(sh, d). is_partition d) ds \<Longrightarrow>
   concat (map (\<lambda>(sh, d). declared e d) ds) = []"
proof -
  have "\<not> is_partition d \<Longrightarrow> declared e d = []" for d
    by (cases d) simp_all
  then show "\<not> list_ex (\<lambda>(sh, d). is_partition d) ds \<Longrightarrow>
             concat (map (\<lambda>(sh, d). declared e d) ds) = []"
    by (induction ds) auto
qed

lemma LAMMPS_unfold:
  "LAMMPS e arg =
     (case parse_switches e arg 1 (start e) of
        Inl x \<Rightarrow> Inl x
      | Inr s \<Rightarrow>
          (case check_universe e s of
             Inl x \<Rightarrow> Inl x
           | Inr s' \<Rightarrow>
               seq [universe_streams e arg, world_streams e arg, check_datatypes e,
                    select_cuda e, cuda_message, allocate e, help_and_quit] s'))"
  by (simp add: LAMMPS_def split: sum.splits)

lemma rest_worlds:
  "procs_per_world (universe (final (seq [universe_streams e arg, world_streams e arg,
       check_datatypes e, select_cuda e, cuda_message, allocate e, help_and_quit] s)))
   = procs_per_world (universe s)"
proof -
  have "triple (\<lambda>t. procs_per_world (universe t) = procs_per_world (universe s))
          (seq [universe_streams e arg, world_streams e arg, check_datatypes e,
                select_cuda e, cuda_message, allocate e, help_and_quit])
          (\<lambda>t. procs_per_world (universe t) = procs_per_world (universe s))
          (\<lambda>x t. procs_per_world (universe t) = procs_per_world (universe s))"
    by (rule rest_config) (simp add: same_config_def)
  from triple_result [OF this, of s] show ?thesis
    by (simp split: option.splits)
qed

lemma directives_worlds:
  assumes "list_all (\<lambda>(sh, d). well_formed d) ds"
  shows "procs_per_world (universe (final (LAMMPS e (command_line prog ds))))
           = declared_worlds e ds
         \<and> sum_list (declared_worlds e ds) = int (comm_size e)
         \<or> (\<exists>m. outcome (LAMMPS e (command_line prog ds)) = Some (Fatal Universe_all m))
           \<and> trace (final (LAMMPS e (command_line prog ds))) = fundamental"
proof -
  define arg where "arg = command_line prog ds"
  have arg: "arg = [prog] @ line_of ds"
    by (simp add: arg_def command_line_def)
  note pk = parse_switches_keeps [OF start_fresh, of e arg 1]
  from parse_words [OF assms, where e = e and pre = "[prog]" and st = "start e"]
  have pw: "case parse_switches e arg 1 (start e) of
              Inl x \<Rightarrow> True
            | Inr s \<Rightarrow>
                procs_per_world (universe s) = concat (map (\<lambda>(sh, d). declared e d) ds)
                \<and> (existflag (universe s) \<noteq> 0) = list_ex (\<lambda>(sh, d). is_partition d) ds"
    by (auto simp: arg start_def Universe_new_def split: sum.splits)
  have "procs_per_world (universe (final (LAMMPS e arg))) = declared_worlds e ds
         \<and> sum_list (declared_worlds e ds) = int (comm_size e)
         \<or> (\<exists>m. outcome (LAMMPS e arg) = Some (Fatal Universe_all m))
           \<and> trace (final (LAMMPS e arg)) = fundamental"
  proof (cases "parse_switches e arg 1 (start e)")
    case (Inl b)
    obtain x s where b: "b = (x, s)" by (cases b)
    with pk Inl have "fresh e s" and "\<exists>m. x = Fatal Universe_all m" by simp_all
    moreover have "LAMMPS e arg = Inl (x, s)"
      using Inl b by (simp add: LAMMPS_unfold)
    ultimately show ?thesis
      by (auto simp: outcome_def final_def fresh_def)
  next
    case (Inr s)
    with pk have fs: "fresh e s" "parsed s" by simp_all
    from pw Inr
    have w: "procs_per_world (universe s) = concat (map (\<lambda>(sh, d). declared e d) ds)"
      and ex: "(existflag (universe s) \<noteq> 0) = list_ex (\<lambda>(sh, d). is_partition d) ds"
      by simp_all
    from tripleD [OF check_universe_triple [of e], of s] fs
    have cu: "case check_universe e s of
                Inl (x, s') \<Rightarrow> fresh e s' \<and> flags_ok s' \<and> (\<exists>m. x = Fatal Universe_all m)
              | Inr s' \<Rightarrow> fresh e s' \<and> checked e s'"
      by simp
    show ?thesis
    proof (cases "check_universe e s")
      case (Inl b)
      obtain x s' where b: "b = (x, s')" by (cases b)
      with cu Inl have "fresh e s'" and "\<exists>m. x = Fatal Universe_all m" by simp_all
      moreover have "LAMMPS e arg = Inl (x, s')"
        using Inl b Inr by (simp add: LAMMPS_unfold)
      ultimately show ?thesis
        by (auto simp: outcome_def final_def fresh_def)
    next
      case c: (Inr s')
      with cu have ch: "checked e s'" by simp
      from c have "procs_per_world (universe s') =
          (if existflag (universe s) = 0
           then procs_per_world (universe s) @ [int (nprocs (universe s))]
           else procs_per_world (universe s))"
        by (auto simp: check_universe_def Let_def error_def add_world_def split: if_splits)
      with fs w ex ch have p: "procs_per_world (universe s') = declared_worlds e ds"
        by (auto simp: declared_worlds_def fresh_def checked_def declared_none)
      from ch have su: "sum_list (procs_per_world (universe s')) = int (comm_size e)"
        by (simp add: checked_def)
      have "LAMMPS e arg =
              seq [universe_streams e arg, world_streams e arg, check_datatypes e,
                   select_cuda e, cuda_message, allocate e, help_and_quit] s'"
        using Inr c by (simp add: LAMMPS_unfold)
      with rest_worlds [of e arg s'] p su show ?thesis
        by simp
    qed
  qed
  then show ?thesis
    by (simp only: arg_def)
qed


lemma switch_words_ok:
  assumes "acceptable d" and "is_reorder d \<longrightarrow> existflag (universe st) = 0"
  shows "case switch e (pre @ words sh d @ post) (length pre) st of
           Inl x \<Rightarrow> False
         | Inr (j, s) \<Rightarrow>
             (partscreenflag s \<noteq> 0) = (partscreenflag st \<noteq> 0 \<or> is_pscreen d)
             \<and> (partlogflag s \<noteq> 0) = (partlogflag st \<noteq> 0 \<or> is_plog d)"
proof (cases d)
  case (D_partition ws)
  with assms(1) have "ws \<noteq> []" by simp
  then show ?thesis
    unfolding D_partition
    by (cases sh) (simp_all add: switch_def Let_def nth_append)
next
  case (D_cuda mode)
  with assms(1) have "mode = ''on'' \<or> mode = ''off''" by simp
  then show ?thesis
    unfolding D_cuda
    by (cases sh) (auto simp add: switch_def Let_def nth_append)
next
  case (D_reorder style a)
  with assms(2) have "existflag (universe st) = 0" by simp
  then show ?thesis
    unfolding D_reorder
    by (cases sh) (simp_all add: switch_def Let_def nth_append reorder_def)
qed (cases sh; simp add: switch_def Let_def nth_append)+

lemma parse_words_ok:
  assumes "list_all (\<lambda>(sh, d). well_formed d \<and> acceptable d) ds"
    and "reorder_first ds"
    and "existflag (universe st) \<noteq> 0 \<longrightarrow> \<not> list_ex (\<lambda>(sh, d). is_reorder d) ds"
  shows "case parse_switches e (pre @ line_of ds) (length pre) st of
           Inl x \<Rightarrow> False
         | Inr s \<Rightarrow>
             (partscreenflag s \<noteq> 0)
               = (partscreenflag st \<noteq> 0 \<or> list_ex (\<lambda>(sh, d). is_pscreen d) ds)
             \<and> (partlogflag s \<noteq> 0)
                 = (partlogflag st \<noteq> 0 \<or> list_ex (\<lambda>(sh, d). is_plog d) ds)"
  using assms
proof (induction ds arbitrary: pre st)
  case Nil
  show ?case by (simp add: line_of_def parse_switches.simps)
next
  case (Cons p ds)
  obtain sh d where p: "p = (sh, d)" by (cases p)
  from Cons.prems(1) p have wf: "well_formed d" and ac: "acceptable d"
    and wfs: "list_all (\<lambda>(sh, d). well_formed d \<and> acceptable d) ds"
    by simp_all
  from Cons.prems(2) p have rf: "reorder_first ds"
    and pr: "is_partition d \<longrightarrow> \<not> list_ex (\<lambda>(sh, d). is_reorder d) ds"
    by simp_all
  from Cons.prems(3) p have ro: "is_reorder d \<longrightarrow> existflag (universe st) = 0"
    and ex: "existflag (universe st) \<noteq> 0 \<longrightarrow> \<not> list_ex (\<lambda>(sh, d). is_reorder d) ds"
    by auto
  have l: "line_of (p # ds) = words sh d @ line_of ds"
    by (simp add: line_of_def p)
  have lt: "length pre < length (pre @ words sh d @ line_of ds)"
    using words_head [of sh d] by simp
  note sw = switch_words [OF wf line_of_head [of ds], where e = e and pre = pre and sh = sh
      and st = st]
  note ok = switch_words_ok [OF ac ro, where e = e and pre = pre and sh = sh
      and post = "line_of ds"]
  show ?case
  proof (cases "switch e (pre @ words sh d @ line_of ds) (length pre) st")
    case (Inl x)
    with ok show ?thesis by simp
  next
    case (Inr b)
    obtain j s where b: "b = (j, s)" by (cases b)
    from sw Inr b have j: "j = length (pre @ words sh d)"
      and f: "(existflag (universe s) \<noteq> 0) = (existflag (universe st) \<noteq> 0 \<or> is_partition d)"
      by simp_all
    from ok Inr b
    have g: "(partscreenflag s \<noteq> 0) = (partscreenflag st \<noteq> 0 \<or> is_pscreen d)"
      "(partlogflag s \<noteq> 0) = (partlogflag st \<noteq> 0 \<or> is_plog d)"
      by simp_all
    from f pr ex
    have ex': "existflag (universe s) \<noteq> 0 \<longrightarrow> \<not> list_ex (\<lambda>(sh, d). is_reorder d) ds"
      by blast
    have eq: "parse_switches e (pre @ line_of (p # ds)) (length pre) st =
            parse_switches e ((pre @ words sh d) @ line_of ds) (length (pre @ words sh d)) s"
      unfolding l using lt Inr b j by (subst parse_switches.simps) simp
    have le: "list_ex (\<lambda>(sh, d). is_pscreen d) (p # ds)
                = (is_pscreen d \<or> list_ex (\<lambda>(sh, d). is_pscreen d) ds)"
      "list_ex (\<lambda>(sh, d). is_plog d) (p # ds)
                = (is_plog d \<or> list_ex (\<lambda>(sh, d). is_plog d) ds)"
      by (simp_all add: p)
    from Cons.IH [OF wfs rf ex', where pre = "pre @ words sh d"] g show ?thesis
      unfolding eq le by (cases "parse_switches e ((pre @ words sh d) @ line_of ds)
                                   (length (pre @ words sh d)) s") simp_all
  qed
qed



lemma not_pool_fatal_streams:
  "triple (\<lambda>s. True) (open_uscreen e arg) (\<lambda>s. True) (\<lambda>x s. \<forall>m. x \<noteq> Fatal Universe_all m)"
  "triple (\<lambda>s. True) (open_ulogfile e arg) (\<lambda>s. True) (\<lambda>x s. \<forall>m. x \<noteq> Fatal Universe_all m)"
  "triple (\<lambda>s. True) universe_others (\<lambda>s. True) (\<lambda>x s. \<forall>m. x \<noteq> Fatal Universe_all m)"
  "triple (\<lambda>s. True) one_world_inherit (\<lambda>s. True) (\<lambda>x s. \<forall>m. x \<noteq> Fatal Universe_all m)"
  "triple (\<lambda>s. True) (one_world_infile e arg) (\<lambda>s. True)
     (\<lambda>x s. \<forall>m. x \<noteq> Fatal Universe_all m)"
  "triple (\<lambda>s. True) one_world_banner (\<lambda>s. True) (\<lambda>x s. \<forall>m. x \<noteq> Fatal Universe_all m)"
  "triple (\<lambda>s. True) comm_split (\<lambda>s. True) (\<lambda>x s. \<forall>m. x \<noteq> Fatal Universe_all m)"
  "triple (\<lambda>s. True) (world_screen e arg) (\<lambda>s. True) (\<lambda>x s. \<forall>m. x \<noteq> Fatal Universe_all m)"
  "triple (\<lambda>s. True) (world_logfile e arg) (\<lambda>s. True) (\<lambda>x s. \<forall>m. x \<noteq> Fatal Universe_all m)"
  "triple (\<lambda>s. True) (world_infile e arg) (\<lambda>s. True) (\<lambda>x s. \<forall>m. x \<noteq> Fatal Universe_all m)"
  "triple (\<lambda>s. True) worlds_banner (\<lambda>s. True) (\<lambda>x s. \<forall>m. x \<noteq> Fatal Universe_all m)"
  by (simp_all add: triple_def open_uscreen_def open_ulogfile_def universe_others_def
        one_world_inherit_def one_world_infile_def one_world_banner_def comm_split_def
        world_screen_def world_logfile_def world_infile_def worlds_banner_def open_screen_def
        open_logfile_def sprintf_def error_def Let_def)

lemma not_pool_fatal_tail:
  "triple (\<lambda>s. True) (check_datatypes e) (\<lambda>s. True) (\<lambda>x s. \<forall>m. x \<noteq> Fatal Universe_all m)"
  "triple (\<lambda>s. True) (select_cuda e) (\<lambda>s. True) (\<lambda>x s. \<forall>m. x \<noteq> Fatal Universe_all m)"
  "triple (\<lambda>s. True) cuda_message (\<lambda>s. True) (\<lambda>x s. \<forall>m. x \<noteq> Fatal Universe_all m)"
  "triple (\<lambda>s. True) (allocate e) (\<lambda>s. True) (\<lambda>x s. \<forall>m. x \<noteq> Fatal Universe_all m)"
  "triple (\<lambda>s. True) help_and_quit (\<lambda>s. True) (\<lambda>x s. \<forall>m. x \<noteq> Fatal Universe_all m)"
  by (simp_all add: triple_def check_datatypes_def select_cuda_def cuda_message_def
        allocate_def help_and_quit_def error_def error_done_def Let_def)

lemma rest_not_pool_fatal:
  "outcome (seq [universe_streams e arg, world_streams e arg, check_datatypes e,
                 select_cuda e, cuda_message, allocate e, help_and_quit] s)
     \<noteq> Some (Fatal Universe_all m)"
proof -
  have "triple (\<lambda>s. True)
          (seq [universe_streams e arg, world_streams e arg, check_datatypes e,
                select_cuda e, cuda_message, allocate e, help_and_quit])
          (\<lambda>s. True) (\<lambda>x s. \<forall>m. x \<noteq> Fatal Universe_all m)"
    by (rule rest_inv) (rule not_pool_fatal_streams not_pool_fatal_tail)+
  from triple_result [OF this, of s] show ?thesis
    by (auto split: option.splits)
qed

lemma directives_accepted:
  assumes "accepted e ds"
  shows "procs_per_world (universe (final (LAMMPS e (command_line prog ds))))
           = declared_worlds e ds
         \<and> (\<forall>m. outcome (LAMMPS e (command_line prog ds)) \<noteq> Some (Fatal Universe_all m))"
proof -
  define arg where "arg = command_line prog ds"
  have arg: "arg = [prog] @ line_of ds"
    by (simp add: arg_def command_line_def)
  from assms have wa: "list_all (\<lambda>(sh, d). well_formed d \<and> acceptable d) ds"
    and rf: "reorder_first ds"
    and su: "sum_list (declared_worlds e ds) = int (comm_size e)"
    and co: "if list_ex (\<lambda>(sh, d). is_partition d) ds
             then list_ex (\<lambda>(sh, d). is_in d) ds
             else \<not> list_ex (\<lambda>(sh, d). is_pscreen d \<or> is_plog d) ds"
    by (simp_all add: accepted_def)
  from wa have wf: "list_all (\<lambda>(sh, d). well_formed d) ds"
    by (simp add: list_all_iff split_def)
  from co have np: "\<not> list_ex (\<lambda>(sh, d). is_partition d) ds \<Longrightarrow>
      \<not> list_ex (\<lambda>(sh, d). is_pscreen d) ds \<and> \<not> list_ex (\<lambda>(sh, d). is_plog d) ds"
    by (auto simp: list_ex_iff)
  have e0: "existflag (universe (start e)) \<noteq> 0 \<longrightarrow> \<not> list_ex (\<lambda>(sh, d). is_reorder d) ds"
    by (simp add: start_def Universe_new_def)
  note pk = parse_switches_keeps [OF start_fresh, of e arg 1]
  from parse_words_ok [OF wa rf e0, where e = e and pre = "[prog]"]
    parse_words [OF wf, where e = e and pre = "[prog]" and st = "start e"]
  obtain s where ps: "parse_switches e arg 1 (start e) = Inr s"
    and w: "procs_per_world (universe s) = concat (map (\<lambda>(sh, d). declared e d) ds)"
    and ex: "(existflag (universe s) \<noteq> 0) = list_ex (\<lambda>(sh, d). is_partition d) ds"
    and inf: "(inflag s \<noteq> 0) = list_ex (\<lambda>(sh, d). is_in d) ds"
    and psc: "(partscreenflag s \<noteq> 0) = list_ex (\<lambda>(sh, d). is_pscreen d) ds"
    and plg: "(partlogflag s \<noteq> 0) = list_ex (\<lambda>(sh, d). is_plog d) ds"
    by (cases "parse_switches e arg 1 (start e)")
       (auto simp: arg start_def Universe_new_def)
  from pk ps have fs: "fresh e s" by simp
  then have n: "nprocs (universe s) = comm_size e" by (simp add: fresh_def)
  have "\<exists>s'. check_universe e s = Inr s'"
  proof (cases "list_ex (\<lambda>(sh, d). is_partition d) ds")
    case True
    with su w have "sum_list (procs_per_world (universe s)) = int (comm_size e)"
      by (simp add: declared_worlds_def)
    with True ex inf co n show ?thesis
      by (simp add: check_universe_def Let_def error_def consistent_def)
  next
    case False
    with w have "procs_per_world (universe s) = []"
      by (simp add: declared_none)
    with False ex np psc plg n show ?thesis
      by (simp add: check_universe_def Let_def error_def consistent_def add_world_def)
  qed
  then obtain s' where cu: "check_universe e s = Inr s'" ..
  have r: "LAMMPS e arg =
             seq [universe_streams e arg, world_streams e arg, check_datatypes e,
                  select_cuda e, cuda_message, allocate e, help_and_quit] s'"
    using ps cu by (simp add: LAMMPS_unfold)
  have o: "outcome (LAMMPS e arg) \<noteq> Some (Fatal Universe_all m)" for m
    unfolding r by (rule rest_not_pool_fatal)
  with directives_worlds [OF wf, of e prog]
  show ?thesis
    unfolding arg_def by blast
qed

text \<open>
  A sequence of directives with a \<^verbatim>\<open>-partition\<close> and no \<^verbatim>\<open>-in\<close> directive
  ends in the pool-wide fatal error before anything is opened.
\<close>

lemma directives_without_in:
  assumes "list_all (\<lambda>(sh, d). well_formed d) ds"
    and "list_ex (\<lambda>(sh, d). is_partition d) ds"
    and "\<not> list_ex (\<lambda>(sh, d). is_in d) ds"
  shows "(\<exists>m. outcome (LAMMPS e (command_line prog ds)) = Some (Fatal Universe_all m))
         \<and> trace (final (LAMMPS e (command_line prog ds))) = fundamental"
proof -
  define arg where "arg = command_line prog ds"
  have arg: "arg = [prog] @ line_of ds"
    by (simp add: arg_def command_line_def)
  note pk = parse_switches_keeps [OF start_fresh, of e arg 1]
  from parse_words [OF assms(1), where e = e and pre = "[prog]" and st = "start e"] assms(2,3)
  have pw: "case parse_switches e arg 1 (start e) of
              Inl x \<Rightarrow> True
            | Inr s \<Rightarrow> existflag (universe s) \<noteq> 0 \<and> inflag s = 0"
    by (auto simp: arg start_def Universe_new_def split: sum.splits)
  have "(\<exists>m. outcome (LAMMPS e arg) = Some (Fatal Universe_all m))
        \<and> trace (final (LAMMPS e arg)) = fundamental"
  proof (cases "parse_switches e arg 1 (start e)")
    case (Inl b)
    obtain x s where b: "b = (x, s)" by (cases b)
    with pk Inl have "fresh e s" and "\<exists>m. x = Fatal Universe_all m" by simp_all
    moreover have "LAMMPS e arg = Inl (x, s)"
      using Inl b by (simp add: LAMMPS_unfold)
    ultimately show ?thesis
      by (auto simp: outcome_def final_def fresh_def)
  next
    case (Inr s)
    with pk have fs: "fresh e s" "parsed s" by simp_all
    from pw Inr have f: "existflag (universe s) \<noteq> 0" "inflag s = 0" by simp_all
    then have "\<exists>m. check_universe e s = Inl (Fatal Universe_all m, s)"
      by (simp add: check_universe_def Let_def error_def)
    then obtain m where "check_universe e s = Inl (Fatal Universe_all m, s)" ..
    then have "LAMMPS e arg = Inl (Fatal Universe_all m, s)"
      using Inr by (simp add: LAMMPS_unfold)
    with fs show ?thesis
      by (simp add: outcome_def final_def fresh_def)
  qed
  then show ?thesis
    by (simp only: arg_def)
qed

text \<open>
  C1. For every sequence of directives (with none, one or several
  \<^verbatim>\<open>-partition\<close> directives among them, each flag in its long or its short
  form), either the worlds the constructor ends with are the worlds that the
  directives declare, in their order (the one world of the whole pool when
  there is no \<^verbatim>\<open>-partition\<close> directive), and their sizes sum to the size
  of the pool; or the constructor has ended in \<^verbatim>\<open>error->universe_all\<close>, the
  pool-wide fatal error, before it opened, printed or allocated anything
  after the three fundamental objects. When the spec accepts the sequence,
  the first is the case: the constructor does not end in
  \<^verbatim>\<open>error->universe_all\<close> and the worlds are the declared ones. For every
  list of words, also one that is no sequence of directives, the sizes of the
  final worlds sum to the size of the pool unless the constructor has ended
  in \<^verbatim>\<open>error->universe_all\<close>, and without a \<^verbatim>\<open>-partition\<close> switch the
  worlds are the one world of the whole pool. (The bodies of \<^verbatim>\<open>add_world\<close>
  and \<^verbatim>\<open>consistent\<close> are modelled from the spec; the sizes that one size
  word declares are \<open>world_sizes\<close>.)
\<close>

theorem partition_consistent_or_pool_fatal:
  "(list_all (\<lambda>(short, d). well_formed d) ds \<longrightarrow>
      procs_per_world (universe (final (LAMMPS e (command_line prog ds))))
        = declared_worlds e ds
      \<and> sum_list (declared_worlds e ds) = int (comm_size e)
      \<or> (\<exists>m. outcome (LAMMPS e (command_line prog ds)) = Some (Fatal Universe_all m))
        \<and> trace (final (LAMMPS e (command_line prog ds)))
            = [New memory_p Memory, New error_p Error, New universe_p Universe'])
   \<and> (accepted e ds \<longrightarrow>
        procs_per_world (universe (final (LAMMPS e (command_line prog ds))))
          = declared_worlds e ds
        \<and> (\<forall>m. outcome (LAMMPS e (command_line prog ds)) \<noteq> Some (Fatal Universe_all m)))
   \<and> (sum_list (procs_per_world (universe (final (LAMMPS e arg)))) = int (comm_size e)
       \<or> (\<exists>m. outcome (LAMMPS e arg) = Some (Fatal Universe_all m))
         \<and> trace (final (LAMMPS e arg))
             = [New memory_p Memory, New error_p Error, New universe_p Universe'])
   \<and> (existflag (universe (final (LAMMPS e arg))) = 0 \<longrightarrow>
        procs_per_world (universe (final (LAMMPS e arg))) = [int (comm_size e)]
        \<or> (\<exists>m. outcome (LAMMPS e arg) = Some (Fatal Universe_all m))
          \<and> trace (final (LAMMPS e arg))
              = [New memory_p Memory, New error_p Error, New universe_p Universe'])"
proof -
  have a: "list_all (\<lambda>(short, d). well_formed d) ds \<longrightarrow>
      procs_per_world (universe (final (LAMMPS e (command_line prog ds))))
        = declared_worlds e ds
      \<and> sum_list (declared_worlds e ds) = int (comm_size e)
      \<or> (\<exists>m. outcome (LAMMPS e (command_line prog ds)) = Some (Fatal Universe_all m))
        \<and> trace (final (LAMMPS e (command_line prog ds)))
            = [New memory_p Memory, New error_p Error, New universe_p Universe']"
    using directives_worlds [of ds e prog] by (simp add: fundamental_def)
  have c: "accepted e ds \<longrightarrow>
        procs_per_world (universe (final (LAMMPS e (command_line prog ds))))
          = declared_worlds e ds
        \<and> (\<forall>m. outcome (LAMMPS e (command_line prog ds)) \<noteq> Some (Fatal Universe_all m))"
    using directives_accepted [of e ds prog] by blast
  have b: "(sum_list (procs_per_world (universe (final (LAMMPS e arg)))) = int (comm_size e)
       \<or> (\<exists>m. outcome (LAMMPS e arg) = Some (Fatal Universe_all m))
         \<and> trace (final (LAMMPS e arg))
             = [New memory_p Memory, New error_p Error, New universe_p Universe'])
   \<and> (existflag (universe (final (LAMMPS e arg))) = 0 \<longrightarrow>
        procs_per_world (universe (final (LAMMPS e arg))) = [int (comm_size e)]
        \<or> (\<exists>m. outcome (LAMMPS e arg) = Some (Fatal Universe_all m))
          \<and> trace (final (LAMMPS e arg))
              = [New memory_p Memory, New error_p Error, New universe_p Universe'])"
    using LAMMPS_checked [of e arg]
    by (auto simp: checked_def fresh_def fundamental_def split: option.splits)
  from a c b show ?thesis by blast
qed

theorem partition_consistent_or_pool_fatal_witness:
  "accepted (example_env 0 4 (\<lambda>f. True) False)
     [(False, D_partition [''2'', ''2'']), (False, D_in ''in.x'')]
   \<and> command_line ''lmp'' [(False, D_partition [''2'', ''2'']), (False, D_in ''in.x'')]
       = [''lmp'', ''-partition'', ''2'', ''2'', ''-in'', ''in.x'']
   \<and> (\<forall>m. outcome (LAMMPS (example_env 0 4 (\<lambda>f. True) False)
                       [''lmp'', ''-partition'', ''2'', ''2'', ''-in'', ''in.x''])
            \<noteq> Some (Fatal Universe_all m))
   \<and> procs_per_world (universe (final (LAMMPS (example_env 0 4 (\<lambda>f. True) False)
                [''lmp'', ''-partition'', ''2'', ''2'', ''-in'', ''in.x'']))) = [2, 2]
   \<and> list_all (\<lambda>(short, d). well_formed d) [(True, D_partition [''3'']), (True, D_in ''in.x'')]
   \<and> command_line ''lmp'' [(True, D_partition [''3'']), (True, D_in ''in.x'')]
       = [''lmp'', ''-p'', ''3'', ''-i'', ''in.x'']
   \<and> (\<exists>m. outcome (LAMMPS (example_env 0 4 (\<lambda>f. True) False)
                       [''lmp'', ''-p'', ''3'', ''-i'', ''in.x'']) = Some (Fatal Universe_all m))
   \<and> accepted (example_env 0 4 (\<lambda>f. True) False) []
   \<and> command_line ''lmp'' [] = [''lmp'']
   \<and> existflag (universe (final (LAMMPS (example_env 0 4 (\<lambda>f. True) False) [''lmp'']))) = 0
   \<and> procs_per_world (universe (final (LAMMPS (example_env 0 4 (\<lambda>f. True) False) [''lmp''])))
       = [4]"
proof -
  let ?e = "example_env 0 4 (\<lambda>f. True) False"
  let ?d1 = "[(False, D_partition [''2'', ''2'']), (False, D_in ''in.x'')]"
  let ?d2 = "[(True, D_partition [''3'']), (True, D_in ''in.x'')]"
  have a1: "accepted ?e ?d1" by code_simp
  have l1: "command_line ''lmp'' ?d1 = [''lmp'', ''-partition'', ''2'', ''2'', ''-in'', ''in.x'']"
    by code_simp
  have d1: "declared_worlds ?e ?d1 = [2, 2]" by code_simp
  have w2: "list_all (\<lambda>(short, d). well_formed d) ?d2" by code_simp
  have l2: "command_line ''lmp'' ?d2 = [''lmp'', ''-p'', ''3'', ''-i'', ''in.x'']"
    by code_simp
  have s2: "sum_list (declared_worlds ?e ?d2) \<noteq> int (comm_size ?e)" by code_simp
  have a3: "accepted ?e []" by code_simp
  have l3: "command_line ''lmp'' [] = [''lmp'']" by code_simp
  have d3: "declared_worlds ?e [] = [4]" by code_simp
  have x3: "existflag (universe (final (LAMMPS ?e [''lmp'']))) = 0" by code_simp
  from partition_consistent_or_pool_fatal [of ?d1 ?e "''lmp''", unfolded l1] a1 d1
  have c1: "\<forall>m. outcome (LAMMPS ?e [''lmp'', ''-partition'', ''2'', ''2'', ''-in'', ''in.x''])
                  \<noteq> Some (Fatal Universe_all m)"
    and c1': "procs_per_world (universe (final (LAMMPS ?e
              [''lmp'', ''-partition'', ''2'', ''2'', ''-in'', ''in.x'']))) = [2, 2]"
    by simp_all
  from partition_consistent_or_pool_fatal [of ?d2 ?e "''lmp''", unfolded l2] w2 s2
  have c2: "\<exists>m. outcome (LAMMPS ?e [''lmp'', ''-p'', ''3'', ''-i'', ''in.x''])
                  = Some (Fatal Universe_all m)"
    by blast
  from partition_consistent_or_pool_fatal [of "[]" ?e "''lmp''", unfolded l3] a3 d3
  have c3: "procs_per_world (universe (final (LAMMPS ?e [''lmp'']))) = [4]"
    by simp
  from a1 l1 c1 c1' w2 l2 c2 a3 l3 x3 c3 show ?thesis by blast
qed

text \<open>
  C8. When the loop over the switches has met \<^verbatim>\<open>-partition\<close> (\<open>existflag\<close> is
  set) and no \<^verbatim>\<open>-in\<close> (\<open>inflag\<close> is still 0), the constructor ends in
  \<^verbatim>\<open>error->universe_all\<close>, the pool-wide fatal error, and it does so before
  anything is opened: the trace holds the allocation of the three fundamental
  objects of lines 67 to 69 and nothing else, and the four streams are still
  null.
\<close>

theorem partition_without_in:
  assumes "existflag (universe (final (LAMMPS e arg))) \<noteq> 0"
    and "inflag (final (LAMMPS e arg)) = 0"
  shows "(\<exists>m. outcome (LAMMPS e arg) = Some (Fatal Universe_all m))
         \<and> trace (final (LAMMPS e arg))
             = [New memory_p Memory, New error_p Error, New universe_p Universe']
         \<and> uscreen (universe (final (LAMMPS e arg))) = None
         \<and> ulogfile (universe (final (LAMMPS e arg))) = None
         \<and> screen (final (LAMMPS e arg)) = None
         \<and> logfile (final (LAMMPS e arg)) = None"
  using LAMMPS_checked [of e arg] assms
  by (auto simp: checked_def fresh_def fundamental_def split: option.splits)

theorem partition_without_in_witness:
  "existflag (universe (final (LAMMPS (example_env 2 4 (\<lambda>f. True) False)
                                 [''lmp'', ''-partition'', ''2'', ''2'']))) \<noteq> 0
   \<and> inflag (final (LAMMPS (example_env 2 4 (\<lambda>f. True) False)
                       [''lmp'', ''-partition'', ''2'', ''2''])) = 0
   \<and> (\<exists>m. outcome (LAMMPS (example_env 2 4 (\<lambda>f. True) False)
                       [''lmp'', ''-partition'', ''2'', ''2''])
            = Some (Fatal Universe_all m))
   \<and> trace (final (LAMMPS (example_env 2 4 (\<lambda>f. True) False)
                      [''lmp'', ''-partition'', ''2'', ''2'']))
       = [New memory_p Memory, New error_p Error, New universe_p Universe']"
proof -
  let ?r = "LAMMPS (example_env 2 4 (\<lambda>f. True) False) [''lmp'', ''-partition'', ''2'', ''2'']"
  have h1: "existflag (universe (final ?r)) \<noteq> 0" by code_simp
  have h2: "inflag (final ?r) = 0" by code_simp
  from partition_without_in [OF h1 h2] h1 h2 show ?thesis by blast
qed

subsection \<open>The streams are set up before anything is allocated\<close>

lemma seq_append:
  "seq (fs @ gs) st = (case seq fs st of Inl x \<Rightarrow> Inl x | Inr s \<Rightarrow> seq gs s)"
  by (induction fs arbitrary: st) (simp_all split: sum.splits)

lemma LAMMPS_split:
  "LAMMPS e arg =
     (case startup_streams e arg of
        Inl x \<Rightarrow> Inl x
      | Inr s \<Rightarrow> seq [check_datatypes e, select_cuda e, cuda_message, allocate e,
                      help_and_quit] s)"
  using seq_append [of "[parse_switches e arg 1, check_universe e, universe_streams e arg,
          world_streams e arg]" "[check_datatypes e, select_cuda e, cuda_message, allocate e,
                      help_and_quit]" "start e"]
  by (simp add: LAMMPS_def startup_streams_def)

lemma startup_triple:
  assumes "triple (\<lambda>s. fresh e s \<and> checked e s) (seq fs) Q E"
    and "\<And>m s. fresh e s \<Longrightarrow> flags_ok s \<Longrightarrow> E (Fatal Universe_all m) s"
  shows "case outcome (seq (parse_switches e arg 1 # check_universe e # fs) (start e)) of
           None \<Rightarrow> Q (final (seq (parse_switches e arg 1 # check_universe e # fs) (start e)))
         | Some x \<Rightarrow> E x (final (seq (parse_switches e arg 1 # check_universe e # fs) (start e)))"
proof -
  have early: "fresh e s \<and> flags_ok s \<and> (\<exists>m. x = Fatal Universe_all m) \<Longrightarrow> E x s" for x s
    using assms(2) by auto
  have "triple (\<lambda>s. fresh e s \<and> parsed s) (parse_switches e arg 1)
          (\<lambda>s. fresh e s \<and> parsed s) E"
    by (rule triple_weaken [OF parse_switches_triple]) (simp_all add: early)
  moreover have "triple (\<lambda>s. fresh e s \<and> parsed s) (check_universe e)
          (\<lambda>s. fresh e s \<and> checked e s) E"
    by (rule triple_weaken [OF check_universe_triple]) (simp_all add: early)
  ultimately have "triple (\<lambda>s. fresh e s \<and> parsed s)
      (seq (parse_switches e arg 1 # check_universe e # fs)) Q E"
    using assms(1) by (blast intro: triple_seq_Cons)
  then show ?thesis
    by (rule triple_result) (simp add: start_fresh)
qed

lemma streams_inv:
  assumes "triple I (open_uscreen e arg) I E" and "triple I (open_ulogfile e arg) I E"
    and "triple I universe_others I E"
    and "triple I one_world_inherit I E" and "triple I (one_world_infile e arg) I E"
    and "triple I one_world_banner I E" and "triple I comm_split I E"
    and "triple I (world_screen e arg) I E" and "triple I (world_logfile e arg) I E"
    and "triple I (world_infile e arg) I E" and "triple I worlds_banner I E"
  shows "triple I (seq [universe_streams e arg, world_streams e arg]) I E"
proof -
  have "triple I (universe_streams e arg) I E"
    by (rule universe_streams_inv) (rule assms)+
  moreover have "triple I (world_streams e arg) I E"
    by (rule world_streams_inv) (rule assms)+
  ultimately show ?thesis
    by (intro triple_inv_seq) auto
qed

lemma quiet_universe:
  "triple quiet (open_uscreen e arg) quiet (\<lambda>x s. quiet s \<and> stream_exit x)"
  "triple quiet (open_ulogfile e arg) quiet (\<lambda>x s. quiet s \<and> stream_exit x)"
  "triple quiet universe_others quiet (\<lambda>x s. quiet s \<and> stream_exit x)"
  by (simp_all add: triple_def quiet_def stream_event_def stream_exit_def
        constructed_append constructed_simps open_uscreen_def open_ulogfile_def
        universe_others_def error_def emit_def universe_warn_def set_uscreen_def
        set_ulogfile_def Let_def)

lemma quiet_one_world:
  "triple quiet one_world_inherit quiet (\<lambda>x s. quiet s \<and> stream_exit x)"
  "triple quiet (one_world_infile e arg) quiet (\<lambda>x s. quiet s \<and> stream_exit x)"
  "triple quiet one_world_banner quiet (\<lambda>x s. quiet s \<and> stream_exit x)"
  by (simp_all add: triple_def quiet_def stream_event_def stream_exit_def
        constructed_append constructed_simps one_world_inherit_def
        one_world_infile_def sprintf_def one_world_banner_def error_def emit_def fprintf_def Let_def
        split: option.splits)

lemma quiet_many_worlds:
  "triple quiet comm_split quiet (\<lambda>x s. quiet s \<and> stream_exit x)"
  "triple quiet (world_screen e arg) quiet (\<lambda>x s. quiet s \<and> stream_exit x)"
  "triple quiet (world_logfile e arg) quiet (\<lambda>x s. quiet s \<and> stream_exit x)"
  "triple quiet (world_infile e arg) quiet (\<lambda>x s. quiet s \<and> stream_exit x)"
  "triple quiet worlds_banner quiet (\<lambda>x s. quiet s \<and> stream_exit x)"
  by (simp_all add: triple_def quiet_def stream_event_def stream_exit_def
        constructed_append constructed_simps comm_split_def world_screen_def sprintf_def
        world_logfile_def sprintf_def world_infile_def sprintf_def worlds_banner_def open_screen_def open_logfile_def
        error_def emit_def fprintf_def Let_def split: option.splits)

lemma check_datatypes_cases:
  "datatype_mismatch e \<Longrightarrow>
     \<exists>m. check_datatypes e st = Inl (Fatal All m, st)
         \<and> m \<noteq> ''Cannot use -cuda on without USER-CUDA installed''"
  "\<not> datatype_mismatch e \<Longrightarrow> check_datatypes e st = Inr st"
  unfolding datatype_mismatch_def check_datatypes_def error_def by auto

lemma post_create_trace: "trace (post_create st) = trace st @ post_create_events st"
  by (simp add: post_create_def post_create_events_def emit_def Let_def)

lemma create_trace:
  "trace (create e st) = trace st @ create_events e (ptrs st cuda_p \<noteq> None) (suffix st)"
  by (simp add: create_fields create_events_def)

lemma select_cuda_cases:
  "cudaflag st = 1 \<Longrightarrow> \<not> cuda_exists e \<Longrightarrow>
     select_cuda e st =
       Inl (Fatal All ''Cannot use -cuda on without USER-CUDA installed'',
            new_obj cuda_p Cuda st)"
  "\<not> (cudaflag st = 1 \<and> \<not> cuda_exists e) \<Longrightarrow>
     select_cuda e st =
       Inr (st\<lparr>ptrs := (ptrs st)(cuda_p := if cuda_active e st then Some Cuda else None),
               trace := trace st @
                 (if cudaflag st = 0 then []
                  else if cuda_exists e then [New cuda_p Cuda]
                  else [New cuda_p Cuda, Delete cuda_p])\<rparr>)"
  by (auto simp add: select_cuda_def cuda_active_def new_obj_def delete_obj_def set_null_def
        emit_def error_def Let_def)

lemma create_more:
  "suffix (create e st) = suffix st" "suffix_enable (create e st) = suffix_enable st"
  "helpflag (create e st) = helpflag st"
  using create_fields(4) [of st e] by (simp_all add: same_config_def)

lemma post_create_more:
  "helpflag (post_create st) = helpflag st"
  using post_create_fields(3) [of st] by (simp_all add: same_config_def)

lemma allocate_run:
  "allocate e st = Inr (final (allocate e st))"
  "trace (final (allocate e st)) =
     trace st @ (if citeflag st \<noteq> 0 then [New citeme_p CiteMe] else [])
       @ [New input_p Input]
       @ create_events e (ptrs st cuda_p \<noteq> None) (suffix st)
       @ post_create_events st"
  "ptrs (final (allocate e st)) cuda_p = ptrs st cuda_p"
  "ptrs (final (allocate e st)) citeme_p = (if citeflag st \<noteq> 0 then Some CiteMe else None)"
  "universe (final (allocate e st)) = universe st"
  "screen (final (allocate e st)) = screen st"
  "logfile (final (allocate e st)) = logfile st"
  "infile (final (allocate e st)) = infile st"
  "world_me (final (allocate e st)) = world_me st"
  "helpflag (final (allocate e st)) = helpflag st"
  by (simp_all add: allocate_def final_def Let_def post_create_trace create_trace
        post_create_fields create_fields create_more post_create_more post_create_events_def
        new_obj_def set_null_def emit_def)

lemma finish_run:
  assumes "\<not> (cudaflag st = 1 \<and> \<not> cuda_exists e)"
  shows "outcome (seq [select_cuda e, cuda_message, allocate e, help_and_quit] st) =
           (if helpflag st \<noteq> 0 then Some Done else None)"
    and "trace (final (seq [select_cuda e, cuda_message, allocate e, help_and_quit] st)) =
           trace st @ finish_events e st"
    and "ptrs (final (seq [select_cuda e, cuda_message, allocate e, help_and_quit] st)) cuda_p =
           (if cuda_active e st then Some Cuda else None)"
    and "ptrs (final (seq [select_cuda e, cuda_message, allocate e, help_and_quit] st)) citeme_p =
           (if citeflag st \<noteq> 0 then Some CiteMe else None)"
    and "same_config st (final (seq [select_cuda e, cuda_message, allocate e, help_and_quit] st))"
    and "universe (final (seq [select_cuda e, cuda_message, allocate e, help_and_quit] st)) =
           universe st"
    and "screen (final (seq [select_cuda e, cuda_message, allocate e, help_and_quit] st)) =
           screen st"
    and "logfile (final (seq [select_cuda e, cuda_message, allocate e, help_and_quit] st)) =
           logfile st"
    and "world_me (final (seq [select_cuda e, cuda_message, allocate e, help_and_quit] st)) =
           world_me st"
proof -
  define s1 where
    "s1 = st\<lparr>ptrs := (ptrs st)(cuda_p := if cuda_active e st then Some Cuda else None),
             trace := trace st @
               (if cudaflag st = 0 then []
                else if cuda_exists e then [New cuda_p Cuda]
                else [New cuda_p Cuda, Delete cuda_p])\<rparr>"
  define s2 where
    "s2 = (if cuda_active e st \<and> world_me st = 0
           then message ''USER-CUDA mode is enabled'' s1 else s1)"
  define s3 where "s3 = final (allocate e s2)"
  have a: "select_cuda e st = Inr s1"
    using assms by (simp add: select_cuda_cases(2) s1_def)
  have b: "cuda_message s1 = Inr s2"
    by (simp add: cuda_message_def s2_def s1_def)
  have c: "allocate e s2 = Inr s3"
    unfolding s3_def by (rule allocate_run)
  have run: "seq [select_cuda e, cuda_message, allocate e, help_and_quit] st = help_and_quit s3"
    by (simp add: a b c split: sum.splits)
  have s2f: "trace s2 = trace s1 @ (if cuda_active e st \<and> world_me st = 0
                                    then [Message ''USER-CUDA mode is enabled''] else [])"
    "ptrs s2 = ptrs s1" "citeflag s2 = citeflag st" "suffix s2 = suffix st"
    "suffix_enable s2 = suffix_enable st" "helpflag s2 = helpflag st"
    "universe s2 = universe st" "screen s2 = screen st" "logfile s2 = logfile st"
    "world_me s2 = world_me st" "same_config st s2"
    by (simp_all add: s2_def s1_def message_def emit_def same_config_def)
  have s3f: "trace s3 = trace st @
               (if cudaflag st = 0 then []
                else if cuda_exists e then [New cuda_p Cuda] else [New cuda_p Cuda, Delete cuda_p])
               @ (if cuda_active e st \<and> world_me st = 0
                  then [Message ''USER-CUDA mode is enabled''] else [])
               @ (if citeflag st \<noteq> 0 then [New citeme_p CiteMe] else [])
               @ [New input_p Input]
               @ create_events e (cuda_active e st) (suffix st)
               @ post_create_events st"
    "ptrs s3 cuda_p = (if cuda_active e st then Some Cuda else None)"
    "ptrs s3 citeme_p = (if citeflag st \<noteq> 0 then Some CiteMe else None)"
    "universe s3 = universe st" "screen s3 = screen st" "logfile s3 = logfile st"
    "world_me s3 = world_me st" "helpflag s3 = helpflag st"
    unfolding s3_def
    by (simp_all add: allocate_run(2-10) s2f post_create_events_def) (simp_all add: s1_def)
  have "same_config s2 s3"
    using frame_allocate [of e] unfolding s3_def frame_def by blast
  with s2f(11) have s3c: "same_config st s3"
    by (rule same_config_trans)
  show "outcome (seq [select_cuda e, cuda_message, allocate e, help_and_quit] st) =
          (if helpflag st \<noteq> 0 then Some Done else None)"
    by (simp only: run) (simp add: help_and_quit_def error_done_def outcome_def s3f)
  show "trace (final (seq [select_cuda e, cuda_message, allocate e, help_and_quit] st)) =
          trace st @ finish_events e st"
    by (simp only: run)
       (simp add: help_and_quit_def error_done_def final_def emit_def s3f finish_events_def)
  show "ptrs (final (seq [select_cuda e, cuda_message, allocate e, help_and_quit] st)) cuda_p =
          (if cuda_active e st then Some Cuda else None)"
    by (simp only: run) (simp add: help_and_quit_def error_done_def final_def emit_def s3f)
  show "ptrs (final (seq [select_cuda e, cuda_message, allocate e, help_and_quit] st)) citeme_p =
          (if citeflag st \<noteq> 0 then Some CiteMe else None)"
    by (simp only: run) (simp add: help_and_quit_def error_done_def final_def emit_def s3f)
  show "same_config st (final (seq [select_cuda e, cuda_message, allocate e, help_and_quit] st))"
    using s3c
    by (simp only: run)
       (simp add: help_and_quit_def error_done_def final_def emit_def same_config_def)
  show "universe (final (seq [select_cuda e, cuda_message, allocate e, help_and_quit] st)) =
          universe st"
    by (simp only: run) (simp add: help_and_quit_def error_done_def final_def emit_def s3f)
  show "screen (final (seq [select_cuda e, cuda_message, allocate e, help_and_quit] st)) =
          screen st"
    by (simp only: run) (simp add: help_and_quit_def error_done_def final_def emit_def s3f)
  show "logfile (final (seq [select_cuda e, cuda_message, allocate e, help_and_quit] st)) =
          logfile st"
    by (simp only: run) (simp add: help_and_quit_def error_done_def final_def emit_def s3f)
  show "world_me (final (seq [select_cuda e, cuda_message, allocate e, help_and_quit] st)) =
          world_me st"
    by (simp only: run) (simp add: help_and_quit_def error_done_def final_def emit_def s3f)
qed

lemma streams_config:
  assumes "\<And>st s. same_config st s \<Longrightarrow> I st \<Longrightarrow> I s"
  shows "triple I (seq [universe_streams e arg, world_streams e arg]) I (\<lambda>x. I)"
  by (rule streams_inv)
     (rule triple_config [OF _ assms], (rule frame_universe frame_one_world
        frame_many_worlds), assumption, assumption)+

lemma startup_streams_quiet:
  "case outcome (startup_streams e arg) of
     None \<Rightarrow> checked e (final (startup_streams e arg)) \<and> quiet (final (startup_streams e arg))
   | Some x \<Rightarrow>
       quiet (final (startup_streams e arg)) \<and> stream_exit x"
  unfolding startup_streams_def
proof (rule startup_triple)
  have "triple (\<lambda>s. checked e s \<and> quiet s) (seq [universe_streams e arg, world_streams e arg])
          (\<lambda>s. checked e s \<and> quiet s)
          (\<lambda>x s. checked e s \<and> quiet s \<and> stream_exit x)"
  proof (rule triple_conj)
    show "triple (checked e) (seq [universe_streams e arg, world_streams e arg]) (checked e)
            (\<lambda>x. checked e)"
      by (rule streams_config) (rule checked_config)
    show "triple quiet (seq [universe_streams e arg, world_streams e arg]) quiet
            (\<lambda>x s. quiet s \<and> stream_exit x)"
      by (rule streams_inv) (rule quiet_universe quiet_one_world quiet_many_worlds)+
  qed
  then show "triple (\<lambda>s. fresh e s \<and> checked e s)
          (seq [universe_streams e arg, world_streams e arg])
          (\<lambda>s. checked e s \<and> quiet s)
          (\<lambda>x s. quiet s \<and> stream_exit x)"
    by (rule triple_weaken)
       (auto simp: fresh_def quiet_def fundamental_def stream_event_def constructed_def
          start_def)
qed (auto simp: fresh_def quiet_def fundamental_def stream_event_def constructed_def
       start_def stream_exit_def)

lemma quiet_events: "quiet s \<Longrightarrow> ev \<in> set (trace s) \<Longrightarrow> stream_event ev"
  by (simp add: quiet_def list_all_iff)

lemma quiet_constructed:
  "quiet s \<Longrightarrow> constructed (trace s) = [memory_p, error_p, universe_p]"
  by (simp add: quiet_def)

lemma stream_exit_other: "stream_exit x \<Longrightarrow> x \<noteq> Done \<and> x \<noteq> Fatal All m"
  by (auto simp: stream_exit_def)

subsection \<open>The datatype settings\<close>

text \<open>
  C9, as the code has it. When one of the tests of the datatype settings
  fails, the constructor never completes (it neither returns nor ends in
  \<^verbatim>\<open>error->done\<close>), and no subsystem object is constructed before it ends:
  the only objects ever allocated are the three fundamental ones of lines 67
  to 69. Once the switches, the checks and the streams have gone through, the
  run is that of the tests of lines 361 to 389: it ends there, at the first
  test that fails, in \<^verbatim>\<open>error->all\<close>. That is the error of one world
  (\<open>scope_of All = World\<close>), raised after the communicator has been split: it
  is not \<^verbatim>\<open>error->universe_all\<close>, the error of the pool.
\<close>

theorem datatype_mismatch_is_world_fatal:
  assumes "datatype_mismatch e"
  shows "constructed (trace (final (LAMMPS e arg))) = [memory_p, error_p, universe_p]
         \<and> outcome (LAMMPS e arg) \<noteq> None
         \<and> outcome (LAMMPS e arg) \<noteq> Some Done
         \<and> (outcome (startup_streams e arg) = None \<longrightarrow>
              (\<exists>m. outcome (LAMMPS e arg) = Some (Fatal All m))
              \<and> LAMMPS e arg = check_datatypes e (final (startup_streams e arg))
              \<and> final (LAMMPS e arg) = final (startup_streams e arg))"
proof (cases "startup_streams e arg")
  case (Inl b)
  obtain x s where b: "b = (x, s)" by (cases b)
  from Inl b have r: "LAMMPS e arg = Inl (x, s)"
    by (simp add: LAMMPS_split)
  from startup_streams_quiet [of e arg] Inl b
  have "quiet s" and "x \<noteq> Done"
    by (auto simp: outcome_def final_def stream_exit_def)
  with r Inl b show ?thesis
    by (auto simp: outcome_def final_def quiet_constructed)
next
  case (Inr s)
  from check_datatypes_cases(1) [OF assms, of s]
  obtain m where m: "check_datatypes e s = Inl (Fatal All m, s)" by blast
  with Inr have r: "LAMMPS e arg = Inl (Fatal All m, s)"
    by (simp add: LAMMPS_split)
  from startup_streams_quiet [of e arg] Inr have "quiet s"
    by (simp add: outcome_def final_def)
  with r m Inr show ?thesis
    by (simp add: outcome_def final_def quiet_constructed)
qed

theorem datatype_mismatch_is_world_fatal_witness:
  "datatype_mismatch ((example_env 0 1 (\<lambda>f. True) False)\<lparr>sizeof_bigint := 4\<rparr>)
   \<and> outcome (startup_streams ((example_env 0 1 (\<lambda>f. True) False)\<lparr>sizeof_bigint := 4\<rparr>)
                [''lmp'']) = None
   \<and> constructed (trace (final (LAMMPS ((example_env 0 1 (\<lambda>f. True) False)\<lparr>sizeof_bigint := 4\<rparr>)
                                   [''lmp''])))
       = [memory_p, error_p, universe_p]
   \<and> (\<exists>m. outcome (LAMMPS ((example_env 0 1 (\<lambda>f. True) False)\<lparr>sizeof_bigint := 4\<rparr>)
                       [''lmp'']) = Some (Fatal All m))"
proof -
  let ?e = "(example_env 0 1 (\<lambda>f. True) False)\<lparr>sizeof_bigint := 4\<rparr>"
  have h: "datatype_mismatch ?e" by code_simp
  have s: "outcome (startup_streams ?e [''lmp'']) = None" by code_simp
  from datatype_mismatch_is_world_fatal [OF h, of "[''lmp'']"] h s show ?thesis by blast
qed

text \<open>
  The claim has the mismatch reported as a pool-wide fatal condition. In a
  run of two worlds, the process of pool rank 1 (rank 0 of world 1) ends in
  \<^verbatim>\<open>error->all\<close>, the error of its world.
\<close>

theorem datatype_mismatch_not_pool_wide:
  "outcome (LAMMPS ((example_env 1 2 (\<lambda>f. True) False)\<lparr>sizeof_bigint := 4\<rparr>)
              [''lmp'', ''-partition'', ''1'', ''1'', ''-in'', ''in.x''])
     = Some (Fatal All ''MPI_LMP_BIGINT and bigint in lmptype.h are not compatible'')
   \<and> scope_of All = World
   \<and> iworld (universe (final (LAMMPS ((example_env 1 2 (\<lambda>f. True) False)\<lparr>sizeof_bigint := 4\<rparr>)
              [''lmp'', ''-partition'', ''1'', ''1'', ''-in'', ''in.x'']))) = 1"
  by code_simp

subsection \<open>The CUDA class\<close>

lemma quiet_absent:
  assumes "quiet s"
  shows "m \<noteq> memory_p \<Longrightarrow> m \<noteq> error_p \<Longrightarrow> m \<noteq> universe_p \<Longrightarrow> New m c \<notin> set (trace s)"
    and "Message str \<notin> set (trace s)"
    and "m \<noteq> memory_p \<Longrightarrow> m \<noteq> error_p \<Longrightarrow> m \<noteq> universe_p \<Longrightarrow> ptrs s m = None"
  using quiet_events [OF assms, of "New m c"] quiet_events [OF assms, of "Message str"] assms
  by (auto simp: stream_event_def quiet_def)

lemma LAMMPS_stopped:
  assumes "startup_streams e arg = Inl (x, s)"
  shows "LAMMPS e arg = Inl (x, s)"
    and "quiet s" and "stream_exit x" and "x \<noteq> Done"
  using assms startup_streams_quiet [of e arg]
  by (auto simp: LAMMPS_split outcome_def final_def stream_exit_def)

lemma LAMMPS_mismatch:
  assumes "startup_streams e arg = Inr s" and "datatype_mismatch e"
  shows "\<exists>m. LAMMPS e arg = Inl (Fatal All m, s)
             \<and> m \<noteq> ''Cannot use -cuda on without USER-CUDA installed''"
    and "quiet s"
  using assms startup_streams_quiet [of e arg] check_datatypes_cases(1) [OF assms(2), of s]
  by (auto simp: LAMMPS_split outcome_def final_def)

lemma LAMMPS_finish:
  assumes "startup_streams e arg = Inr s" and "\<not> datatype_mismatch e"
  shows "LAMMPS e arg = seq [select_cuda e, cuda_message, allocate e, help_and_quit] s"
    and "quiet s" and "checked e s"
  using assms startup_streams_quiet [of e arg] check_datatypes_cases(2) [OF assms(2), of s]
  by (auto simp: LAMMPS_split outcome_def final_def)




subsection \<open>The statements after the streams\<close>

lemma triple_any: "triple P f (\<lambda>s. True) (\<lambda>x s. True)"
  by (simp add: triple_def split: sum.splits prod.splits)

lemma world_rank_one_world:
  "triple (\<lambda>s. existflag (universe s) = 0) one_world_inherit
     (\<lambda>s. existflag (universe s) = 0 \<and> world_rank_set s) (\<lambda>x s. True)"
  "triple (\<lambda>s. existflag (universe s) = 0 \<and> world_rank_set s) (one_world_infile e arg)
     (\<lambda>s. existflag (universe s) = 0 \<and> world_rank_set s) (\<lambda>x s. True)"
  "triple (\<lambda>s. existflag (universe s) = 0 \<and> world_rank_set s) one_world_banner
     (\<lambda>s. existflag (universe s) = 0 \<and> world_rank_set s) (\<lambda>x s. True)"
  by (simp_all add: triple_def world_rank_set_def one_world_inherit_def one_world_infile_def sprintf_def
        one_world_banner_def error_def emit_def fprintf_def Let_def split: option.splits)

lemma world_rank_many_worlds:
  "triple (\<lambda>s. existflag (universe s) \<noteq> 0) comm_split
     (\<lambda>s. existflag (universe s) \<noteq> 0 \<and> world_rank_set s) (\<lambda>x s. True)"
  "triple (\<lambda>s. existflag (universe s) \<noteq> 0 \<and> world_rank_set s) (world_screen e arg)
     (\<lambda>s. existflag (universe s) \<noteq> 0 \<and> world_rank_set s) (\<lambda>x s. True)"
  "triple (\<lambda>s. existflag (universe s) \<noteq> 0 \<and> world_rank_set s) (world_logfile e arg)
     (\<lambda>s. existflag (universe s) \<noteq> 0 \<and> world_rank_set s) (\<lambda>x s. True)"
  "triple (\<lambda>s. existflag (universe s) \<noteq> 0 \<and> world_rank_set s) (world_infile e arg)
     (\<lambda>s. existflag (universe s) \<noteq> 0 \<and> world_rank_set s) (\<lambda>x s. True)"
  "triple (\<lambda>s. existflag (universe s) \<noteq> 0 \<and> world_rank_set s) worlds_banner
     (\<lambda>s. existflag (universe s) \<noteq> 0 \<and> world_rank_set s) (\<lambda>x s. True)"
  by (simp_all add: triple_def world_rank_set_def comm_split_def world_screen_def sprintf_def
        world_logfile_def sprintf_def world_infile_def sprintf_def worlds_banner_def open_screen_def open_logfile_def
        error_def emit_def fprintf_def Let_def split: option.splits)

lemma world_streams_rank:
  "triple (\<lambda>s. True) (world_streams e arg) world_rank_set (\<lambda>x s. True)"
proof -
  have "triple (\<lambda>s. existflag (universe s) = 0) (one_world e arg)
          (\<lambda>s. existflag (universe s) = 0 \<and> world_rank_set s) (\<lambda>x s. True)"
    unfolding one_world_def
    by (intro triple_seq_Cons [OF world_rank_one_world(1)]
          triple_seq_Cons [OF world_rank_one_world(2)]
          triple_seq_Cons [OF world_rank_one_world(3)] triple_seq_Nil)
  then have a: "triple (\<lambda>s. True \<and> existflag (universe s) = 0) (one_world e arg)
                  world_rank_set (\<lambda>x s. True)"
    by (rule triple_weaken) simp_all
  have "triple (\<lambda>s. existflag (universe s) \<noteq> 0) (many_worlds e arg)
          (\<lambda>s. existflag (universe s) \<noteq> 0 \<and> world_rank_set s) (\<lambda>x s. True)"
    unfolding many_worlds_def
    by (intro triple_seq_Cons [OF world_rank_many_worlds(1)]
          triple_seq_Cons [OF world_rank_many_worlds(2)]
          triple_seq_Cons [OF world_rank_many_worlds(3)]
          triple_seq_Cons [OF world_rank_many_worlds(4)]
          triple_seq_Cons [OF world_rank_many_worlds(5)] triple_seq_Nil)
  then have b: "triple (\<lambda>s. True \<and> \<not> existflag (universe s) = 0) (many_worlds e arg)
                  world_rank_set (\<lambda>x s. True)"
    by (rule triple_weaken) simp_all
  show ?thesis
    unfolding world_streams_if by (rule triple_if [OF a b])
qed

lemma startup_streams_rank:
  "outcome (startup_streams e arg) = None \<Longrightarrow> world_rank_set (final (startup_streams e arg))"
proof -
  have "triple (\<lambda>s. fresh e s \<and> checked e s)
          (seq [universe_streams e arg, world_streams e arg]) world_rank_set (\<lambda>x s. True)"
  proof (rule triple_seq_Cons)
    show "triple (\<lambda>s. fresh e s \<and> checked e s) (universe_streams e arg) (\<lambda>s. True)
            (\<lambda>x s. True)"
      by (rule triple_any)
    show "triple (\<lambda>s. True) (seq [world_streams e arg]) world_rank_set (\<lambda>x s. True)"
      by (rule triple_seq_Cons [OF world_streams_rank triple_seq_Nil])
  qed
  from startup_triple [OF this, of arg]
  show "outcome (startup_streams e arg) = None \<Longrightarrow>
        world_rank_set (final (startup_streams e arg))"
    by (simp add: startup_streams_def)
qed


lemma LAMMPS_phases [case_names stopped mismatch absent finished]:
  obtains x s0 where "startup_streams e arg = Inl (x, s0)"
      and "LAMMPS e arg = Inl (x, s0)" and "stream_exit x" and "x \<noteq> Done"
    | s0 m where "startup_streams e arg = Inr s0" and "datatype_mismatch e"
      and "LAMMPS e arg = Inl (Fatal All m, s0)"
      and "m \<noteq> ''Cannot use -cuda on without USER-CUDA installed''"
    | s0 where "startup_streams e arg = Inr s0" and "\<not> datatype_mismatch e"
      and "cudaflag s0 = 1" and "\<not> cuda_exists e"
      and "LAMMPS e arg =
             Inl (Fatal All ''Cannot use -cuda on without USER-CUDA installed'',
                  new_obj cuda_p Cuda s0)"
    | s0 where "startup_streams e arg = Inr s0" and "\<not> datatype_mismatch e"
      and "\<not> (cudaflag s0 = 1 \<and> \<not> cuda_exists e)"
      and "LAMMPS e arg = seq [select_cuda e, cuda_message, allocate e, help_and_quit] s0"
proof (cases "startup_streams e arg")
  case (Inl b)
  obtain x s0 where b: "b = (x, s0)" by (cases b)
  from LAMMPS_stopped [OF Inl [unfolded b]] that(1) Inl b show ?thesis by blast
next
  case (Inr s0)
  show ?thesis
  proof (cases "datatype_mismatch e")
    case True
    from LAMMPS_mismatch(1) [OF Inr True] that(2) Inr True show ?thesis by blast
  next
    case False
    note f = LAMMPS_finish(1) [OF Inr False]
    show ?thesis
    proof (cases "cudaflag s0 = 1 \<and> \<not> cuda_exists e")
      case True
      then have "LAMMPS e arg =
          Inl (Fatal All ''Cannot use -cuda on without USER-CUDA installed'',
               new_obj cuda_p Cuda s0)"
        by (simp add: f select_cuda_cases(1))
      with that(3) Inr False True show ?thesis by blast
    next
      case nf: False
      from that(4) Inr False nf f show ?thesis by blast
    qed
  qed
qed

lemma finish_events_other: "ev \<in> set (finish_events e st) \<Longrightarrow> \<not> stream_event ev"
  by (auto simp: finish_events_def create_events_def post_create_events_def stream_event_def
        split: if_splits)

lemma LAMMPS_after_streams:
  "\<exists>t. trace (final (LAMMPS e arg)) = trace (final (startup_streams e arg)) @ t
       \<and> (\<forall>ev \<in> set t. \<not> stream_event ev)"
  "same_config (final (startup_streams e arg)) (final (LAMMPS e arg))"
  "universe (final (LAMMPS e arg)) = universe (final (startup_streams e arg))"
  "screen (final (LAMMPS e arg)) = screen (final (startup_streams e arg))"
  "logfile (final (LAMMPS e arg)) = logfile (final (startup_streams e arg))"
  "world_me (final (LAMMPS e arg)) = world_me (final (startup_streams e arg))"
proof -
  have "(\<exists>t. trace (final (LAMMPS e arg)) = trace (final (startup_streams e arg)) @ t
          \<and> (\<forall>ev \<in> set t. \<not> stream_event ev))
        \<and> same_config (final (startup_streams e arg)) (final (LAMMPS e arg))
        \<and> universe (final (LAMMPS e arg)) = universe (final (startup_streams e arg))
        \<and> screen (final (LAMMPS e arg)) = screen (final (startup_streams e arg))
        \<and> logfile (final (LAMMPS e arg)) = logfile (final (startup_streams e arg))
        \<and> world_me (final (LAMMPS e arg)) = world_me (final (startup_streams e arg))"
  proof (cases rule: LAMMPS_phases [of e arg])
    case (stopped x s0)
    then show ?thesis by (simp add: final_def same_config_def)
  next
    case (mismatch s0 m)
    then show ?thesis by (simp add: final_def same_config_def)
  next
    case (absent s0)
    then show ?thesis
      by (simp add: final_def same_config_def new_obj_def emit_def stream_event_def)
  next
    case (finished s0)
    define t where "t = seq [select_cuda e, cuda_message, allocate e, help_and_quit] s0"
    note g = finish_run [OF finished(3), folded t_def]
    have r: "LAMMPS e arg = t" by (simp only: finished(4) t_def)
    have s: "final (startup_streams e arg) = s0" by (simp add: finished(1) final_def)
    show ?thesis
      unfolding r s using g(5) by (simp add: g(2,6,7,8,9) finish_events_other)
  qed
  then show
    "\<exists>t. trace (final (LAMMPS e arg)) = trace (final (startup_streams e arg)) @ t
       \<and> (\<forall>ev \<in> set t. \<not> stream_event ev)"
    "same_config (final (startup_streams e arg)) (final (LAMMPS e arg))"
    "universe (final (LAMMPS e arg)) = universe (final (startup_streams e arg))"
    "screen (final (LAMMPS e arg)) = screen (final (startup_streams e arg))"
    "logfile (final (LAMMPS e arg)) = logfile (final (startup_streams e arg))"
    "world_me (final (LAMMPS e arg)) = world_me (final (startup_streams e arg))"
    by blast+
qed

lemma LAMMPS_outcome:
  "outcome (startup_streams e arg) = Some x \<Longrightarrow> outcome (LAMMPS e arg) = Some x"
  "outcome (startup_streams e arg) = None \<Longrightarrow>
     outcome (LAMMPS e arg) = None \<or> outcome (LAMMPS e arg) = Some Done
     \<or> (\<exists>m. outcome (LAMMPS e arg) = Some (Fatal All m))"
proof -
  show "outcome (startup_streams e arg) = Some x \<Longrightarrow> outcome (LAMMPS e arg) = Some x"
    by (cases rule: LAMMPS_phases [of e arg]) (simp_all add: outcome_def)
  show "outcome (startup_streams e arg) = None \<Longrightarrow>
     outcome (LAMMPS e arg) = None \<or> outcome (LAMMPS e arg) = Some Done
     \<or> (\<exists>m. outcome (LAMMPS e arg) = Some (Fatal All m))"
  proof (cases rule: LAMMPS_phases [of e arg])
    case (finished s0)
    define t where "t = seq [select_cuda e, cuda_message, allocate e, help_and_quit] s0"
    note g = finish_run [OF finished(3), folded t_def]
    have r: "LAMMPS e arg = t" by (simp only: finished(4) t_def)
    show ?thesis unfolding r by (simp add: g(1))
  qed (simp_all add: outcome_def)
qed

subsection \<open>The notice of the CUDA mode\<close>

lemma startup_stopped_quiet:
  "startup_streams e arg = Inl (x, s0) \<Longrightarrow> quiet s0"
  "startup_streams e arg = Inr s0 \<Longrightarrow> quiet s0"
  "startup_streams e arg = Inr s0 \<Longrightarrow> checked e s0"
  "startup_streams e arg = Inr s0 \<Longrightarrow> world_rank_set s0"
  using startup_streams_quiet [of e arg] startup_streams_rank [of e arg]
  by (auto simp: outcome_def final_def)

text \<open>
  C7, as the code has it. The notice "USER-CUDA mode is enabled" is given by
  the processes that have a CUDA object and rank 0 in their world
  (\<^verbatim>\<open>MPI_Comm_rank(world,&me)\<close>, line 409), by those only, and once; every such
  process that completes the constructor has given it. Without a
  \<^verbatim>\<open>-partition\<close> switch the world is the pool, and the notice then comes from
  the process of pool rank 0 alone.
\<close>

theorem cuda_notice_by_world_rank_0:
  "(let r = LAMMPS e arg; s = final r; notice = Message ''USER-CUDA mode is enabled''
    in (notice \<in> set (trace s) \<longrightarrow> ptrs s cuda_p \<noteq> None \<and> world_me s = 0)
       \<and> (outcome r = None \<or> outcome r = Some Done \<longrightarrow>
            (notice \<in> set (trace s)) = (ptrs s cuda_p \<noteq> None \<and> world_me s = 0)
            \<and> world_me s = (if existflag (universe s) = 0 then me (universe s)
                             else comm_split_rank (universe s)))
       \<and> (notice \<in> set (trace s) \<and> existflag (universe s) = 0 \<longrightarrow> me (universe s) = 0)
       \<and> count_list (trace s) notice \<le> 1)"
proof (cases rule: LAMMPS_phases [of e arg])
  case (stopped x s0)
  note q = quiet_absent(2) [OF startup_stopped_quiet(1) [OF stopped(1)]]
  show ?thesis
    by (simp add: Let_def stopped(2,4) outcome_def final_def q count_list_0_iff)
next
  case (mismatch s0 m)
  note q = quiet_absent(2) [OF startup_stopped_quiet(2) [OF mismatch(1)]]
  show ?thesis
    by (simp add: Let_def mismatch(3) outcome_def final_def q count_list_0_iff)
next
  case (absent s0)
  note q = quiet_absent(2) [OF startup_stopped_quiet(2) [OF absent(1)]]
  show ?thesis
    by (simp add: Let_def absent(5) outcome_def final_def q new_obj_def emit_def
          count_list_0_iff)
next
  case (finished s0)
  define t where "t = seq [select_cuda e, cuda_message, allocate e, help_and_quit] s0"
  note g = finish_run [OF finished(3), folded t_def]
  have r: "LAMMPS e arg = t" by (simp only: finished(4) t_def)
  note q = quiet_absent(2) [OF startup_stopped_quiet(2) [OF finished(1)]]
  from startup_stopped_quiet(4) [OF finished(1)]
  have w: "world_me s0 = (if existflag (universe s0) = 0 then me (universe s0)
                          else comm_split_rank (universe s0))"
    by (simp add: world_rank_set_def)
  have n: "count_list (trace s0) (Message ''USER-CUDA mode is enabled'') = 0"
    by (simp add: count_list_0_iff q)
  show ?thesis
    unfolding Let_def r
    using w
    by (simp add: g(1,2,3,6,9) q n finish_events_def create_events_def
          post_create_events_def)
qed

theorem cuda_notice_by_world_rank_0_witness:
  "Message ''USER-CUDA mode is enabled''
     \<in> set (trace (final (LAMMPS (example_env 2 4 (\<lambda>f. True) True)
                       [''lmp'', ''-partition'', ''2'', ''2'', ''-in'', ''in.x''])))
   \<and> outcome (LAMMPS (example_env 2 4 (\<lambda>f. True) True)
                [''lmp'', ''-partition'', ''2'', ''2'', ''-in'', ''in.x'']) = None
   \<and> ptrs (final (LAMMPS (example_env 2 4 (\<lambda>f. True) True)
                [''lmp'', ''-partition'', ''2'', ''2'', ''-in'', ''in.x''])) cuda_p \<noteq> None
   \<and> world_me (final (LAMMPS (example_env 2 4 (\<lambda>f. True) True)
                [''lmp'', ''-partition'', ''2'', ''2'', ''-in'', ''in.x''])) = 0
   \<and> Message ''USER-CUDA mode is enabled''
       \<in> set (trace (final (LAMMPS (example_env 0 4 (\<lambda>f. True) True) [''lmp''])))
   \<and> existflag (universe (final (LAMMPS (example_env 0 4 (\<lambda>f. True) True) [''lmp'']))) = 0
   \<and> me (universe (final (LAMMPS (example_env 0 4 (\<lambda>f. True) True) [''lmp'']))) = 0"
proof -
  let ?r1 = "LAMMPS (example_env 2 4 (\<lambda>f. True) True)
               [''lmp'', ''-partition'', ''2'', ''2'', ''-in'', ''in.x'']"
  let ?r2 = "LAMMPS (example_env 0 4 (\<lambda>f. True) True) [''lmp'']"
  have h1: "Message ''USER-CUDA mode is enabled'' \<in> set (trace (final ?r1))" by code_simp
  have h2: "outcome ?r1 = None" by code_simp
  have h3: "Message ''USER-CUDA mode is enabled'' \<in> set (trace (final ?r2))" by code_simp
  have h4: "existflag (universe (final ?r2)) = 0" by code_simp
  from cuda_notice_by_world_rank_0 [of "example_env 2 4 (\<lambda>f. True) True"
      "[''lmp'', ''-partition'', ''2'', ''2'', ''-in'', ''in.x'']", unfolded Let_def] h1
  have c1: "ptrs (final ?r1) cuda_p \<noteq> None" and c2: "world_me (final ?r1) = 0"
    by blast+
  from cuda_notice_by_world_rank_0 [of "example_env 0 4 (\<lambda>f. True) True" "[''lmp'']",
      unfolded Let_def] h3 h4
  have c3: "me (universe (final ?r2)) = 0"
    by blast
  from h1 h2 c1 c2 h3 h4 c3 show ?thesis by blast
qed

text \<open>
  The claim has the process of pool rank 0 and no other give the notice. In a
  run of two worlds of two processes each, with USER-CUDA installed, the
  process of pool rank 2 is rank 0 of world 1 and gives it.
\<close>

theorem cuda_notice_not_only_pool_rank_0:
  "me (universe (final (LAMMPS (example_env 2 4 (\<lambda>f. True) True)
                          [''lmp'', ''-partition'', ''2'', ''2'', ''-in'', ''in.x'']))) = 2
   \<and> world_me (final (LAMMPS (example_env 2 4 (\<lambda>f. True) True)
                          [''lmp'', ''-partition'', ''2'', ''2'', ''-in'', ''in.x''])) = 0
   \<and> Message ''USER-CUDA mode is enabled''
        \<in> set (trace (final (LAMMPS (example_env 2 4 (\<lambda>f. True) True)
                          [''lmp'', ''-partition'', ''2'', ''2'', ''-in'', ''in.x''])))"
  by code_simp

subsection \<open>The universe logfile after -help\<close>









lemma LAMMPS_fopen:
  "(Fopen t n ok \<in> set (trace (final (LAMMPS e arg)))) =
   (Fopen t n ok \<in> set (trace (final (startup_streams e arg))))"
proof -
  from LAMMPS_after_streams(1) [of e arg] obtain evs
    where t: "trace (final (LAMMPS e arg)) = trace (final (startup_streams e arg)) @ evs"
      and o: "\<forall>ev \<in> set evs. \<not> stream_event ev"
    by blast
  have "stream_event (Fopen t n ok)" by (simp add: stream_event_def)
  with o have "Fopen t n ok \<notin> set evs" by blast
  with t show ?thesis by simp
qed




subsection \<open>Who opens the streams\<close>

lemma universe_streams_opens:
  "triple (\<lambda>s. trace s = fundamental) (universe_streams e arg)
     (\<lambda>s. pool_opens s \<and> no_world_opens s \<and> others_universe s)
     (\<lambda>x s. pool_opens s \<and> no_world_opens s)"
  by (simp add: triple_def pool_opens_def no_world_opens_def others_universe_def
        universe_streams_def universe_rank0_def universe_others_def open_uscreen_def
        open_ulogfile_def error_def emit_def universe_warn_def set_uscreen_def
        set_ulogfile_def Let_def fundamental_def)

lemma pool_opens_one_world:
  "triple (\<lambda>s. pool_opens s \<and> others_universe s) one_world_inherit
     (\<lambda>s. pool_opens s \<and> others_universe s) (\<lambda>x s. pool_opens s \<and> others_universe s)"
  "triple (\<lambda>s. pool_opens s \<and> others_universe s) (one_world_infile e arg)
     (\<lambda>s. pool_opens s \<and> others_universe s) (\<lambda>x s. pool_opens s \<and> others_universe s)"
  "triple (\<lambda>s. pool_opens s \<and> others_universe s) one_world_banner
     (\<lambda>s. pool_opens s \<and> others_universe s) (\<lambda>x s. pool_opens s \<and> others_universe s)"
  by (simp_all add: triple_def pool_opens_def others_universe_def one_world_inherit_def
        one_world_infile_def sprintf_def one_world_banner_def error_def emit_def fprintf_def Let_def
        split: option.splits)

lemma pool_opens_many_worlds:
  "triple (\<lambda>s. pool_opens s \<and> others_universe s) comm_split
     (\<lambda>s. pool_opens s \<and> others_universe s) (\<lambda>x s. pool_opens s \<and> others_universe s)"
  "triple (\<lambda>s. pool_opens s \<and> others_universe s) (world_screen e arg)
     (\<lambda>s. pool_opens s \<and> others_universe s) (\<lambda>x s. pool_opens s \<and> others_universe s)"
  "triple (\<lambda>s. pool_opens s \<and> others_universe s) (world_logfile e arg)
     (\<lambda>s. pool_opens s \<and> others_universe s) (\<lambda>x s. pool_opens s \<and> others_universe s)"
  "triple (\<lambda>s. pool_opens s \<and> others_universe s) (world_infile e arg)
     (\<lambda>s. pool_opens s \<and> others_universe s) (\<lambda>x s. pool_opens s \<and> others_universe s)"
  "triple (\<lambda>s. pool_opens s \<and> others_universe s) worlds_banner
     (\<lambda>s. pool_opens s \<and> others_universe s) (\<lambda>x s. pool_opens s \<and> others_universe s)"
  by (simp_all add: triple_def pool_opens_def others_universe_def comm_split_def
        world_screen_def sprintf_def world_logfile_def sprintf_def world_infile_def sprintf_def worlds_banner_def
        open_screen_def open_logfile_def error_def emit_def fprintf_def Let_def
        split: option.splits)

lemma world_opens_one_world:
  "triple (\<lambda>s. no_world_opens s \<and> existflag (universe s) = 0) one_world_inherit
     (\<lambda>s. no_world_opens s \<and> others_world s \<and> existflag (universe s) = 0)
     (\<lambda>x. world_opens)"
  "triple (\<lambda>s. no_world_opens s \<and> others_world s \<and> existflag (universe s) = 0)
     (one_world_infile e arg)
     (\<lambda>s. no_world_opens s \<and> others_world s \<and> existflag (universe s) = 0)
     (\<lambda>x. world_opens)"
  "triple (\<lambda>s. no_world_opens s \<and> others_world s \<and> existflag (universe s) = 0)
     one_world_banner
     (\<lambda>s. no_world_opens s \<and> others_world s \<and> existflag (universe s) = 0)
     (\<lambda>x. world_opens)"
  by (simp_all add: triple_def no_world_opens_def world_opens_def others_world_def
        one_world_inherit_def one_world_infile_def sprintf_def one_world_banner_def error_def emit_def
        fprintf_def Let_def split: option.splits)

lemma world_opens_many_worlds:
  "triple (\<lambda>s. no_world_opens s \<and> existflag (universe s) \<noteq> 0) comm_split
     (\<lambda>s. no_world_opens s \<and> existflag (universe s) \<noteq> 0) (\<lambda>x. world_opens)"
  "triple (\<lambda>s. no_world_opens s \<and> existflag (universe s) \<noteq> 0) (world_screen e arg)
     (\<lambda>s. world_opens s \<and> existflag (universe s) \<noteq> 0
          \<and> (world_me s \<noteq> 0 \<longrightarrow> screen s = None))
     (\<lambda>x. world_opens)"
  "triple (\<lambda>s. world_opens s \<and> existflag (universe s) \<noteq> 0
              \<and> (world_me s \<noteq> 0 \<longrightarrow> screen s = None))
     (world_logfile e arg)
     (\<lambda>s. world_opens s \<and> others_world s \<and> existflag (universe s) \<noteq> 0)
     (\<lambda>x. world_opens)"
  "triple (\<lambda>s. world_opens s \<and> others_world s \<and> existflag (universe s) \<noteq> 0)
     (world_infile e arg)
     (\<lambda>s. world_opens s \<and> others_world s \<and> existflag (universe s) \<noteq> 0)
     (\<lambda>x. world_opens)"
  "triple (\<lambda>s. world_opens s \<and> others_world s \<and> existflag (universe s) \<noteq> 0)
     worlds_banner
     (\<lambda>s. world_opens s \<and> others_world s \<and> existflag (universe s) \<noteq> 0)
     (\<lambda>x. world_opens)"
  by (simp_all add: triple_def no_world_opens_def world_opens_def others_world_def
        comm_split_def world_screen_def sprintf_def world_logfile_def sprintf_def world_infile_def sprintf_def worlds_banner_def
        open_screen_def open_logfile_def error_def emit_def fprintf_def Let_def
        split: option.splits)

lemma world_streams_opens:
  "triple no_world_opens (world_streams e arg) (\<lambda>s. world_opens s \<and> others_world s)
     (\<lambda>x. world_opens)"
proof -
  have "triple (\<lambda>s. no_world_opens s \<and> existflag (universe s) = 0) (one_world e arg)
          (\<lambda>s. no_world_opens s \<and> others_world s \<and> existflag (universe s) = 0)
          (\<lambda>x. world_opens)"
    unfolding one_world_def
    by (intro triple_seq_Cons [OF world_opens_one_world(1)]
          triple_seq_Cons [OF world_opens_one_world(2)]
          triple_seq_Cons [OF world_opens_one_world(3)] triple_seq_Nil)
  then have a: "triple (\<lambda>s. no_world_opens s \<and> existflag (universe s) = 0) (one_world e arg)
                  (\<lambda>s. world_opens s \<and> others_world s) (\<lambda>x. world_opens)"
    by (rule triple_weaken) (simp_all add: no_world_opens_def world_opens_def)
  have "triple (\<lambda>s. no_world_opens s \<and> existflag (universe s) \<noteq> 0) (many_worlds e arg)
          (\<lambda>s. world_opens s \<and> others_world s \<and> existflag (universe s) \<noteq> 0)
          (\<lambda>x. world_opens)"
    unfolding many_worlds_def
    by (intro triple_seq_Cons [OF world_opens_many_worlds(1)]
          triple_seq_Cons [OF world_opens_many_worlds(2)]
          triple_seq_Cons [OF world_opens_many_worlds(3)]
          triple_seq_Cons [OF world_opens_many_worlds(4)]
          triple_seq_Cons [OF world_opens_many_worlds(5)] triple_seq_Nil)
  then have b: "triple (\<lambda>s. no_world_opens s \<and> \<not> existflag (universe s) = 0)
                  (many_worlds e arg)
                  (\<lambda>s. world_opens s \<and> others_world s) (\<lambda>x. world_opens)"
    by (rule triple_weaken) simp_all
  show ?thesis
    unfolding world_streams_if by (rule triple_if [OF a b])
qed

lemma startup_streams_opens:
  "case outcome (startup_streams e arg) of
     None \<Rightarrow>
       pool_opens (final (startup_streams e arg))
       \<and> world_opens (final (startup_streams e arg))
       \<and> others_universe (final (startup_streams e arg))
       \<and> others_world (final (startup_streams e arg))
   | Some x \<Rightarrow>
       pool_opens (final (startup_streams e arg))
       \<and> world_opens (final (startup_streams e arg))"
  unfolding startup_streams_def
proof (rule startup_triple)
  show "triple (\<lambda>s. fresh e s \<and> checked e s)
          (seq [universe_streams e arg, world_streams e arg])
          (\<lambda>s. pool_opens s \<and> world_opens s \<and> others_universe s \<and> others_world s)
          (\<lambda>x s. pool_opens s \<and> world_opens s)"
  proof (rule triple_seq_Cons)
    show "triple (\<lambda>s. fresh e s \<and> checked e s) (universe_streams e arg)
            (\<lambda>s. (pool_opens s \<and> others_universe s) \<and> no_world_opens s)
            (\<lambda>x s. pool_opens s \<and> world_opens s)"
      by (rule triple_weaken [OF universe_streams_opens])
         (simp_all add: fresh_def no_world_opens_def world_opens_def)
    have "triple (\<lambda>s. pool_opens s \<and> others_universe s) (world_streams e arg)
            (\<lambda>s. pool_opens s \<and> others_universe s)
            (\<lambda>x s. pool_opens s \<and> others_universe s)"
      by (rule world_streams_inv) (rule pool_opens_one_world pool_opens_many_worlds)+
    from triple_conj [OF this world_streams_opens]
    have "triple (\<lambda>s. (pool_opens s \<and> others_universe s) \<and> no_world_opens s)
            (world_streams e arg)
            (\<lambda>s. pool_opens s \<and> world_opens s \<and> others_universe s \<and> others_world s)
            (\<lambda>x s. pool_opens s \<and> world_opens s)"
      by (rule triple_weaken) simp_all
    then show "triple (\<lambda>s. (pool_opens s \<and> others_universe s) \<and> no_world_opens s)
            (seq [world_streams e arg])
            (\<lambda>s. pool_opens s \<and> world_opens s \<and> others_universe s \<and> others_world s)
            (\<lambda>x s. pool_opens s \<and> world_opens s)"
      by (rule triple_seq_Cons) (rule triple_seq_Nil)
  qed
qed (simp add: fresh_def pool_opens_def world_opens_def fundamental_def)

text \<open>
  C2, as the code has it. A file is opened for the universe screen or logfile
  only by the process of pool rank 0, and for the screen or logfile of a
  world only by the process of rank 0 in that world, in a run with
  \<^verbatim>\<open>-partition\<close>. Once the streams are set up, a process of another pool rank
  has a null universe logfile, and its universe screen is \<^verbatim>\<open>stdout\<close> when
  no \<^verbatim>\<open>-screen\<close> switch was given and null otherwise; with \<^verbatim>\<open>-partition\<close>, a
  process of another rank in its world has a null screen and a null logfile;
  without \<^verbatim>\<open>-partition\<close>, the screen and logfile of the world are those of
  the universe.
\<close>

theorem stream_owners:
  "(let r = LAMMPS e arg; s = final r
    in (\<forall>n ok. Fopen Uscreen n ok \<in> set (trace s) \<or> Fopen Ulogfile n ok \<in> set (trace s) \<longrightarrow>
          me (universe s) = 0)
       \<and> (\<forall>n ok. Fopen Screen n ok \<in> set (trace s) \<or> Fopen Logfile n ok \<in> set (trace s) \<longrightarrow>
             world_me s = 0 \<and> existflag (universe s) \<noteq> 0)
       \<and> (outcome (startup_streams e arg) = None \<and> me (universe s) \<noteq> 0 \<longrightarrow>
             ulogfile (universe s) = None
             \<and> uscreen (universe s) = (if screenflag s = 0 then Some Stdout else None))
       \<and> (outcome (startup_streams e arg) = None \<and> existflag (universe s) \<noteq> 0
           \<and> world_me s \<noteq> 0 \<longrightarrow>
             screen s = None \<and> logfile s = None)
       \<and> (outcome (startup_streams e arg) = None \<and> existflag (universe s) = 0 \<longrightarrow>
             screen s = uscreen (universe s) \<and> logfile s = ulogfile (universe s)
             \<and> world_me s = me (universe s)))"
proof -
  let ?a = "final (startup_streams e arg)" and ?b = "final (LAMMPS e arg)"
  from LAMMPS_after_streams(2) [of e arg]
  have c: "screenflag ?b = screenflag ?a" "existflag (universe ?b) = existflag (universe ?a)"
    "me (universe ?b) = me (universe ?a)"
    by (simp_all add: same_config_def)
  note u = LAMMPS_after_streams(3-6) [of e arg]
  have w: "outcome (startup_streams e arg) = None \<Longrightarrow> existflag (universe ?a) = 0 \<Longrightarrow>
           world_me ?a = me (universe ?a)"
    using startup_streams_rank [of e arg] by (simp add: world_rank_set_def)
  from startup_streams_opens [of e arg]
  have p: "pool_opens ?a" "world_opens ?a"
    and q: "outcome (startup_streams e arg) = None \<Longrightarrow> others_universe ?a \<and> others_world ?a"
    by (auto split: option.splits)
  show ?thesis
    unfolding Let_def c u LAMMPS_fopen
    using p q w
    unfolding pool_opens_def world_opens_def others_universe_def others_world_def
    by blast
qed

theorem stream_owners_witness:
  "Fopen Ulogfile ''log.lammps'' True
     \<in> set (trace (final (LAMMPS (example_env 0 4 (\<lambda>f. True) False)
                       [''lmp'', ''-partition'', ''2'', ''2'', ''-in'', ''in.x''])))
   \<and> me (universe (final (LAMMPS (example_env 0 4 (\<lambda>f. True) False)
                       [''lmp'', ''-partition'', ''2'', ''2'', ''-in'', ''in.x'']))) = 0
   \<and> Fopen Screen ''screen.1'' True
     \<in> set (trace (final (LAMMPS (example_env 2 4 (\<lambda>f. True) False)
                       [''lmp'', ''-partition'', ''2'', ''2'', ''-in'', ''in.x''])))
   \<and> world_me (final (LAMMPS (example_env 2 4 (\<lambda>f. True) False)
                       [''lmp'', ''-partition'', ''2'', ''2'', ''-in'', ''in.x''])) = 0
   \<and> outcome (startup_streams (example_env 3 4 (\<lambda>f. True) False)
                [''lmp'', ''-partition'', ''2'', ''2'', ''-in'', ''in.x'']) = None
   \<and> me (universe (final (LAMMPS (example_env 3 4 (\<lambda>f. True) False)
                       [''lmp'', ''-partition'', ''2'', ''2'', ''-in'', ''in.x'']))) \<noteq> 0
   \<and> world_me (final (LAMMPS (example_env 3 4 (\<lambda>f. True) False)
                       [''lmp'', ''-partition'', ''2'', ''2'', ''-in'', ''in.x''])) \<noteq> 0
   \<and> ulogfile (universe (final (LAMMPS (example_env 3 4 (\<lambda>f. True) False)
                       [''lmp'', ''-partition'', ''2'', ''2'', ''-in'', ''in.x'']))) = None
   \<and> screen (final (LAMMPS (example_env 3 4 (\<lambda>f. True) False)
                       [''lmp'', ''-partition'', ''2'', ''2'', ''-in'', ''in.x''])) = None
   \<and> logfile (final (LAMMPS (example_env 3 4 (\<lambda>f. True) False)
                       [''lmp'', ''-partition'', ''2'', ''2'', ''-in'', ''in.x''])) = None
   \<and> outcome (startup_streams (example_env 1 2 (\<lambda>f. True) False) [''lmp'']) = None
   \<and> existflag (universe (final (LAMMPS (example_env 1 2 (\<lambda>f. True) False) [''lmp'']))) = 0
   \<and> screen (final (LAMMPS (example_env 1 2 (\<lambda>f. True) False) [''lmp'']))
       = uscreen (universe (final (LAMMPS (example_env 1 2 (\<lambda>f. True) False) [''lmp''])))"
proof -
  let ?p = "[''lmp'', ''-partition'', ''2'', ''2'', ''-in'', ''in.x'']"
  let ?r0 = "LAMMPS (example_env 0 4 (\<lambda>f. True) False) ?p"
  let ?r2 = "LAMMPS (example_env 2 4 (\<lambda>f. True) False) ?p"
  let ?r3 = "LAMMPS (example_env 3 4 (\<lambda>f. True) False) ?p"
  let ?r1 = "LAMMPS (example_env 1 2 (\<lambda>f. True) False) [''lmp'']"
  have h0: "Fopen Ulogfile ''log.lammps'' True \<in> set (trace (final ?r0))" by code_simp
  have h2: "Fopen Screen ''screen.1'' True \<in> set (trace (final ?r2))" by code_simp
  have h3: "outcome (startup_streams (example_env 3 4 (\<lambda>f. True) False) ?p) = None"
    "me (universe (final ?r3)) \<noteq> 0" "world_me (final ?r3) \<noteq> 0"
    "existflag (universe (final ?r3)) \<noteq> 0"
    by code_simp+
  have h1: "outcome (startup_streams (example_env 1 2 (\<lambda>f. True) False) [''lmp'']) = None"
    "existflag (universe (final ?r1)) = 0"
    by code_simp+
  from stream_owners [of "example_env 0 4 (\<lambda>f. True) False" ?p, unfolded Let_def] h0
  have c0: "me (universe (final ?r0)) = 0" by blast
  from stream_owners [of "example_env 2 4 (\<lambda>f. True) False" ?p, unfolded Let_def] h2
  have c2: "world_me (final ?r2) = 0" by blast
  from stream_owners [of "example_env 3 4 (\<lambda>f. True) False" ?p, unfolded Let_def] h3
  have c3: "ulogfile (universe (final ?r3)) = None" "screen (final ?r3) = None"
    "logfile (final ?r3) = None"
    by blast+
  from stream_owners [of "example_env 1 2 (\<lambda>f. True) False" "[''lmp'']", unfolded Let_def] h1
  have c1: "screen (final ?r1) = uscreen (universe (final ?r1))" by blast
  from h0 c0 h2 c2 h3 c3 h1 c1 show ?thesis by blast
qed

text \<open>
  The claim has every rank but the ranks 0 end with null streams at both
  scopes. Without any switch, the process of pool rank 1 of two ends with
  \<^verbatim>\<open>stdout\<close> as its universe screen and as its screen.
\<close>

theorem other_ranks_keep_stdout:
  "outcome (LAMMPS (example_env 1 2 (\<lambda>f. True) False) [''lmp'']) = None
   \<and> me (universe (final (LAMMPS (example_env 1 2 (\<lambda>f. True) False) [''lmp'']))) = 1
   \<and> world_me (final (LAMMPS (example_env 1 2 (\<lambda>f. True) False) [''lmp''])) = 1
   \<and> uscreen (universe (final (LAMMPS (example_env 1 2 (\<lambda>f. True) False) [''lmp''])))
       = Some Stdout
   \<and> screen (final (LAMMPS (example_env 1 2 (\<lambda>f. True) False) [''lmp''])) = Some Stdout"
  by code_simp

subsection \<open>Files that cannot be opened\<close>

lemma only_default_uscreen:
  "triple (only_default e) (open_uscreen e arg) (only_default e) (failed_open e)"
  by (auto simp add: triple_def only_default_def failed_open_def open_exit_def default_failure_def
        open_error_def open_uscreen_def error_def emit_def fopen_def set_uscreen_def Let_def)

lemma only_default_ulogfile:
  "triple (only_default e) (open_ulogfile e arg) (only_default e) (failed_open e)"
  by (auto simp add: triple_def only_default_def failed_open_def open_exit_def default_failure_def
        open_error_def open_ulogfile_def error_def emit_def universe_warn_def fopen_def
        set_ulogfile_def Let_def)

lemma only_default_others:
  "triple (only_default e) universe_others (only_default e) (failed_open e)"
  by (auto simp add: triple_def only_default_def failed_open_def open_exit_def default_failure_def
        universe_others_def set_uscreen_def set_ulogfile_def)

lemma only_default_one_world:
  "triple (only_default e) one_world_inherit (only_default e) (failed_open e)"
  "triple (only_default e) (one_world_infile e arg) (only_default e) (failed_open e)"
  "triple (only_default e) one_world_banner (only_default e) (failed_open e)"
  by (auto simp add: triple_def only_default_def failed_open_def open_exit_def default_failure_def
        open_error_def one_world_inherit_def one_world_infile_def sprintf_def one_world_banner_def
        error_def emit_def fopen_def fprintf_def Let_def split: option.splits)

lemma only_default_comm_split:
  "triple (only_default e) comm_split (only_default e) (failed_open e)"
  by (auto simp add: triple_def only_default_def failed_open_def open_exit_def default_failure_def
        comm_split_def emit_def)

lemma only_default_world_screen:
  "triple (only_default e) (world_screen e arg) (only_default e) (failed_open e)"
  by (auto simp add: triple_def only_default_def failed_open_def open_exit_def default_failure_def
        open_error_def world_screen_def sprintf_def open_screen_def error_def emit_def fopen_def Let_def)

lemma only_default_world_logfile:
  "triple (only_default e) (world_logfile e arg) (only_default e) (failed_open e)"
  by (auto simp add: triple_def only_default_def failed_open_def open_exit_def default_failure_def
        open_error_def world_logfile_def sprintf_def open_logfile_def error_def emit_def fopen_def Let_def)

lemma only_default_world_infile:
  "triple (only_default e) (world_infile e arg) (only_default e) (failed_open e)"
  by (auto simp add: triple_def only_default_def failed_open_def open_exit_def default_failure_def
        open_error_def world_infile_def sprintf_def error_def emit_def fopen_def Let_def)

lemma only_default_worlds_banner:
  "triple (only_default e) worlds_banner (only_default e) (failed_open e)"
  by (auto simp add: triple_def only_default_def failed_open_def open_exit_def default_failure_def
        worlds_banner_def emit_def fprintf_def Let_def split: option.splits)

lemma startup_only_default:
  "case outcome (startup_streams e arg) of
     None \<Rightarrow> only_default e (final (startup_streams e arg))
   | Some x \<Rightarrow> failed_open e x (final (startup_streams e arg))"
  unfolding startup_streams_def
proof (rule startup_triple)
  have "triple (only_default e) (seq [universe_streams e arg, world_streams e arg])
          (only_default e) (failed_open e)"
    by (rule streams_inv)
       (rule only_default_uscreen only_default_ulogfile only_default_others
          only_default_one_world only_default_comm_split only_default_world_screen
          only_default_world_logfile only_default_world_infile only_default_worlds_banner)+
  then show "triple (\<lambda>s. fresh e s \<and> checked e s)
          (seq [universe_streams e arg, world_streams e arg])
          (only_default e) (failed_open e)"
    by (rule triple_weaken) (simp_all add: fresh_def only_default_def fundamental_def)
qed (simp add: fresh_def failed_open_def fundamental_def)

lemma open_ulogfile_default:
  "logflag st = 0 \<Longrightarrow> outcome (open_ulogfile e arg st) = None"
  by (simp add: open_ulogfile_def outcome_def Let_def)

lemma LAMMPS_last:
  assumes "outcome (startup_streams e arg) = None"
    and "last (trace (final (startup_streams e arg))) \<noteq> Fopen t n ok"
  shows "last (trace (final (LAMMPS e arg))) \<noteq> Fopen t n ok"
proof -
  from LAMMPS_after_streams(1) [of e arg] obtain evs
    where t: "trace (final (LAMMPS e arg)) = trace (final (startup_streams e arg)) @ evs"
      and o: "\<forall>ev \<in> set evs. \<not> stream_event ev"
    by blast
  show ?thesis
  proof (cases "evs = []")
    case True
    with t assms(2) show ?thesis by simp
  next
    case False
    then have "last evs \<in> set evs" by simp
    with o have "\<not> stream_event (last evs)" by blast
    then have "last evs \<noteq> Fopen t n ok" by (auto simp: stream_event_def)
    with t False show ?thesis by simp
  qed
qed

lemma LAMMPS_trace_mono:
  "ev \<in> set (trace (final (startup_streams e arg))) \<Longrightarrow> ev \<in> set (trace (final (LAMMPS e arg)))"
  using LAMMPS_after_streams(1) [of e arg] by auto

text \<open>
  The buffer of a file name. In a run of two worlds of one process each, the
  process of pool rank 1 formats the name of its screen file from the value
  of \<^verbatim>\<open>-screen\<close> (lines 285 to 287). With a value of 125 bytes the name and
  its terminator fill the 128 bytes and the constructor returns; with one
  byte more the write runs past the end of the buffer, before any file of the
  world is opened.
\<close>

lemma screen_name_overrun:
  "outcome (LAMMPS (example_env 1 2 (\<lambda>f. True) False)
              [''lmp'', ''-partition'', ''1'', ''1'', ''-in'', ''in.x'', ''-screen'',
               replicate 125 CHR ''s'']) = None
   \<and> outcome (LAMMPS (example_env 1 2 (\<lambda>f. True) False)
              [''lmp'', ''-partition'', ''1'', ''1'', ''-in'', ''in.x'', ''-screen'',
               replicate 126 CHR ''s'']) = Some Overrun
   \<and> last (trace (final (LAMMPS (example_env 1 2 (\<lambda>f. True) False)
              [''lmp'', ''-partition'', ''1'', ''1'', ''-in'', ''in.x'', ''-screen'',
               replicate 126 CHR ''s''])))
       = Comm_split 1"
  by code_simp

text \<open>
  C5, as the code has it. With no \<^verbatim>\<open>-log\<close> switch, a failure to open the
  universe logfile is that of the default file log.lammps: it is followed by
  the warning "Cannot open log.lammps for writing" of
  \<^verbatim>\<open>error->universe_warn\<close>, the universe logfile is null from then on, the
  statement that opens it returns, and the constructor never ends in the
  error of the universe logfile. Every other failure to open a file (the
  universe screen, the universe logfile after \<^verbatim>\<open>-log\<close>, the screen or
  logfile of a world under the name a switch gave or under the default name
  screen.N or log.lammps.N, the input script) is the last thing the process
  does: the constructor ends in \<^verbatim>\<open>error->universe_one\<close> for a file of the
  universe and in \<^verbatim>\<open>error->one\<close> for a file of a world or the input
  script. For the input script this needs a name of at most 102 bytes: with a
  longer one the message "Cannot open input script ..." does not fit its
  buffer of 128 bytes, and the constructor ends in the write past its end,
  before the call of \<^verbatim>\<open>error->one\<close>.
\<close>

theorem open_failures:
  "(let r = LAMMPS e arg; s = final r
    in (\<forall>n. Fopen Ulogfile n False \<in> set (trace s) \<and> logflag s = 0 \<longrightarrow>
          n = ''log.lammps''
          \<and> Universe_warn ''Cannot open log.lammps for writing'' \<in> set (trace s)
          \<and> ulogfile (universe s) = None
          \<and> last (trace s) \<noteq> Fopen Ulogfile n False)
       \<and> (logflag s = 0 \<longrightarrow>
            outcome r \<noteq> Some (Fatal Universe_one ''Cannot open universe log file''))
       \<and> (\<forall>st. logflag st = 0 \<longrightarrow> outcome (open_ulogfile e arg st) = None)
       \<and> (\<forall>tgt n. Fopen tgt n False \<in> set (trace s) \<and> (tgt = Ulogfile \<longrightarrow> logflag s \<noteq> 0) \<longrightarrow>
            (if tgt = Infile \<and> 102 < length n then outcome r = Some Overrun
             else \<exists>m. outcome r = Some (Fatal (open_error tgt) m))
            \<and> last (trace s) = Fopen tgt n False))"
proof (cases "startup_streams e arg")
  case (Inl b)
  obtain x s0 where b: "b = (x, s0)" by (cases b)
  from LAMMPS_stopped(1) [OF Inl [unfolded b]] have r: "LAMMPS e arg = Inl (x, s0)" .
  from startup_only_default [of e arg] Inl b have f: "failed_open e x s0"
    by (simp add: outcome_def final_def)
  from f have g: "Fopen tgt n False \<in> set (trace s0) \<Longrightarrow>
         default_failure e s0 tgt n
         \<or> (tgt = Ulogfile \<longrightarrow> logflag s0 \<noteq> 0) \<and> open_exit tgt n x
           \<and> last (trace s0) = Fopen tgt n False" for tgt n
    unfolding failed_open_def by blast
  have p1: "\<forall>n. Fopen Ulogfile n False \<in> set (trace s0) \<and> logflag s0 = 0 \<longrightarrow>
          n = ''log.lammps''
          \<and> Universe_warn ''Cannot open log.lammps for writing'' \<in> set (trace s0)
          \<and> ulogfile (universe s0) = None
          \<and> last (trace s0) \<noteq> Fopen Ulogfile n False"
  proof (intro allI impI)
    fix n assume h: "Fopen Ulogfile n False \<in> set (trace s0) \<and> logflag s0 = 0"
    with g [of Ulogfile n] have "default_failure e s0 Ulogfile n" by simp
    then show "n = ''log.lammps''
          \<and> Universe_warn ''Cannot open log.lammps for writing'' \<in> set (trace s0)
          \<and> ulogfile (universe s0) = None
          \<and> last (trace s0) \<noteq> Fopen Ulogfile n False"
      unfolding default_failure_def by blast
  qed
  have p2: "logflag s0 = 0 \<longrightarrow>
            Some x \<noteq> Some (Fatal Universe_one ''Cannot open universe log file'')"
    using f unfolding failed_open_def by auto
  have p3: "\<forall>tgt n. Fopen tgt n False \<in> set (trace s0)
                   \<and> (tgt = Ulogfile \<longrightarrow> logflag s0 \<noteq> 0) \<longrightarrow>
            (if tgt = Infile \<and> 102 < length n then Some x = Some Overrun
             else \<exists>m. Some x = Some (Fatal (open_error tgt) m))
            \<and> last (trace s0) = Fopen tgt n False"
  proof (intro allI impI)
    fix tgt n
    assume h: "Fopen tgt n False \<in> set (trace s0) \<and> (tgt = Ulogfile \<longrightarrow> logflag s0 \<noteq> 0)"
    have "\<not> default_failure e s0 tgt n"
      using h unfolding default_failure_def by auto
    with g [of tgt n] h
    have "open_exit tgt n x" and l: "last (trace s0) = Fopen tgt n False"
      by blast+
    then have "if tgt = Infile \<and> 102 < length n then Some x = Some Overrun
               else \<exists>m. Some x = Some (Fatal (open_error tgt) m)"
      by (simp add: open_exit_def)
    with l
    show "(if tgt = Infile \<and> 102 < length n then Some x = Some Overrun
           else \<exists>m. Some x = Some (Fatal (open_error tgt) m))
          \<and> last (trace s0) = Fopen tgt n False"
      by simp
  qed
  have o: "outcome (Inl (x, s0)) = Some x" and fi: "final (Inl (x, s0)) = s0"
    by (simp_all add: outcome_def final_def)
  have p4: "\<forall>st. logflag st = 0 \<longrightarrow> outcome (open_ulogfile e arg st) = None"
    by (simp add: open_ulogfile_default)
  from p1 p2 p3 p4 show ?thesis
    unfolding Let_def r o fi by (intro conjI)
next
  case (Inr s0)
  have o: "outcome (startup_streams e arg) = None" and a: "final (startup_streams e arg) = s0"
    by (simp_all add: Inr outcome_def final_def)
  from startup_only_default [of e arg] o a have d: "only_default e s0"
    by simp
  let ?b = "final (LAMMPS e arg)"
  from LAMMPS_after_streams(2) [of e arg] a
  have c: "logflag ?b = logflag s0"
    by (simp_all add: same_config_def)
  note u = LAMMPS_after_streams(3) [of e arg, unfolded a]
  have f: "(Fopen t n ok \<in> set (trace ?b)) = (Fopen t n ok \<in> set (trace s0))" for t n ok
    using LAMMPS_fopen [of t n ok e arg] by (simp add: a)
  have l: "last (trace s0) \<noteq> Fopen t n ok \<Longrightarrow> last (trace ?b) \<noteq> Fopen t n ok" for t n ok
    using LAMMPS_last [OF o, of t n ok] by (simp add: a)
  have m: "ev \<in> set (trace s0) \<Longrightarrow> ev \<in> set (trace ?b)" for ev
    using LAMMPS_trace_mono [of ev e arg] by (simp add: a)
  from LAMMPS_outcome(2) [OF o]
  have oc: "outcome (LAMMPS e arg) \<noteq> Some (Fatal Universe_one ''Cannot open universe log file'')"
    by auto
  have p1: "\<forall>n. Fopen Ulogfile n False \<in> set (trace ?b) \<and> logflag ?b = 0 \<longrightarrow>
          n = ''log.lammps''
          \<and> Universe_warn ''Cannot open log.lammps for writing'' \<in> set (trace ?b)
          \<and> ulogfile (universe ?b) = None
          \<and> last (trace ?b) \<noteq> Fopen Ulogfile n False"
    using d l m unfolding f c u only_default_def default_failure_def by blast
  have p2: "\<forall>tgt n. Fopen tgt n False \<in> set (trace ?b)
                   \<and> (tgt = Ulogfile \<longrightarrow> logflag ?b \<noteq> 0) \<longrightarrow>
            (if tgt = Infile \<and> 102 < length n then outcome (LAMMPS e arg) = Some Overrun
             else \<exists>m. outcome (LAMMPS e arg) = Some (Fatal (open_error tgt) m))
            \<and> last (trace ?b) = Fopen tgt n False"
  proof (intro allI impI)
    fix tgt n
    assume h: "Fopen tgt n False \<in> set (trace ?b) \<and> (tgt = Ulogfile \<longrightarrow> logflag ?b \<noteq> 0)"
    then have h1: "Fopen tgt n False \<in> set (trace s0)"
      and h2: "tgt = Ulogfile \<longrightarrow> logflag s0 \<noteq> 0"
      by (simp_all add: f c)
    from d h1 have "default_failure e s0 tgt n"
      unfolding only_default_def by blast
    then have "tgt = Ulogfile" and "logflag s0 = 0"
      unfolding default_failure_def by blast+
    with h2 have False by simp
    then show "(if tgt = Infile \<and> 102 < length n then outcome (LAMMPS e arg) = Some Overrun
                else \<exists>m. outcome (LAMMPS e arg) = Some (Fatal (open_error tgt) m))
               \<and> last (trace ?b) = Fopen tgt n False" ..
  qed
  have p4: "\<forall>st. logflag st = 0 \<longrightarrow> outcome (open_ulogfile e arg st) = None"
    by (simp add: open_ulogfile_default)
  from p1 p2 oc p4 show ?thesis
    unfolding Let_def by blast
qed

theorem open_failures_witness:
  "Fopen Ulogfile ''log.lammps'' False
     \<in> set (trace (final (LAMMPS (example_env 0 1 (\<lambda>f. f \<noteq> ''log.lammps'') False) [''lmp''])))
   \<and> logflag (final (LAMMPS (example_env 0 1 (\<lambda>f. f \<noteq> ''log.lammps'') False) [''lmp''])) = 0
   \<and> Universe_warn ''Cannot open log.lammps for writing''
       \<in> set (trace (final (LAMMPS (example_env 0 1 (\<lambda>f. f \<noteq> ''log.lammps'') False)
                               [''lmp''])))
   \<and> ulogfile (universe (final (LAMMPS (example_env 0 1 (\<lambda>f. f \<noteq> ''log.lammps'') False)
                                  [''lmp'']))) = None
   \<and> outcome (LAMMPS (example_env 0 1 (\<lambda>f. f \<noteq> ''log.lammps'') False) [''lmp'']) = None
   \<and> Fopen Ulogfile ''my.log'' False
       \<in> set (trace (final (LAMMPS (example_env 0 1 (\<lambda>f. f \<noteq> ''my.log'') False)
                               [''lmp'', ''-log'', ''my.log''])))
   \<and> logflag (final (LAMMPS (example_env 0 1 (\<lambda>f. f \<noteq> ''my.log'') False)
                        [''lmp'', ''-log'', ''my.log''])) \<noteq> 0
   \<and> (\<exists>m. outcome (LAMMPS (example_env 0 1 (\<lambda>f. f \<noteq> ''my.log'') False)
                       [''lmp'', ''-log'', ''my.log''])
            = Some (Fatal (open_error Ulogfile) m))
   \<and> Fopen Screen ''s.1'' False
       \<in> set (trace (final (LAMMPS (example_env 2 4 (\<lambda>f. f \<noteq> ''s.1'') False)
                 [''lmp'', ''-partition'', ''2'', ''2'', ''-in'', ''in.x'', ''-screen'', ''s''])))
   \<and> (\<exists>m. outcome (LAMMPS (example_env 2 4 (\<lambda>f. f \<noteq> ''s.1'') False)
                 [''lmp'', ''-partition'', ''2'', ''2'', ''-in'', ''in.x'', ''-screen'', ''s''])
            = Some (Fatal (open_error Screen) m))
   \<and> Fopen Infile (replicate 103 CHR ''a'') False
       \<in> set (trace (final (LAMMPS (example_env 0 1 (\<lambda>f. f = ''log.lammps'') False)
                               [''lmp'', ''-in'', replicate 103 CHR ''a''])))
   \<and> outcome (LAMMPS (example_env 0 1 (\<lambda>f. f = ''log.lammps'') False)
                [''lmp'', ''-in'', replicate 103 CHR ''a'']) = Some Overrun"
proof -
  let ?r1 = "LAMMPS (example_env 0 1 (\<lambda>f. f \<noteq> ''log.lammps'') False) [''lmp'']"
  let ?r2 = "LAMMPS (example_env 0 1 (\<lambda>f. f \<noteq> ''my.log'') False)
               [''lmp'', ''-log'', ''my.log'']"
  let ?r3 = "LAMMPS (example_env 2 4 (\<lambda>f. f \<noteq> ''s.1'') False)
               [''lmp'', ''-partition'', ''2'', ''2'', ''-in'', ''in.x'', ''-screen'', ''s'']"
  let ?r4 = "LAMMPS (example_env 0 1 (\<lambda>f. f = ''log.lammps'') False)
               [''lmp'', ''-in'', replicate 103 CHR ''a'']"
  have h1: "Fopen Ulogfile ''log.lammps'' False \<in> set (trace (final ?r1))" by code_simp
  have h2: "logflag (final ?r1) = 0" by code_simp
  have h3: "outcome ?r1 = None" by code_simp
  have h4: "Fopen Ulogfile ''my.log'' False \<in> set (trace (final ?r2))" by code_simp
  have h5: "logflag (final ?r2) \<noteq> 0" by code_simp
  have h6: "Fopen Screen ''s.1'' False \<in> set (trace (final ?r3))" by code_simp
  have h7: "Fopen Infile (replicate 103 CHR ''a'') False \<in> set (trace (final ?r4))"
    by code_simp
  from open_failures [of "example_env 0 1 (\<lambda>f. f \<noteq> ''log.lammps'') False" "[''lmp'']",
      unfolded Let_def] h1 h2
  have c1: "Universe_warn ''Cannot open log.lammps for writing'' \<in> set (trace (final ?r1))"
    and c2: "ulogfile (universe (final ?r1)) = None"
    by blast+
  from open_failures [of "example_env 0 1 (\<lambda>f. f \<noteq> ''my.log'') False"
      "[''lmp'', ''-log'', ''my.log'']", unfolded Let_def]
  have "Fopen Ulogfile ''my.log'' False \<in> set (trace (final ?r2))
          \<and> (Ulogfile = Ulogfile \<longrightarrow> logflag (final ?r2) \<noteq> 0) \<longrightarrow>
        (if Ulogfile = Infile \<and> 102 < length ''my.log'' then outcome ?r2 = Some Overrun
         else \<exists>m. outcome ?r2 = Some (Fatal (open_error Ulogfile) m))"
    by blast
  with h4 h5 have c3: "\<exists>m. outcome ?r2 = Some (Fatal (open_error Ulogfile) m)"
    by simp
  from open_failures [of "example_env 2 4 (\<lambda>f. f \<noteq> ''s.1'') False"
      "[''lmp'', ''-partition'', ''2'', ''2'', ''-in'', ''in.x'', ''-screen'', ''s'']",
      unfolded Let_def]
  have "Fopen Screen ''s.1'' False \<in> set (trace (final ?r3))
          \<and> (Screen = Ulogfile \<longrightarrow> logflag (final ?r3) \<noteq> 0) \<longrightarrow>
        (if Screen = Infile \<and> 102 < length ''s.1'' then outcome ?r3 = Some Overrun
         else \<exists>m. outcome ?r3 = Some (Fatal (open_error Screen) m))"
    by blast
  with h6 have c4: "\<exists>m. outcome ?r3 = Some (Fatal (open_error Screen) m)"
    by simp
  from open_failures [of "example_env 0 1 (\<lambda>f. f = ''log.lammps'') False"
      "[''lmp'', ''-in'', replicate 103 CHR ''a'']", unfolded Let_def]
  have "Fopen Infile (replicate 103 CHR ''a'') False \<in> set (trace (final ?r4))
          \<and> (Infile = Ulogfile \<longrightarrow> logflag (final ?r4) \<noteq> 0) \<longrightarrow>
        (if Infile = Infile \<and> 102 < length (replicate 103 CHR ''a'')
         then outcome ?r4 = Some Overrun
         else \<exists>m. outcome ?r4 = Some (Fatal (open_error Infile) m))"
    by blast
  with h7 have c5: "outcome ?r4 = Some Overrun"
    by simp
  from h1 h2 c1 c2 h3 h4 h5 c3 h6 c4 h7 c5 show ?thesis by blast
qed

text \<open>
  The claim has the failure to open the default log file reported as a
  warning whenever no log switch is given. In a run of two worlds with no
  \<^verbatim>\<open>-log\<close> and no \<^verbatim>\<open>-plog\<close> switch, the process of rank 0 in world 1 that
  cannot open its default logfile log.lammps.1 ends in \<^verbatim>\<open>error->one\<close>.
\<close>

theorem world_default_log_is_fatal:
  "logflag (final (LAMMPS (example_env 2 4 (\<lambda>f. f \<noteq> ''log.lammps.1'') False)
                     [''lmp'', ''-partition'', ''2'', ''2'', ''-in'', ''in.x''])) = 0
   \<and> partlogflag (final (LAMMPS (example_env 2 4 (\<lambda>f. f \<noteq> ''log.lammps.1'') False)
                     [''lmp'', ''-partition'', ''2'', ''2'', ''-in'', ''in.x''])) = 0
   \<and> last (trace (final (LAMMPS (example_env 2 4 (\<lambda>f. f \<noteq> ''log.lammps.1'') False)
                     [''lmp'', ''-partition'', ''2'', ''2'', ''-in'', ''in.x''])))
       = Fopen Logfile ''log.lammps.1'' False
   \<and> outcome (LAMMPS (example_env 2 4 (\<lambda>f. f \<noteq> ''log.lammps.1'') False)
                [''lmp'', ''-partition'', ''2'', ''2'', ''-in'', ''in.x''])
       = Some (Fatal One ''Cannot open logfile'')"
  by code_simp

end
